theory Spec2Isabelle
  imports Main
begin

section \<open>Python values used by the script\<close>

text \<open>
  A Python \<^verbatim>\<open>str\<close> is a sequence of Unicode code points.  The prompts of the script contain
  the code points U+2014 and U+2026, and \<^verbatim>\<open>str.strip\<close> is defined on code points, so a
  string is a list of code points here; \<open>str\<close> embeds an ASCII literal.
\<close>

type_synonym pystr = "nat list"

definition str :: "string \<Rightarrow> pystr" where
  "str cs = map of_char cs"

text \<open>The exceptions the script can meet.  All of them are subclasses of \<^verbatim>\<open>Exception\<close>;
  \<^verbatim>\<open>ModuleNotFoundError\<close> is a subclass of \<^verbatim>\<open>ImportError\<close>.  The second component is
  the text \<^verbatim>\<open>str(e)\<close>.\<close>

datatype exn_class =
    ImportError | ModuleNotFoundError | KeyError | IndexError | AttributeError
  | AssertionError | TypeError | OtherError

datatype exn = Exn exn_class pystr

fun exn_text :: "exn \<Rightarrow> pystr" where
  "exn_text (Exn c m) = m"

fun is_ImportError :: "exn \<Rightarrow> bool" where
  "is_ImportError (Exn c m) = (c = ImportError \<or> c = ModuleNotFoundError)"

text \<open>A value that argparse stores for an option with an argument: a string, or a list of
  strings.\<close>

datatype pyval = Py_str pystr | Py_list "pystr list"

text \<open>A Python \<^verbatim>\<open>dict\<close> keeps its items in insertion order: an association list.\<close>

type_synonym ('k, 'v) dict = "('k \<times> 'v) list"

definition dict_keys :: "('k, 'v) dict \<Rightarrow> 'k list" where
  "dict_keys d = map fst d"

definition dict_contains :: "('k, 'v) dict \<Rightarrow> 'k \<Rightarrow> bool" where
  "dict_contains d k = (k \<in> set (dict_keys d))"

definition dict_get :: "('k, 'v) dict \<Rightarrow> 'k \<Rightarrow> 'v \<Rightarrow> 'v" where
  "dict_get d k dflt = (case map_of d k of Some v \<Rightarrow> v | None \<Rightarrow> dflt)"

text \<open>\<^verbatim>\<open>d.get(k, dflt)\<close> on a dictionary with string keys, for a key that is a string or a
  list: a list cannot be hashed, and the lookup raises \<^verbatim>\<open>TypeError\<close>.\<close>

definition dict_get_value :: "(pystr, 'v) dict \<Rightarrow> pyval \<Rightarrow> 'v \<Rightarrow> exn + 'v" where
  "dict_get_value d k dflt =
     (case k of
        Py_str s \<Rightarrow> Inr (dict_get d s dflt)
      | Py_list l \<Rightarrow>
          Inl (Exn TypeError (str ''unhashable type: '' @ [39] @ str ''list'' @ [39])))"

definition dict_index :: "(pystr, 'v) dict \<Rightarrow> pystr \<Rightarrow> exn + 'v" where
  "dict_index d k = (case map_of d k of Some v \<Rightarrow> Inr v | None \<Rightarrow> Inl (Exn KeyError k))"

fun dict_set :: "('k, 'v) dict \<Rightarrow> 'k \<Rightarrow> 'v \<Rightarrow> ('k, 'v) dict" where
  "dict_set [] k v = [(k, v)]"
| "dict_set ((k', v') # d) k v = (if k' = k then (k, v) # d else (k', v') # dict_set d k v)"

section \<open>The mode table\<close>

definition MODE_PROMPTS :: "(pystr, pystr) dict" where
  \<open>MODE_PROMPTS =
    [(str ''descriptive'', str ''Write a long detailed description for this image.''),
     (str ''straightforward'',
        str ''Write a straightforward caption for this image. Begin with the main subject and medium. ''
      @ str ''Mention pivotal elements'' @ [8212] @ str ''people, objects, scenery'' @ [8212]
      @ str ''using confident, definite language. ''
      @ str ''Focus on concrete details like color, shape, texture, and spatial relationships. ''
      @ str ''Show how elements interact. Omit mood and speculative wording. ''
      @ str ''If text is present, quote it exactly. Note any watermarks, signatures, or compression artifacts. ''
      @ str ''Never mention what\'s absent, resolution, or unobservable details. ''
      @ str ''Vary your sentence structure and keep the description concise, without starting with "This image is''
      @ [8230] @ str ''" or similar phrasing.''),
     (str ''booru'',
        str ''Generate only comma-separated Danbooru tags (lowercase_underscores). ''
      @ str ''Strict order: artist:, copyright:, character:, meta:, then general tags. ''
      @ str ''Include counts (1girl), appearance, clothing, accessories, pose, expression, actions, background. ''
      @ str ''Use precise Danbooru syntax. No extra text.''),
     (str ''training'',
        str ''Create a training caption for this image. Start with the main subject, then describe pose, ''
      @ str ''expression, clothing, background, and art style. Use comma-separated tags. Be specific about visual details.'')]\<close>

text \<open>\<^verbatim>\<open>DEFAULT_PROMPT = MODE_PROMPTS["descriptive"]\<close>: the subscript raises \<^verbatim>\<open>KeyError\<close> on a
  missing key, at import time of the module; the key is present (lemma \<open>DEFAULT_PROMPT_index\<close>).\<close>

definition DEFAULT_PROMPT :: pystr where
  "DEFAULT_PROMPT = (case dict_index MODE_PROMPTS (str ''descriptive'') of Inr v \<Rightarrow> v | Inl e \<Rightarrow> [])"

section \<open>The argument parser\<close>

text \<open>
  Lines 37 to 41 of the script build an \<^verbatim>\<open>argparse.ArgumentParser\<close> with default settings
  (prefix character \<^verbatim>\<open>-\<close>, abbreviations allowed, the help option added) and three options.
  What follows is \<^verbatim>\<open>ArgumentParser.parse_args\<close> of CPython 3.11 at this parser: the option
  table, the classification of each command-line string (\<^verbatim>\<open>_parse_optional\<close>,
  \<^verbatim>\<open>_get_option_tuples\<close>), and the consumption loop (\<^verbatim>\<open>_parse_known_args\<close>).

  The script does not fix the interpreter it runs on, and argparse is not the same in all
  releases of CPython 3.11.  Three things of the interpreter bear on this parser:
  \<^item> the Unicode table behind the digit class of the regular expression for negative numbers;
  \<^item> \<^verbatim>\<open>_get_values\<close>: CPython 3.11.2 strips the first \<^verbatim>\<open>--\<close> from the argument strings of every
    action (\<^verbatim>\<open>if action.nargs not in [PARSER, REMAINDER]\<close>), later code only from those of a
    positional (\<^verbatim>\<open>if not action.option_strings and action.nargs not in [PARSER, REMAINDER]\<close>);
  \<^item> \<^verbatim>\<open>consume_optional\<close>, for what follows a single-dash flag in the same string: CPython
    3.11.2 raises \<^verbatim>\<open>ignored explicit argument\<close> at a character that is no option and has no
    separator; later code keeps the separator \<^verbatim>\<open>=\<close> apart, refuses it, and sends an unknown
    character to the unrecognized arguments.
\<close>

record interpreter =
  negative_number :: "pystr \<Rightarrow> bool"
  strips_option_values :: bool
  cluster_is_strict :: bool

datatype action = Help_action | Image_action | Mode_action | Low_vram_action

definition option_string_actions :: "(pystr, action) dict" where
  "option_string_actions =
    [(str ''-h'', Help_action), (str ''--help'', Help_action),
     (str ''--image'', Image_action),
     (str ''--mode'', Mode_action),
     (str ''--low-vram'', Low_vram_action)]"

text \<open>\<^verbatim>\<open>nargs\<close>: the two \<^verbatim>\<open>store\<close> options take one argument, \<^verbatim>\<open>store_true\<close> and \<^verbatim>\<open>help\<close> none.\<close>

fun takes_argument :: "action \<Rightarrow> bool" where
  "takes_argument Image_action = True"
| "takes_argument Mode_action = True"
| "takes_argument Help_action = False"
| "takes_argument Low_vram_action = False"

text \<open>\<^verbatim>\<open>choices=list(MODE_PROMPTS.keys())\<close>\<close>

definition mode_choices :: "pystr list" where
  "mode_choices = dict_keys MODE_PROMPTS"

datatype arg_error =
    Ambiguous_option pystr "pystr list"
  | Unexpected_option_string pystr
  | Ignored_explicit_argument action pystr
  | Expected_one_argument action
  | Invalid_choice pystr "pystr list"
  | Required_arguments "pystr list"
  | Unrecognized_arguments "pystr list"

text \<open>How the parser leaves without a namespace: the help action prints the help text to
  standard output and exits with status 0; \<^verbatim>\<open>parser.error\<close> prints the usage and the message
  to standard error and exits with status 2.\<close>

datatype parse_exit = Help_exit | Error_exit arg_error

definition startswith :: "pystr \<Rightarrow> pystr \<Rightarrow> bool" where
  "startswith s p = (take (length p) s = p)"

text \<open>\<^verbatim>\<open>s.partition('=')\<close>: the part before the first \<^verbatim>\<open>=\<close>, whether there is one, the part
  after it.\<close>

definition partition_eq :: "pystr \<Rightarrow> pystr \<times> bool \<times> pystr" where
  "partition_eq s =
     (takeWhile (\<lambda>c. c \<noteq> 61) s, 61 \<in> set s, drop 1 (dropWhile (\<lambda>c. c \<noteq> 61) s))"

text \<open>An option tuple of argparse: the action (or \<^verbatim>\<open>None\<close>), the option string, the separator
  and the explicit argument.\<close>

type_synonym option_tuple = "action option \<times> pystr \<times> pystr option \<times> pystr option"

definition get_option_tuples :: "pystr \<Rightarrow> arg_error + option_tuple list" where
  "get_option_tuples option_string =
     (if option_string ! 0 = 45 \<and> option_string ! 1 = 45 then
        (case partition_eq option_string of (option_prefix, found, rest) \<Rightarrow>
           Inr (concat (map (\<lambda>(os, a).
                  if startswith os option_prefix
                  then [(Some a, os, if found then Some [61] else None,
                         if found then Some rest else None)]
                  else [])
                option_string_actions)))
      else if option_string ! 0 = 45 \<and> option_string ! 1 \<noteq> 45 then
        Inr (concat (map (\<lambda>(os, a).
               if os = take 2 option_string
               then [(Some a, os, Some [], Some (drop 2 option_string))]
               else if startswith os option_string
               then [(Some a, os, None, None)]
               else [])
             option_string_actions))
      else Inl (Unexpected_option_string option_string))"

text \<open>\<^verbatim>\<open>_parse_optional\<close>.  The result \<open>None\<close> means a positional argument.  The parameter
  \<open>neg\<close> is \<open>negative_number\<close> of the interpreter, the match of argparse's regular expression
  \<^verbatim>\<open>^-\d+$|^-\d*\.\d+$\<close>, whose digit class is the Unicode table of the interpreter; the
  parser has no option that looks like a negative number.  The only callers pass strings of
  length at least two that start with the prefix character to \<open>get_option_tuples\<close>.\<close>

definition parse_optional :: "(pystr \<Rightarrow> bool) \<Rightarrow> pystr \<Rightarrow> arg_error + option_tuple option" where
  "parse_optional neg arg_string =
     (if arg_string = [] then Inr None
      else if hd arg_string \<noteq> 45 then Inr None
      else case map_of option_string_actions arg_string of
        Some a \<Rightarrow> Inr (Some (Some a, arg_string, None, None))
      | None \<Rightarrow>
        if length arg_string = 1 then Inr None
        else case partition_eq arg_string of (option_string, found, explicit_arg) \<Rightarrow>
          (case (if found then map_of option_string_actions option_string else None) of
             Some a \<Rightarrow> Inr (Some (Some a, option_string, Some [61], Some explicit_arg))
           | None \<Rightarrow>
             (case get_option_tuples arg_string of
                Inl e \<Rightarrow> Inl e
              | Inr [] \<Rightarrow>
                  if neg arg_string then Inr None
                  else if 32 \<in> set arg_string then Inr None
                  else Inr (Some (None, arg_string, None, None))
              | Inr [t] \<Rightarrow> Inr (Some t)
              | Inr ts \<Rightarrow>
                  Inl (Ambiguous_option arg_string (map (\<lambda>(a, os, sep, e). os) ts)))))"

text \<open>The pattern of the command line: \<open>Arg\<close> for an argument (\<^verbatim>\<open>A\<close>), \<open>Dashes\<close> for the
  first \<^verbatim>\<open>--\<close>, \<open>Opt\<close> for an option (\<^verbatim>\<open>O\<close>).  Every string after the first \<^verbatim>\<open>--\<close> is
  an argument.  An ambiguous abbreviation ends the run here, before any action is taken.\<close>

datatype pattern = Arg | Dashes | Opt option_tuple

fun classify :: "(pystr \<Rightarrow> bool) \<Rightarrow> pystr list \<Rightarrow> arg_error + pattern list" where
  "classify neg [] = Inr []"
| "classify neg (s # ss) =
     (if s = str ''--'' then Inr (Dashes # map (\<lambda>_. Arg) ss)
      else case parse_optional neg s of
        Inl e \<Rightarrow> Inl e
      | Inr None \<Rightarrow> (case classify neg ss of Inl e \<Rightarrow> Inl e | Inr ps \<Rightarrow> Inr (Arg # ps))
      | Inr (Some t) \<Rightarrow> (case classify neg ss of Inl e \<Rightarrow> Inl e | Inr ps \<Rightarrow> Inr (Opt t # ps)))"

text \<open>The namespace while parsing: \<^verbatim>\<open>image\<close> starts as \<^verbatim>\<open>None\<close>, \<^verbatim>\<open>mode\<close> as
  \<^verbatim>\<open>"descriptive"\<close>, \<^verbatim>\<open>low_vram\<close> as \<^verbatim>\<open>False\<close>.\<close>

record namespace =
  ns_image :: "pyval option"
  ns_mode :: pyval
  ns_low_vram :: bool

definition default_namespace :: namespace where
  "default_namespace =
     \<lparr>ns_image = None, ns_mode = Py_str (str ''descriptive''), ns_low_vram = False\<rparr>"

text \<open>\<^verbatim>\<open>_check_value\<close>: a value of \<^verbatim>\<open>--mode\<close> must be one of the choices; the other actions
  have no choices.\<close>

fun check_value :: "action \<Rightarrow> pystr \<Rightarrow> arg_error list" where
  "check_value Mode_action v = (if v \<in> set mode_choices then [] else [Invalid_choice v mode_choices])"
| "check_value Help_action v = []"
| "check_value Image_action v = []"
| "check_value Low_vram_action v = []"

text \<open>\<^verbatim>\<open>_get_values\<close> for the options of this parser.  Where the interpreter strips it, the
  first \<^verbatim>\<open>--\<close> is removed from the argument strings.  A single argument string of an action
  with one argument is checked and is the value, a string; in every other case the value is
  the list of the argument strings, each of them checked.\<close>

definition get_values :: "interpreter \<Rightarrow> action \<Rightarrow> pystr list \<Rightarrow> arg_error + pyval" where
  "get_values ip a arg_strings =
     (let arg_strings =
            (if strips_option_values ip then remove1 (str ''--'') arg_strings else arg_strings)
      in if length arg_strings = 1 \<and> takes_argument a then
           (case check_value a (hd arg_strings) of
              [] \<Rightarrow> Inr (Py_str (hd arg_strings))
            | e # es \<Rightarrow> Inl e)
         else
           (case concat (map (check_value a) arg_strings) of
              [] \<Rightarrow> Inr (Py_list arg_strings)
            | e # es \<Rightarrow> Inl e))"

text \<open>\<^verbatim>\<open>take_action\<close> with the argument strings of the option: the value is computed and
  checked, then the action stores it, stores \<^verbatim>\<open>True\<close>, or prints the help and exits.\<close>

definition take_action :: "interpreter \<Rightarrow> action \<Rightarrow> pystr list \<Rightarrow> namespace
                             \<Rightarrow> parse_exit + namespace" where
  "take_action ip a arg_strings ns =
     (case get_values ip a arg_strings of
        Inl e \<Rightarrow> Inl (Error_exit e)
      | Inr v \<Rightarrow>
        (case a of
           Help_action \<Rightarrow> Inl Help_exit
         | Low_vram_action \<Rightarrow> Inr (ns\<lparr>ns_low_vram := True\<rparr>)
         | Image_action \<Rightarrow> Inr (ns\<lparr>ns_image := Some v\<rparr>)
         | Mode_action \<Rightarrow> Inr (ns\<lparr>ns_mode := v\<rparr>)))"

text \<open>The tail of a single-dash option string after \<^verbatim>\<open>-h\<close> (the loop of
  \<^verbatim>\<open>consume_optional\<close> for an action without arguments), in the later code.  An explicit
  argument after a separator, an empty one, or one that starts with the prefix character is
  an error, raised before any action is taken; otherwise the help action, first in the list
  of actions, is taken.  The only single-dash option string of the table is \<^verbatim>\<open>-h\<close>, so a
  further character found in the table is the help action again.\<close>

fun short_cluster :: "bool \<Rightarrow> pystr \<Rightarrow> parse_exit" where
  "short_cluster sep [] = Error_exit (Ignored_explicit_argument Help_action [])"
| "short_cluster sep (c # cs) =
     (if sep \<or> c = 45 then Error_exit (Ignored_explicit_argument Help_action (c # cs))
      else if map_of option_string_actions [45, c] = None then Help_exit
      else (case cs of
              [] \<Rightarrow> Help_exit
            | d # ds \<Rightarrow> if d = 61 then short_cluster True ds else short_cluster False cs))"

text \<open>The same loop in CPython 3.11.2, which has no separator: the first character of the
  explicit argument must be a single-dash option, or else the error is raised, before any
  action is taken; the rest is the explicit argument of that option, and when nothing is left
  the actions are taken, the help action first.\<close>

fun strict_cluster :: "pystr \<Rightarrow> parse_exit" where
  "strict_cluster [] = Error_exit (Ignored_explicit_argument Help_action [])"
| "strict_cluster (c # cs) =
     (if map_of option_string_actions [45, c] = None
      then Error_exit (Ignored_explicit_argument Help_action (c # cs))
      else (case cs of
              [] \<Rightarrow> Help_exit
            | d # ds \<Rightarrow> strict_cluster cs))"

text \<open>The loop of \<^verbatim>\<open>_parse_known_args\<close> over the command line and its pattern.  The parser has
  no positional argument, so every string that is not an option or the argument of one goes
  to \<^verbatim>\<open>extras\<close>.  An option that takes an argument takes its explicit argument, or else the
  next string, which must be an argument (pattern \<^verbatim>\<open>A\<close>).\<close>

fun consume :: "interpreter \<Rightarrow> namespace \<Rightarrow> pystr list \<Rightarrow> (pystr \<times> pattern) list
                  \<Rightarrow> parse_exit + namespace \<times> pystr list" where
  "consume ip ns extras [] = Inr (ns, extras)"
| "consume ip ns extras ((s, Arg) # r) = consume ip ns (extras @ [s]) r"
| "consume ip ns extras ((s, Dashes) # r) = consume ip ns (extras @ [s]) r"
| "consume ip ns extras ((s, Opt (None, option_string, sep, explicit_arg)) # r) =
     consume ip ns (extras @ [s]) r"
| "consume ip ns extras ((s, Opt (Some a, option_string, sep, Some e)) # r) =
     (if takes_argument a then
        (case take_action ip a [e] ns of Inl x \<Rightarrow> Inl x | Inr ns' \<Rightarrow> consume ip ns' extras r)
      else if option_string ! 1 \<noteq> 45 \<and> e \<noteq> [] then
        Inl (if cluster_is_strict ip then strict_cluster e
             else short_cluster (sep \<noteq> None \<and> sep \<noteq> Some []) e)
      else Inl (Error_exit (Ignored_explicit_argument a e)))"
| "consume ip ns extras ((s, Opt (Some a, option_string, sep, None)) # r) =
     (if takes_argument a then
        (case r of
           (v, Arg) # r' \<Rightarrow>
             (case take_action ip a [v] ns of Inl x \<Rightarrow> Inl x | Inr ns' \<Rightarrow> consume ip ns' extras r')
         | _ \<Rightarrow> Inl (Error_exit (Expected_one_argument a)))
      else
        (case take_action ip a [] ns of Inl x \<Rightarrow> Inl x | Inr ns' \<Rightarrow> consume ip ns' extras r))"

text \<open>The parsed arguments, as \<^verbatim>\<open>main\<close> reads them.\<close>

record args =
  image :: pyval
  mode :: pyval
  low_vram :: bool

text \<open>\<^verbatim>\<open>parse_args\<close>: classify, consume, then the required option \<^verbatim>\<open>--image\<close> must have been
  seen, and no string may be left over.\<close>

definition parse_args :: "interpreter \<Rightarrow> pystr list \<Rightarrow> parse_exit + args" where
  "parse_args ip argv =
     (case classify (negative_number ip) argv of
        Inl e \<Rightarrow> Inl (Error_exit e)
      | Inr ps \<Rightarrow>
        (case consume ip default_namespace [] (zip argv ps) of
           Inl x \<Rightarrow> Inl x
         | Inr (ns, extras) \<Rightarrow>
           (case ns_image ns of
              None \<Rightarrow> Inl (Error_exit (Required_arguments [str ''--image'']))
            | Some path \<Rightarrow>
              if extras \<noteq> [] then Inl (Error_exit (Unrecognized_arguments extras))
              else Inr \<lparr>image = path, mode = ns_mode ns, low_vram = ns_low_vram ns\<rparr>)))"

section \<open>The external libraries\<close>

text \<open>
  PIL, torch and transformers are not part of the script.  Their objects are opaque (an
  object is its identity), and what each call answers, a value or an exception, is given by
  the environment of a run, together with the interpreter.
\<close>

datatype image = Image_object nat
datatype processor = Processor_object nat
datatype model = Model_object nat
datatype quant_config = Quant_config_object nat
datatype dtype = float16 | bfloat16

text \<open>A tensor has a shape; what else it holds is opaque.  A value of the processor's output
  either is a tensor (it has the method \<^verbatim>\<open>to\<close>) or is not.\<close>

datatype tensor = Tensor (shape: "nat list") nat
datatype batch_value = Tens tensor | Plain nat
datatype to_target = To_device pystr | To_dtype dtype

text \<open>What \<^verbatim>\<open>apply_chat_template\<close> returned: a \<^verbatim>\<open>str\<close>, or something else.\<close>

datatype template_result = Template_str pystr | Template_other nat

record bnb_kwargs =
  load_in_4bit :: bool
  bnb_4bit_compute_dtype :: dtype
  bnb_4bit_quant_type :: pystr

text \<open>The keyword arguments of \<^verbatim>\<open>from_pretrained\<close>; \<open>None\<close> is an argument that is not
  passed.\<close>

record load_kwargs =
  quantization_config :: "quant_config option"
  torch_dtype :: "dtype option"
  device_map :: pystr

text \<open>The keyword arguments of \<^verbatim>\<open>generate\<close> that the script writes out; the two floating
  point literals are kept as written.\<close>

record generate_kwargs =
  max_new_tokens :: nat
  do_sample :: bool
  temperature :: pystr
  top_p :: pystr

type_synonym message = "(pystr, pystr) dict"
type_synonym inputs = "(pystr, batch_value) dict"

record env =
  interp :: interpreter
  import_deps :: "exn + unit"
  cuda_is_available :: "exn + bool"
  image_open :: "pyval \<Rightarrow> exn + image"
  image_convert :: "image \<Rightarrow> pystr \<Rightarrow> exn + image"
  processor_from_pretrained :: "pystr \<Rightarrow> exn + processor"
  BitsAndBytesConfig :: "bnb_kwargs \<Rightarrow> exn + quant_config"
  model_from_pretrained :: "pystr \<Rightarrow> load_kwargs \<Rightarrow> exn + model"
  model_eval :: "model \<Rightarrow> exn + unit"
  apply_chat_template :: "processor \<Rightarrow> message list \<Rightarrow> bool \<Rightarrow> bool \<Rightarrow> exn + template_result"
  processor_call :: "processor \<Rightarrow> pystr list \<Rightarrow> image list \<Rightarrow> pystr \<Rightarrow> exn + inputs"
  model_device :: "model \<Rightarrow> pystr"
  tensor_to :: "tensor \<Rightarrow> to_target \<Rightarrow> exn + tensor"
  generate :: "model \<Rightarrow> inputs \<Rightarrow> generate_kwargs \<Rightarrow> exn + nat list list"
  decode :: "processor \<Rightarrow> nat list \<Rightarrow> bool \<Rightarrow> bool \<Rightarrow> exn + pystr"

section \<open>Runs\<close>

text \<open>
  What a run does that can be seen from outside: the library calls it makes, with their
  arguments, the exceptions raised, and what is printed.  \<open>Print\<close> is a call of \<^verbatim>\<open>print\<close>
  with its text and its stream; the interpreter prints the traceback of an uncaught exception
  to standard error, argparse its help to standard output and its usage errors to standard
  error.  Writing to the two streams is assumed not to fail.
\<close>

datatype call =
    Import_deps
  | Cuda_is_available
  | Image_open pyval
  | Image_convert image pystr
  | Processor_from_pretrained pystr
  | BitsAndBytesConfig_call bnb_kwargs
  | Model_from_pretrained pystr load_kwargs
  | Model_eval model
  | Apply_chat_template processor "message list" bool bool
  | Processor_call processor "pystr list" "image list" pystr
  | Tensor_to tensor to_target
  | Generate model inputs generate_kwargs
  | Decode processor "nat list" bool bool

datatype stream = Stdout | Stderr

datatype event =
    Call call
  | Raised exn
  | Print stream pystr
  | Traceback exn
  | Print_help
  | Print_usage_error arg_error

text \<open>A piece of the program returns a value, raises an exception or leaves through
  \<^verbatim>\<open>sys.exit\<close> (which no handler of the script catches), and has done the events of its
  second component, in order.\<close>

datatype 'a result = Return 'a | Raise exn | Exit int

type_synonym 'a prog = "'a result \<times> event list"

definition ret :: "'a \<Rightarrow> 'a prog" where
  "ret x = (Return x, [])"

definition raise :: "exn \<Rightarrow> 'a prog" where
  "raise e = (Raise e, [Raised e])"

definition sys_exit :: "int \<Rightarrow> 'a prog" where
  "sys_exit n = (Exit n, [])"

definition print :: "stream \<Rightarrow> pystr \<Rightarrow> unit prog" where
  "print s text = (Return (), [Print s text])"

text \<open>A library call: the call is made, and the environment's answer is returned or raised.\<close>

definition lib :: "call \<Rightarrow> exn + 'a \<Rightarrow> 'a prog" where
  "lib c answer = (case answer of Inr x \<Rightarrow> (Return x, [Call c]) | Inl e \<Rightarrow> (Raise e, [Call c, Raised e]))"

text \<open>A Python operation of the script itself that may raise (a subscript, an attribute).\<close>

definition python :: "exn + 'a \<Rightarrow> 'a prog" where
  "python answer = (case answer of Inr x \<Rightarrow> ret x | Inl e \<Rightarrow> raise e)"

text \<open>Sequencing: the second piece runs only when the first has returned.\<close>

definition then_do :: "'a prog \<Rightarrow> ('a \<Rightarrow> 'b prog) \<Rightarrow> 'b prog" where
  "then_do m f =
     (case m of
        (Return x, evs) \<Rightarrow> (case f x of (r, evs') \<Rightarrow> (r, evs @ evs'))
      | (Raise e, evs) \<Rightarrow> (Raise e, evs)
      | (Exit n, evs) \<Rightarrow> (Exit n, evs))"

text \<open>\<^verbatim>\<open>try: m except C as e: h\<close>, where \<open>catches\<close> tells the exceptions of class \<^verbatim>\<open>C\<close>.\<close>

definition try_except :: "'a prog \<Rightarrow> (exn \<Rightarrow> bool) \<Rightarrow> (exn \<Rightarrow> 'a prog) \<Rightarrow> 'a prog" where
  "try_except m catches h =
     (case m of
        (Raise e, evs) \<Rightarrow>
          if catches e then (case h e of (r, evs') \<Rightarrow> (r, evs @ evs')) else (Raise e, evs)
      | (r, evs) \<Rightarrow> (r, evs))"

text \<open>\<^verbatim>\<open>except Exception\<close> catches every exception of the model.\<close>

definition Exception :: "exn \<Rightarrow> bool" where
  "Exception e = True"

section \<open>Strings\<close>

text \<open>The code points that \<^verbatim>\<open>str.strip()\<close> removes (those with \<^verbatim>\<open>str.isspace\<close>).\<close>

definition isspace :: "nat \<Rightarrow> bool" where
  "isspace c = ((9 \<le> c \<and> c \<le> 13) \<or> (28 \<le> c \<and> c \<le> 32) \<or> c = 133 \<or> c = 160 \<or> c = 5760
                \<or> (8192 \<le> c \<and> c \<le> 8202) \<or> c = 8232 \<or> c = 8233 \<or> c = 8239 \<or> c = 8287
                \<or> c = 12288)"

definition strip :: "pystr \<Rightarrow> pystr" where
  "strip s = rev (dropWhile isspace (rev (dropWhile isspace s)))"

text \<open>\<^verbatim>\<open>sub in s\<close> on strings.\<close>

fun substring_in :: "pystr \<Rightarrow> pystr \<Rightarrow> bool" where
  "substring_in sub [] = (sub = [])"
| "substring_in sub (c # s) = (startswith (c # s) sub \<or> substring_in sub s)"

section \<open>The script\<close>

definition model_id :: pystr where
  "model_id = str ''John6666/llama-joycaption-beta-one-hf-llava-nf4''"

text \<open>Lines 45 to 51: the three imports; only an \<^verbatim>\<open>ImportError\<close> is caught.\<close>

definition import_dependencies :: "env \<Rightarrow> unit prog" where
  "import_dependencies env =
     try_except (lib Import_deps (import_deps env)) is_ImportError
       (\<lambda>e. then_do (print Stderr (str ''Error: Missing dependency: '' @ exn_text e))
               (\<lambda>_. sys_exit 1))"

text \<open>Lines 54 to 56: the device, with a warning on standard error without a GPU.\<close>

definition select_device :: "env \<Rightarrow> pystr prog" where
  "select_device env =
     then_do (lib Cuda_is_available (cuda_is_available env)) (\<lambda>available.
     let device = (if available then str ''cuda'' else str ''cpu'') in
     then_do (if device = str ''cpu''
              then print Stderr (str ''Warning: No GPU. Running on CPU (slow).'')
              else ret ()) (\<lambda>_.
     ret device))"

text \<open>Lines 58 to 62: \<^verbatim>\<open>Image.open(args.image).convert("RGB")\<close>.\<close>

definition load_image :: "env \<Rightarrow> args \<Rightarrow> image prog" where
  "load_image env args =
     try_except
       (then_do (lib (Image_open (image args)) (image_open env (image args))) (\<lambda>opened.
        lib (Image_convert opened (str ''RGB'')) (image_convert env opened (str ''RGB''))))
       Exception
       (\<lambda>e. then_do (print Stderr (str ''Error opening image: '' @ exn_text e))
               (\<lambda>_. sys_exit 1))"

text \<open>Lines 64 to 68.\<close>

definition load_processor :: "env \<Rightarrow> processor prog" where
  "load_processor env =
     try_except
       (lib (Processor_from_pretrained model_id) (processor_from_pretrained env model_id))
       Exception
       (\<lambda>e. then_do (print Stderr (str ''Error loading processor: '' @ exn_text e))
               (\<lambda>_. sys_exit 1))"

text \<open>Lines 70 to 77: the options object of the quantization library, built outside any
  \<^verbatim>\<open>try\<close>.\<close>

definition quantization_kwargs :: bnb_kwargs where
  "quantization_kwargs =
     \<lparr>load_in_4bit = True, bnb_4bit_compute_dtype = float16, bnb_4bit_quant_type = str ''nf4''\<rparr>"

definition make_bnb_config :: "env \<Rightarrow> args \<Rightarrow> pystr \<Rightarrow> quant_config option prog" where
  "make_bnb_config env args device =
     (if device = str ''cuda'' \<and> (low_vram args \<or> substring_in (str ''nf4'') model_id)
      then then_do (lib (BitsAndBytesConfig_call quantization_kwargs)
                        (BitsAndBytesConfig env quantization_kwargs))
             (\<lambda>c. ret (Some c))
      else ret None)"

text \<open>Lines 79 to 91: \<^verbatim>\<open>from_pretrained\<close> with the quantization options or in bfloat16, then
  \<^verbatim>\<open>model.eval()\<close>.\<close>

definition load_kwargs_for :: "quant_config option \<Rightarrow> load_kwargs" where
  "load_kwargs_for bnb_config =
     (case bnb_config of
        Some c \<Rightarrow> \<lparr>quantization_config = Some c, torch_dtype = None, device_map = str ''auto''\<rparr>
      | None \<Rightarrow> \<lparr>quantization_config = None, torch_dtype = Some bfloat16,
                 device_map = str ''auto''\<rparr>)"

definition load_model :: "env \<Rightarrow> quant_config option \<Rightarrow> model prog" where
  "load_model env bnb_config =
     try_except
       (then_do (lib (Model_from_pretrained model_id (load_kwargs_for bnb_config))
                     (model_from_pretrained env model_id (load_kwargs_for bnb_config))) (\<lambda>m.
        then_do (lib (Model_eval m) (model_eval env m)) (\<lambda>_.
        ret m)))
       Exception
       (\<lambda>e. then_do (print Stderr (str ''Error loading model: '' @ exn_text e))
               (\<lambda>_. sys_exit 1))"

text \<open>Lines 93 to 98: the conversation, the chat template, and the assertion that the
  template gave a string.\<close>

definition convo :: "pystr \<Rightarrow> message list" where
  "convo prompt =
     [[(str ''role'', str ''system''), (str ''content'', str ''You are a helpful image captioner.'')],
      [(str ''role'', str ''user''), (str ''content'', prompt)]]"

definition build_prompt :: "env \<Rightarrow> processor \<Rightarrow> pystr \<Rightarrow> pystr prog" where
  "build_prompt env proc prompt =
     then_do (lib (Apply_chat_template proc (convo prompt) False True)
                  (apply_chat_template env proc (convo prompt) False True)) (\<lambda>r.
     case r of
       Template_str convo_string \<Rightarrow> ret convo_string
     | Template_other x \<Rightarrow> raise (Exn AssertionError []))"

text \<open>Line 101: the dictionary comprehension moves every value that has the method \<^verbatim>\<open>to\<close>
  to the device of the model, item by item.\<close>

fun move_inputs :: "env \<Rightarrow> pystr \<Rightarrow> (pystr \<times> batch_value) list \<Rightarrow> inputs \<Rightarrow> inputs prog" where
  "move_inputs env device [] acc = ret acc"
| "move_inputs env device ((k, Tens t) # items) acc =
     then_do (lib (Tensor_to t (To_device device)) (tensor_to env t (To_device device))) (\<lambda>t'.
     move_inputs env device items (dict_set acc k (Tens t')))"
| "move_inputs env device ((k, Plain x) # items) acc =
     move_inputs env device items (dict_set acc k (Plain x))"

text \<open>Lines 100 to 103: the processor call, the move, and the cast of \<^verbatim>\<open>pixel_values\<close>.\<close>

definition prepare_inputs :: "env \<Rightarrow> processor \<Rightarrow> model \<Rightarrow> pystr \<Rightarrow> image \<Rightarrow> inputs prog" where
  "prepare_inputs env proc m convo_string img =
     then_do (lib (Processor_call proc [convo_string] [img] (str ''pt''))
                  (processor_call env proc [convo_string] [img] (str ''pt''))) (\<lambda>batch.
     then_do (move_inputs env (model_device env m) batch []) (\<lambda>inputs.
     if dict_contains inputs (str ''pixel_values'') then
       then_do (python (dict_index inputs (str ''pixel_values''))) (\<lambda>v.
       case v of
         Tens t \<Rightarrow>
           then_do (lib (Tensor_to t (To_dtype float16)) (tensor_to env t (To_dtype float16)))
             (\<lambda>t'. ret (dict_set inputs (str ''pixel_values'') (Tens t')))
       | Plain x \<Rightarrow> raise (Exn AttributeError (str ''to'')))
     else ret inputs))"

text \<open>Lines 105 to 112: generation (under \<^verbatim>\<open>torch.no_grad()\<close>), and the first sequence of the
  batch.  A key of \<^verbatim>\<open>inputs\<close> that is also written out as a keyword is a \<^verbatim>\<open>TypeError\<close> of
  the call.\<close>

definition generation_kwargs :: generate_kwargs where
  "generation_kwargs =
     \<lparr>max_new_tokens = 512, do_sample = True, temperature = str ''0.6'', top_p = str ''0.9''\<rparr>"

definition generation_kwarg_names :: "pystr list" where
  "generation_kwarg_names =
     [str ''max_new_tokens'', str ''do_sample'', str ''temperature'', str ''top_p'']"

definition run_generation :: "env \<Rightarrow> model \<Rightarrow> inputs \<Rightarrow> nat list prog" where
  "run_generation env m inputs =
     (case filter (\<lambda>k. k \<in> set (dict_keys inputs)) generation_kwarg_names of
        k # ks \<Rightarrow> raise (Exn TypeError k)
      | [] \<Rightarrow>
        then_do (lib (Generate m inputs generation_kwargs) (generate env m inputs generation_kwargs))
          (\<lambda>sequences.
        case sequences of
          [] \<Rightarrow> raise (Exn IndexError [])
        | first # others \<Rightarrow> ret first))"

text \<open>Lines 114 to 118: the slice \<^verbatim>\<open>generate_ids[inputs["input_ids"].shape[1]:]\<close>, the decoding
  and the strip.\<close>

definition input_length :: "inputs \<Rightarrow> nat prog" where
  "input_length inputs =
     then_do (python (dict_index inputs (str ''input_ids''))) (\<lambda>v.
     case v of
       Plain x \<Rightarrow> raise (Exn AttributeError (str ''shape''))
     | Tens t \<Rightarrow>
         if 1 < length (shape t) then ret (shape t ! 1) else raise (Exn IndexError []))"

definition decode_output :: "env \<Rightarrow> processor \<Rightarrow> inputs \<Rightarrow> nat list \<Rightarrow> pystr prog" where
  "decode_output env proc inputs generate_ids =
     then_do (input_length inputs) (\<lambda>n.
     let generate_ids = drop n generate_ids in
     then_do (lib (Decode proc generate_ids True False) (decode env proc generate_ids True False))
       (\<lambda>caption.
     ret (strip caption)))"

text \<open>Line 43: \<^verbatim>\<open>prompt = MODE_PROMPTS.get(args.mode, DEFAULT_PROMPT)\<close>, outside any
  \<^verbatim>\<open>try\<close>.\<close>

definition select_prompt :: "args \<Rightarrow> pystr prog" where
  "select_prompt args = python (dict_get_value MODE_PROMPTS (mode args) DEFAULT_PROMPT)"

text \<open>The body of \<^verbatim>\<open>main\<close> after the arguments are parsed (lines 43 to 119).\<close>

definition main_body :: "env \<Rightarrow> args \<Rightarrow> unit prog" where
  "main_body env args =
     (then_do (select_prompt args) (\<lambda>prompt.
      then_do (import_dependencies env) (\<lambda>_.
      then_do (select_device env) (\<lambda>device.
      then_do (load_image env args) (\<lambda>img.
      then_do (load_processor env) (\<lambda>proc.
      then_do (make_bnb_config env args device) (\<lambda>bnb_config.
      then_do (load_model env bnb_config) (\<lambda>m.
      then_do (build_prompt env proc prompt) (\<lambda>convo_string.
      then_do (prepare_inputs env proc m convo_string img) (\<lambda>inputs.
      then_do (run_generation env m inputs) (\<lambda>generate_ids.
      then_do (decode_output env proc inputs generate_ids) (\<lambda>caption.
      print Stdout caption))))))))))))"

text \<open>A run of the script on a command line: what it did and its exit status.  An uncaught
  exception ends the run with its traceback on standard error and status 1.\<close>

record outcome =
  events :: "event list"
  status :: int

definition main :: "env \<Rightarrow> pystr list \<Rightarrow> outcome" where
  "main env argv =
     (case parse_args (interp env) argv of
        Inl Help_exit \<Rightarrow> \<lparr>events = [Print_help], status = 0\<rparr>
      | Inl (Error_exit e) \<Rightarrow> \<lparr>events = [Print_usage_error e], status = 2\<rparr>
      | Inr args \<Rightarrow>
        (case main_body env args of
           (Return u, evs) \<Rightarrow> \<lparr>events = evs, status = 0\<rparr>
         | (Raise e, evs) \<Rightarrow> \<lparr>events = evs @ [Traceback e], status = 1\<rparr>
         | (Exit n, evs) \<Rightarrow> \<lparr>events = evs, status = n\<rparr>))"

text \<open>The texts on the two streams, and the library calls of a run.\<close>

fun stream_of :: "event \<Rightarrow> stream option" where
  "stream_of (Print s text) = Some s"
| "stream_of (Traceback e) = Some Stderr"
| "stream_of Print_help = Some Stdout"
| "stream_of (Print_usage_error e) = Some Stderr"
| "stream_of (Call c) = None"
| "stream_of (Raised e) = None"

definition written :: "stream \<Rightarrow> event list \<Rightarrow> event list" where
  "written s evs = filter (\<lambda>ev. stream_of ev = Some s) evs"

fun call_of :: "event \<Rightarrow> call option" where
  "call_of (Call c) = Some c"
| "call_of ev = None"

definition calls :: "event list \<Rightarrow> call list" where
  "calls evs = List.map_filter call_of evs"

section \<open>Notions used by the properties\<close>

text \<open>The exception with which the environment answers a library call, if it does.\<close>

definition failure :: "exn + 'a \<Rightarrow> exn option" where
  "failure answer = (case answer of Inl e \<Rightarrow> Some e | Inr x \<Rightarrow> None)"

fun answer :: "env \<Rightarrow> call \<Rightarrow> exn option" where
  "answer env Import_deps = failure (import_deps env)"
| "answer env Cuda_is_available = failure (cuda_is_available env)"
| "answer env (Image_open path) = failure (image_open env path)"
| "answer env (Image_convert img m) = failure (image_convert env img m)"
| "answer env (Processor_from_pretrained name) = failure (processor_from_pretrained env name)"
| "answer env (BitsAndBytesConfig_call k) = failure (BitsAndBytesConfig env k)"
| "answer env (Model_from_pretrained name k) = failure (model_from_pretrained env name k)"
| "answer env (Model_eval m) = failure (model_eval env m)"
| "answer env (Apply_chat_template p c tok gen) = failure (apply_chat_template env p c tok gen)"
| "answer env (Processor_call p texts imgs rt) = failure (processor_call env p texts imgs rt)"
| "answer env (Tensor_to t target) = failure (tensor_to env t target)"
| "answer env (Generate m i k) = failure (generate env m i k)"
| "answer env (Decode p toks skip clean) = failure (decode env p toks skip clean)"

text \<open>The four messages of the handlers of the script, before the text of the exception.\<close>

definition error_labels :: "pystr list" where
  "error_labels =
     [str ''Error: Missing dependency: '', str ''Error opening image: '',
      str ''Error loading processor: '', str ''Error loading model: '']"

text \<open>The six steps of the pipeline, and the step a library call belongs to.  The options
  object is built for the model load; the processor call and the moves of its tensors prepare
  the inputs of the generation.  The imports and the GPU query belong to none of the six.\<close>

datatype step =
  Load_image | Load_processor | Load_model | Build_prompt | Run_generation | Decode_output

fun step_of :: "call \<Rightarrow> step option" where
  "step_of Import_deps = None"
| "step_of Cuda_is_available = None"
| "step_of (Image_open path) = Some Load_image"
| "step_of (Image_convert img m) = Some Load_image"
| "step_of (Processor_from_pretrained name) = Some Load_processor"
| "step_of (BitsAndBytesConfig_call k) = Some Load_model"
| "step_of (Model_from_pretrained name k) = Some Load_model"
| "step_of (Model_eval m) = Some Load_model"
| "step_of (Apply_chat_template p c tok gen) = Some Build_prompt"
| "step_of (Processor_call p texts imgs rt) = Some Run_generation"
| "step_of (Tensor_to t target) = Some Run_generation"
| "step_of (Generate m i k) = Some Run_generation"
| "step_of (Decode p toks skip clean) = Some Decode_output"

fun step_index :: "step option \<Rightarrow> nat" where
  "step_index None = 0"
| "step_index (Some Load_image) = 1"
| "step_index (Some Load_processor) = 2"
| "step_index (Some Load_model) = 3"
| "step_index (Some Build_prompt) = 4"
| "step_index (Some Run_generation) = 5"
| "step_index (Some Decode_output) = 6"

text \<open>A successful run: the arguments are accepted and the script runs to its end.\<close>

definition successful :: "env \<Rightarrow> pystr list \<Rightarrow> bool" where
  "successful env argv =
     (case parse_args (interp env) argv of
        Inl x \<Rightarrow> False
      | Inr args \<Rightarrow> status (main env argv) = 0)"

text \<open>A string that argparse takes as an argument whatever the options are: it is empty or
  does not start with the prefix character.\<close>

definition plain :: "pystr \<Rightarrow> bool" where
  "plain s = (s = [] \<or> hd s \<noteq> 45)"

text \<open>A string that can stand for the help option: only such a string gets the help action.\<close>

definition help_like :: "pystr \<Rightarrow> bool" where
  "help_like s = (startswith s (str ''-h'') \<or> startswith s (str ''--h''))"

text \<open>How a piece of the program reports an exception: it ends with the exception raised
  and not caught, or it leaves through \<^verbatim>\<open>sys.exit(1)\<close> right after printing one of the four
  messages, with the text of the exception, to standard error.\<close>

definition reported :: "exn \<Rightarrow> 'a prog \<Rightarrow> bool" where
  "reported e p =
     (\<exists>pre. (fst p = Raise e \<and> snd p = pre @ [Raised e]) \<or>
            (fst p = Exit 1 \<and>
             (\<exists>label \<in> set error_labels.
                snd p = pre @ [Raised e, Print Stderr (label @ exn_text e)])))"

text \<open>Every exception raised in a piece of the program is reported, and the piece returns
  unless an exception was raised.\<close>

definition reports :: "'a prog \<Rightarrow> bool" where
  "reports p =
     ((\<forall>e. Raised e \<in> set (snd p) \<longrightarrow> reported e p) \<and>
      ((\<forall>x. fst p \<noteq> Return x) \<longrightarrow> (\<exists>e. Raised e \<in> set (snd p))))"

text \<open>Every library call that the environment answers with an exception raises it.\<close>

definition answers_raised :: "env \<Rightarrow> 'a prog \<Rightarrow> bool" where
  "answers_raised env p =
     (\<forall>c e. Call c \<in> set (snd p) \<longrightarrow> answer env c = Some e \<longrightarrow> Raised e \<in> set (snd p))"

text \<open>Nothing is written to standard output.\<close>

definition quiet :: "'a prog \<Rightarrow> bool" where
  "quiet p = (written Stdout (snd p) = [])"

text \<open>The library calls go through the steps in order, between two steps.\<close>

definition in_steps :: "nat \<Rightarrow> nat \<Rightarrow> 'a prog \<Rightarrow> bool" where
  "in_steps lo hi p =
     (sorted (map (\<lambda>c. step_index (step_of c)) (calls (snd p))) \<and>
      (\<forall>c \<in> set (calls (snd p)). lo \<le> step_index (step_of c) \<and> step_index (step_of c) \<le> hi))"

text \<open>A string of the command line with the pattern that the parser gives it, and an entry
  of the command line that is taken as the help option.\<close>

fun classified :: "(pystr \<Rightarrow> bool) \<Rightarrow> pystr \<times> pattern \<Rightarrow> bool" where
  "classified neg (s, Opt t) = (parse_optional neg s = Inr (Some t))"
| "classified neg (s, Arg) = True"
| "classified neg (s, Dashes) = True"

fun help_option :: "pystr \<times> pattern \<Rightarrow> bool" where
  "help_option (s, Opt (Some a, os, sep, e)) = (a = Help_action)"
| "help_option (s, Opt (None, os, sep, e)) = False"
| "help_option (s, Arg) = False"
| "help_option (s, Dashes) = False"

section \<open>An environment for the examples\<close>

text \<open>The regular expression of argparse for negative numbers, on ASCII digits.\<close>

definition digit :: "nat \<Rightarrow> bool" where
  "digit c = (48 \<le> c \<and> c \<le> 57)"

definition ascii_negative_number :: "pystr \<Rightarrow> bool" where
  "ascii_negative_number s =
     (case s of
        [] \<Rightarrow> False
      | c # r \<Rightarrow> c = 45 \<and>
          ((r \<noteq> [] \<and> list_all digit r) \<or>
           (case dropWhile digit r of
              [] \<Rightarrow> False
            | d # e \<Rightarrow> d = 46 \<and> e \<noteq> [] \<and> list_all digit e)))"

text \<open>Every library call succeeds, on an interpreter with the later argparse; a GPU is present; the processor gives three tensors, the
  prompt has three tokens, the model generates three more.\<close>

definition sample_inputs :: inputs where
  "sample_inputs =
     [(str ''input_ids'', Tens (Tensor [1, 3] 0)),
      (str ''attention_mask'', Tens (Tensor [1, 3] 1)),
      (str ''pixel_values'', Tens (Tensor [1, 3, 384, 384] 2))]"

definition sample_env :: env where
  "sample_env =
     \<lparr>interp = \<lparr>negative_number = ascii_negative_number, strips_option_values = False,
                cluster_is_strict = False\<rparr>,
      import_deps = Inr (),
      cuda_is_available = Inr True,
      image_open = (\<lambda>path. Inr (Image_object 0)),
      image_convert = (\<lambda>img m. Inr (Image_object 1)),
      processor_from_pretrained = (\<lambda>name. Inr (Processor_object 0)),
      BitsAndBytesConfig = (\<lambda>k. Inr (Quant_config_object 0)),
      model_from_pretrained = (\<lambda>name k. Inr (Model_object 0)),
      model_eval = (\<lambda>m. Inr ()),
      apply_chat_template = (\<lambda>p c tok gen. Inr (Template_str (str ''<chat>''))),
      processor_call = (\<lambda>p texts imgs rt. Inr sample_inputs),
      model_device = (\<lambda>m. str ''cuda:0''),
      tensor_to = (\<lambda>t target. Inr t),
      generate = (\<lambda>m i k. Inr [[11, 12, 13, 21, 22, 23]]),
      decode = (\<lambda>p toks skip clean. Inr (str '' a cat on a mat ''))\<rparr>"

definition sample_argv :: "pystr list" where
  "sample_argv = [str ''--image'', str ''cat.png'', str ''--mode'', str ''booru'']"

text \<open>The same without a GPU; with an image file that cannot be opened; with a generation that
  fails.\<close>

definition cpu_env :: env where
  "cpu_env = sample_env\<lparr>cuda_is_available := Inr False, model_device := (\<lambda>m. str ''cpu'')\<rparr>"

definition broken_image_env :: env where
  "broken_image_env =
     sample_env\<lparr>image_open := (\<lambda>path. Inl (Exn OtherError (str ''cannot identify image file'')))\<rparr>"

text \<open>The same on an interpreter with the argparse of CPython 3.11.2.\<close>

definition older_env :: env where
  "older_env =
     sample_env\<lparr>interp := \<lparr>negative_number = ascii_negative_number, strips_option_values = True,
                           cluster_is_strict = True\<rparr>\<rparr>"

definition out_of_memory_env :: env where
  "out_of_memory_env =
     sample_env\<lparr>generate := (\<lambda>m i k. Inl (Exn OtherError (str ''CUDA out of memory'')))\<rparr>"

section \<open>Strings and the mode table\<close>

lemma str_inj [simp]: "str a = str b \<longleftrightarrow> a = b"
  unfolding str_def by (simp add: inj_map_eq_map inj_on_def)

lemma str_simps: "str [] = []" "str (c # cs) = of_char c # str cs"
  by (simp_all add: str_def)

lemma startswith_Nil [simp]: "startswith [] p \<longleftrightarrow> p = []"
  by (auto simp: startswith_def)

lemma startswith_empty [simp]: "startswith s []"
  by (simp add: startswith_def)

lemma startswith_Cons [simp]:
  "startswith (x # xs) p \<longleftrightarrow> p = [] \<or> (\<exists>p'. p = x # p' \<and> startswith xs p')"
  by (cases p) (auto simp: startswith_def)

lemma dict_keys_MODE_PROMPTS:
  "dict_keys MODE_PROMPTS = [str ''descriptive'', str ''straightforward'', str ''booru'', str ''training'']"
  by (simp add: dict_keys_def MODE_PROMPTS_def)

lemma mode_choices_eq:
  "mode_choices = [str ''descriptive'', str ''straightforward'', str ''booru'', str ''training'']"
  by (simp add: mode_choices_def dict_keys_MODE_PROMPTS)

lemma map_of_MODE_PROMPTS:
  "k \<in> set (dict_keys MODE_PROMPTS) \<Longrightarrow> \<exists>p. map_of MODE_PROMPTS k = Some p"
  by (cases "map_of MODE_PROMPTS k") (auto simp: dict_keys_def map_of_eq_None_iff)

lemma DEFAULT_PROMPT_index:
  "dict_index MODE_PROMPTS (str ''descriptive'') = Inr DEFAULT_PROMPT"
  by (simp add: DEFAULT_PROMPT_def dict_index_def MODE_PROMPTS_def)

section \<open>The parser\<close>

lemma plain_choice: "m \<in> set mode_choices \<Longrightarrow> plain m"
  by (auto simp: mode_choices_eq plain_def str_simps)

lemma parse_optional_plain: "plain s \<Longrightarrow> parse_optional neg s = Inr None"
  by (auto simp: parse_optional_def plain_def)

lemma parse_optional_exact:
  "parse_optional neg (str ''--image'') = Inr (Some (Some Image_action, str ''--image'', None, None))"
  "parse_optional neg (str ''--mode'') = Inr (Some (Some Mode_action, str ''--mode'', None, None))"
  "parse_optional neg (str ''--low-vram'') = Inr (Some (Some Low_vram_action, str ''--low-vram'', None, None))"
  "parse_optional neg (str ''--help'') = Inr (Some (Some Help_action, str ''--help'', None, None))"
  "parse_optional neg (str ''-h'') = Inr (Some (Some Help_action, str ''-h'', None, None))"
  by (simp_all add: parse_optional_def option_string_actions_def str_simps)

lemma parse_optional_mode_eq:
  "parse_optional neg (str ''--mode='' @ v) =
     Inr (Some (Some Mode_action, str ''--mode'', Some [61], Some v))"
  by (simp add: parse_optional_def option_string_actions_def partition_eq_def str_simps)

text \<open>An option tuple that \<open>parse_optional\<close> gives has an option string of the table, and
  only a string that looks like it gets the help action or the mode action.\<close>

lemma get_option_tuples_single:
  assumes "get_option_tuples s = Inr [(Some a, os, sep, e)]" and "2 \<le> length s" and "hd s = 45"
  shows "map_of option_string_actions os = Some a
         \<and> (a = Help_action \<longrightarrow> help_like s)
         \<and> (a = Mode_action \<longrightarrow> startswith s (str ''--m''))"
proof -
  from assms(2) obtain c d r where s: "s = c # d # r"
    by (cases s; cases "tl s") auto
  with assms(3) have c: "c = 45" by simp
  show ?thesis
  proof (cases "d = 45")
    case False
    with assms(1) s c show ?thesis
      by (auto simp: get_option_tuples_def option_string_actions_def help_like_def str_simps
               split: if_splits)
  next
    case True
    define p where "p = takeWhile (\<lambda>c. c \<noteq> 61) r"
    have tw: "takeWhile (\<lambda>c. c \<noteq> 61) s = 45 # 45 # p"
      by (simp add: s c True p_def)
    have rp: "p = [] \<or> (\<exists>x p'. p = x # p' \<and> (\<exists>r'. r = x # r'))"
      by (cases r) (auto simp: p_def)
    from assms(1) s c True tw rp show ?thesis
      by (auto simp: get_option_tuples_def option_string_actions_def help_like_def
               partition_eq_def str_simps
               split: if_splits)
  qed
qed


lemma startswith_Cons2:
  "startswith s (x # p) \<longleftrightarrow> (\<exists>r. s = x # r \<and> startswith r p)"
  by (cases s) (auto simp: startswith_def)

lemma takeWhile_startswith: "takeWhile P s = p \<Longrightarrow> startswith s p"
  unfolding startswith_def by (metis takeWhile_eq_take)

lemma parse_optional_tuple:
  assumes "parse_optional neg s = Inr (Some (Some a, os, sep, e))"
  shows "map_of option_string_actions os = Some a
         \<and> (a = Help_action \<longrightarrow> help_like s)
         \<and> (a = Mode_action \<longrightarrow> startswith s (str ''--m''))"
proof -
  from assms have ne: "s \<noteq> []" and hd: "hd s = 45"
    by (auto simp: parse_optional_def split: if_splits)
  show ?thesis
  proof (cases "map_of option_string_actions s")
    case (Some a')
    with assms ne hd have "a' = a" "os = s"
      by (auto simp: parse_optional_def)
    with Some show ?thesis
      by (auto simp: option_string_actions_def help_like_def str_simps split: if_splits)
  next
    case None
    with assms ne hd have len: "2 \<le> length s"
      by (cases s; cases "tl s") (auto simp: parse_optional_def split: if_splits)
    define p where "p = takeWhile (\<lambda>c. c \<noteq> 61) s"
    show ?thesis
    proof (cases "61 \<in> set s \<and> map_of option_string_actions p \<noteq> None")
      case True
      then obtain a' where a': "map_of option_string_actions p = Some a'" by auto
      with True assms ne hd None len have "a' = a" "os = p"
        by (auto simp: parse_optional_def partition_eq_def p_def)
      moreover have "startswith s p" using p_def by (simp add: takeWhile_startswith)
      ultimately show ?thesis using a'
        by (auto simp: option_string_actions_def help_like_def startswith_Cons2 str_simps
                 split: if_splits)
    next
      case False
      with assms ne hd None len
      have "get_option_tuples s = Inr [(Some a, os, sep, e)]"
        by (auto simp: parse_optional_def partition_eq_def p_def
                 split: if_splits sum.splits list.splits)
      from get_option_tuples_single[OF this len hd] show ?thesis .
    qed
  qed
qed


lemma classify_classified:
  "classify neg argv = Inr ps \<Longrightarrow>
     length ps = length argv \<and> (\<forall>sp \<in> set (zip argv ps). classified neg sp)"
proof (induction argv arbitrary: ps)
  case Nil
  then show ?case by simp
next
  case (Cons s ss)
  show ?case
  proof (cases "s = str ''--''")
    case True
    with Cons.prems have ps: "ps = Dashes # map (\<lambda>_. Arg) ss" by simp
    have "\<forall>sp \<in> set (zip ss (map (\<lambda>_. Arg) ss)). classified neg sp"
      by (auto simp: zip_map2)
    with ps show ?thesis by simp
  next
    case False
    with Cons.prems obtain q qs where ps: "ps = q # qs" and qs: "classify neg ss = Inr qs"
      and q: "classified neg (s, q)"
      by (auto split: sum.splits option.splits)
    from Cons.IH[OF qs] ps q show ?thesis by simp
  qed
qed

lemma classify_append:
  "str ''--'' \<notin> set pre \<Longrightarrow>
   classify neg (pre @ rest) =
     (case classify neg pre of
        Inl e \<Rightarrow> Inl e
      | Inr ps \<Rightarrow> (case classify neg rest of Inl e \<Rightarrow> Inl e | Inr qs \<Rightarrow> Inr (ps @ qs)))"
  by (induction pre) (auto split: sum.splits option.splits)

lemma consume_args:
  "\<forall>sp \<in> set r. snd sp = Arg \<Longrightarrow> consume ip ns extras r = Inr (ns, extras @ map fst r)"
  by (induction ip ns extras r rule: consume.induct) auto

text \<open>The value of one argument string: the interpreter that strips it turns \<^verbatim>\<open>--\<close> into the
  empty list, unchecked; every other string is checked and kept.\<close>

lemma get_values_one:
  "takes_argument a \<Longrightarrow>
   get_values ip a [v] =
     (if strips_option_values ip \<and> v = str ''--'' then Inr (Py_list [])
      else case check_value a v of [] \<Rightarrow> Inr (Py_str v) | e # es \<Rightarrow> Inl e)"
  by (auto simp: get_values_def split: list.splits)

lemma get_values_none: "get_values ip a [] = Inr (Py_list [])"
  by (simp add: get_values_def)

lemma take_action_none:
  "take_action ip Help_action [] ns = Inl Help_exit"
  "take_action ip Low_vram_action [] ns = Inr (ns\<lparr>ns_low_vram := True\<rparr>)"
  by (simp_all add: take_action_def get_values_none)

lemma take_action_Image:
  "take_action ip Image_action [v] ns =
     Inr (ns\<lparr>ns_image :=
            Some (if strips_option_values ip \<and> v = str ''--'' then Py_list [] else Py_str v)\<rparr>)"
  by (simp add: take_action_def get_values_one)

lemma take_action_Mode:
  "take_action ip Mode_action [v] ns =
     (if strips_option_values ip \<and> v = str ''--'' then Inr (ns\<lparr>ns_mode := Py_list []\<rparr>)
      else if v \<in> set mode_choices then Inr (ns\<lparr>ns_mode := Py_str v\<rparr>)
      else Inl (Error_exit (Invalid_choice v mode_choices)))"
  by (simp add: take_action_def get_values_one)

lemma take_action_help:
  "take_action ip a vs ns = Inl x \<Longrightarrow> x = Help_exit \<Longrightarrow> a = Help_action"
  by (cases a) (auto simp: take_action_def split: sum.splits)

lemma take_action_one_help:
  "takes_argument a \<Longrightarrow> take_action ip a [v] ns \<noteq> Inl Help_exit"
  by (cases a) (auto simp: take_action_Image take_action_Mode)

lemma consume_tail_aux:
  "(\<And>ns extras. case consume ip ns extras tail of
                    Inl x \<Rightarrow> x \<noteq> Help_exit | Inr (ns', ex) \<Rightarrow> ex \<noteq> []) \<Longrightarrow>
   tail \<noteq> [] \<Longrightarrow> snd (hd tail) \<noteq> Arg \<Longrightarrow>
   \<forall>sp \<in> set r1. classified neg sp \<Longrightarrow>
         (case consume ip ns extras (r1 @ tail) of
            Inl x \<Rightarrow> (x = Help_exit \<longrightarrow> (\<exists>sp \<in> set r1. help_option sp))
          | Inr (ns', ex) \<Rightarrow> ex \<noteq> [])"
proof (induction ip ns extras r1 rule: consume.induct)
  case (1 ip ns extras)
  from 1(1)[of ns extras] show ?case by (auto split: sum.splits)
next
  case (2 ip ns extras s r)
  from 2(1)[OF 2(2) 2(3) 2(4)] 2(5) show ?case by (auto split: sum.splits)
next
  case (3 ip ns extras s r)
  from 3(1)[OF 3(2) 3(3) 3(4)] 3(5) show ?case by (auto split: sum.splits)
next
  case (4 ip ns extras s option_string sep explicit_arg r)
  from 4(1)[OF 4(2) 4(3) 4(4)] 4(5) show ?case by (auto split: sum.splits)
next
  case (5 ip ns extras s a option_string sep e r)
  from 5(5) have po: "parse_optional neg s = Inr (Some (Some a, option_string, sep, Some e))"
    and wf: "\<forall>sp \<in> set r. classified neg sp" by auto
  show ?case
  proof (cases "takes_argument a")
    case True
    show ?thesis
    proof (cases "take_action ip a [e] ns")
      case (Inl x)
      with True have "x \<noteq> Help_exit" using take_action_one_help[of a ip e ns] by auto
      with Inl True show ?thesis by simp
    next
      case (Inr ns1)
      from 5(1)[OF True Inr 5(2) 5(3) 5(4) wf] Inr True show ?thesis by (auto split: sum.splits)
    qed
  next
    case False
    from parse_optional_tuple[OF po] have "map_of option_string_actions option_string = Some a" by simp
    with False have "option_string ! 1 \<noteq> 45 \<longrightarrow> a = Help_action"
      by (cases a) (auto simp: option_string_actions_def str_simps split: if_splits)
    with False show ?thesis by auto
  qed
next
  case (6 ip ns extras s a option_string sep r)
  note tail = 6(3) and nonarg = 6(4) 6(5)
  from 6(6) have wf: "\<forall>sp \<in> set r. classified neg sp" by auto
  obtain th tt where tl: "tail = th # tt" using nonarg(1) by (cases tail) auto
  with nonarg(2) have th: "snd th \<noteq> Arg" by simp
  show ?case
  proof (cases "takes_argument a")
    case True
    show ?thesis
    proof (cases r)
      case Nil
      with True tl th show ?thesis
        by (cases th; cases "snd th") (auto split: sum.splits)
    next
      case (Cons vp r')
      obtain v p where vp: "vp = (v, p)" by (cases vp)
      show ?thesis
      proof (cases "p = Arg")
        case False
        with True Cons vp show ?thesis by (cases p) auto
      next
        case pa: True
        show ?thesis
        proof (cases "take_action ip a [v] ns")
          case (Inl x)
          with True have "x \<noteq> Help_exit" using take_action_one_help[of a ip v ns] by auto
          with Inl True Cons vp pa show ?thesis by simp
        next
          case (Inr ns1)
          from wf Cons have wf': "\<forall>sp \<in> set r'. classified neg sp" by simp
          from 6(1)[OF True Cons vp[symmetric] pa Inr tail nonarg wf'] Inr True Cons vp pa
          show ?thesis by (auto split: sum.splits)
        qed
      qed
    qed
  next
    case False
    show ?thesis
    proof (cases "take_action ip a [] ns")
      case (Inl x)
      with take_action_help[OF Inl] False show ?thesis by auto
    next
      case (Inr ns1)
      from 6(2)[OF False Inr tail nonarg wf] Inr False show ?thesis by (auto split: sum.splits)
    qed
  qed
qed

lemma consume_tail:
  assumes tail: "\<And>ns extras. case consume ip ns extras tail of
                    Inl x \<Rightarrow> x \<noteq> Help_exit | Inr (ns', ex) \<Rightarrow> ex \<noteq> []"
    and nonarg: "tail \<noteq> []" "snd (hd tail) \<noteq> Arg"
  shows "\<forall>sp \<in> set r1. classified neg sp \<Longrightarrow>
         (case consume ip ns extras (r1 @ tail) of
            Inl x \<Rightarrow> (x = Help_exit \<longrightarrow> (\<exists>sp \<in> set r1. help_option sp))
          | Inr (ns', ex) \<Rightarrow> ex \<noteq> [])"
  using consume_tail_aux[OF tail nonarg] by blast


lemma help_option_help_like:
  "help_option (s, p) \<Longrightarrow> classified neg (s, p) \<Longrightarrow> help_like s"
proof (cases p)
  case (Opt t)
  assume h: "help_option (s, p)" and c: "classified neg (s, p)"
  obtain a os sep e where t: "t = (a, os, sep, e)" by (cases t)
  with h Opt obtain "a = Some Help_action" by (cases a) auto
  with c Opt t parse_optional_tuple[of neg s Help_action os sep e] show ?thesis by simp
qed auto

lemma parse_args_rejects:
  assumes nd: "str ''--'' \<notin> set pre"
    and tail: "\<And>qs ns extras. classify (negative_number ip) rest = Inr qs \<Longrightarrow>
                 (case consume ip ns extras (zip rest qs) of
                    Inl x \<Rightarrow> x \<noteq> Help_exit | Inr (ns', ex) \<Rightarrow> ex \<noteq> [])"
    and nonarg: "\<And>qs. classify (negative_number ip) rest = Inr qs \<Longrightarrow>
                 zip rest qs \<noteq> [] \<and> snd (hd (zip rest qs)) \<noteq> Arg"
  shows "\<exists>x. parse_args ip (pre @ rest) = Inl x
             \<and> (x = Help_exit \<longrightarrow> (\<exists>s \<in> set pre. help_like s))"
proof (cases "classify (negative_number ip) pre")
  case (Inl e)
  with nd show ?thesis by (simp add: parse_args_def classify_append)
next
  case ps: (Inr ps)
  show ?thesis
  proof (cases "classify (negative_number ip) rest")
    case (Inl e)
    with nd ps show ?thesis by (simp add: parse_args_def classify_append)
  next
    case qs: (Inr qs)
    from classify_classified[OF ps] have len: "length ps = length pre"
      and wf: "\<forall>sp \<in> set (zip pre ps). classified (negative_number ip) sp" by auto
    from nd ps qs have cl: "classify (negative_number ip) (pre @ rest) = Inr (ps @ qs)"
      by (simp add: classify_append)
    from len have z: "zip (pre @ rest) (ps @ qs) = zip pre ps @ zip rest qs" by simp
    have t: "\<And>ns extras. case consume ip ns extras (zip rest qs) of
                 Inl x \<Rightarrow> x \<noteq> Help_exit | Inr (ns', ex) \<Rightarrow> ex \<noteq> []"
      using tail[OF qs] .
    from nonarg[OF qs] have n1: "zip rest qs \<noteq> []" and n2: "snd (hd (zip rest qs)) \<noteq> Arg"
      by auto
    have c: "case consume ip default_namespace [] (zip pre ps @ zip rest qs) of
            Inl x \<Rightarrow> (x = Help_exit \<longrightarrow> (\<exists>sp \<in> set (zip pre ps). help_option sp))
          | Inr (ns', ex) \<Rightarrow> ex \<noteq> []"
      by (rule consume_tail[where neg = "negative_number ip", OF t n1 n2 wf])
    show ?thesis
    proof (cases "consume ip default_namespace [] (zip pre ps @ zip rest qs)")
      case (Inl x)
      have "x = Help_exit \<longrightarrow> (\<exists>s \<in> set pre. help_like s)"
      proof
        assume "x = Help_exit"
        with c Inl obtain s p where sp: "(s, p) \<in> set (zip pre ps)" and h: "help_option (s, p)"
          by auto
        from sp wf have "classified (negative_number ip) (s, p)" by auto
        from help_option_help_like[OF h this] sp show "\<exists>s \<in> set pre. help_like s"
          by (auto dest: set_zip_leftD)
      qed
      with Inl cl z show ?thesis by (simp add: parse_args_def)
    next
      case (Inr nx)
      with c have "snd nx \<noteq> []" by (cases nx) auto
      with Inr cl z show ?thesis
        by (cases nx) (auto simp: parse_args_def split: option.splits)
    qed
  qed
qed

lemma mode_value_rejected:
  assumes bad: "v \<notin> set mode_choices"
    and argv: "argv = pre @ str ''--mode'' # v # post
             \<or> argv = pre @ (str ''--mode='' @ v) # post
               \<and> \<not> (strips_option_values ip \<and> v = str ''--'')"
  shows "\<exists>x. parse_args ip argv = Inl x \<and> (x = Help_exit \<longrightarrow> (\<exists>s \<in> set pre. help_like s))"
proof (cases "str ''--'' \<in> set pre")
  case False
  from argv show ?thesis
  proof
    assume a: "argv = pre @ str ''--mode'' # v # post"
    have "\<exists>x. parse_args ip (pre @ (str ''--mode'' # v # post)) = Inl x
             \<and> (x = Help_exit \<longrightarrow> (\<exists>s \<in> set pre. help_like s))"
    proof (rule parse_args_rejects[OF False])
      fix qs ns extras
      assume "classify (negative_number ip) (str ''--mode'' # v # post) = Inr qs"
      then obtain q qs' where qs: "qs = Opt (Some Mode_action, str ''--mode'', None, None) # q # qs'"
        and q: "q = Arg \<longrightarrow> v \<noteq> str ''--''"
        by (auto simp: parse_optional_exact split: sum.splits option.splits if_splits)
      with bad show "case consume ip ns extras (zip (str ''--mode'' # v # post) qs) of
                 Inl x \<Rightarrow> x \<noteq> Help_exit | Inr (ns', ex) \<Rightarrow> ex \<noteq> []"
        by (cases q) (auto simp: take_action_Mode)
    next
      fix qs
      assume "classify (negative_number ip) (str ''--mode'' # v # post) = Inr qs"
      then show "zip (str ''--mode'' # v # post) qs \<noteq> [] \<and>
             snd (hd (zip (str ''--mode'' # v # post) qs)) \<noteq> Arg"
        by (auto simp: parse_optional_exact split: sum.splits option.splits if_splits)
    qed
    with a show ?thesis by simp
  next
    assume "argv = pre @ (str ''--mode='' @ v) # post
               \<and> \<not> (strips_option_values ip \<and> v = str ''--'')"
    then have a: "argv = pre @ (str ''--mode='' @ v) # post"
      and kept: "\<not> (strips_option_values ip \<and> v = str ''--'')" by auto
    have ne: "str ''--mode='' @ v \<noteq> str ''--''" by (simp add: str_simps)
    have "\<exists>x. parse_args ip (pre @ ((str ''--mode='' @ v) # post)) = Inl x
             \<and> (x = Help_exit \<longrightarrow> (\<exists>s \<in> set pre. help_like s))"
    proof (rule parse_args_rejects[OF False])
      fix qs ns extras
      assume "classify (negative_number ip) ((str ''--mode='' @ v) # post) = Inr qs"
      with ne obtain qs' where
        qs: "qs = Opt (Some Mode_action, str ''--mode'', Some [61], Some v) # qs'"
        by (auto simp: parse_optional_mode_eq split: sum.splits)
      with bad kept show "case consume ip ns extras (zip ((str ''--mode='' @ v) # post) qs) of
                 Inl x \<Rightarrow> x \<noteq> Help_exit | Inr (ns', ex) \<Rightarrow> ex \<noteq> []"
        by (auto simp: take_action_Mode)
    next
      fix qs
      assume "classify (negative_number ip) ((str ''--mode='' @ v) # post) = Inr qs"
      with ne show "zip ((str ''--mode='' @ v) # post) qs \<noteq> [] \<and>
             snd (hd (zip ((str ''--mode='' @ v) # post) qs)) \<noteq> Arg"
        by (auto simp: parse_optional_mode_eq split: sum.splits)
    qed
    with a show ?thesis by simp
  qed
next
  case True
  then obtain p1 p2 where pre: "pre = p1 @ str ''--'' # p2" and nd: "str ''--'' \<notin> set p1"
    by (auto dest: split_list_first)
  obtain rest where rest: "argv = pre @ rest" using argv by auto
  have "\<exists>x. parse_args ip (p1 @ (str ''--'' # p2 @ rest)) = Inl x
           \<and> (x = Help_exit \<longrightarrow> (\<exists>s \<in> set p1. help_like s))"
  proof (rule parse_args_rejects[OF nd])
    fix qs ns extras
    assume "classify (negative_number ip) (str ''--'' # p2 @ rest) = Inr qs"
    then have qs: "qs = Dashes # map (\<lambda>_. Arg) (p2 @ rest)" by simp
    have "\<forall>sp \<in> set (zip (p2 @ rest) (map (\<lambda>_. Arg) (p2 @ rest))). snd sp = Arg"
      by (auto simp: zip_map2)
    from consume_args[OF this] qs
    show "case consume ip ns extras (zip (str ''--'' # p2 @ rest) qs) of
                 Inl x \<Rightarrow> x \<noteq> Help_exit | Inr (ns', ex) \<Rightarrow> ex \<noteq> []"
      by simp
  next
    fix qs
    assume "classify (negative_number ip) (str ''--'' # p2 @ rest) = Inr qs"
    then show "zip (str ''--'' # p2 @ rest) qs \<noteq> [] \<and>
             snd (hd (zip (str ''--'' # p2 @ rest) qs)) \<noteq> Arg"
      by auto
  qed
  with pre rest show ?thesis by auto
qed

lemma parse_args_accepts:
  "m \<in> set mode_choices \<Longrightarrow> plain path \<Longrightarrow>
   parse_args ip [str ''--image'', path, str ''--mode'', m] =
     Inr \<lparr>image = Py_str path, mode = Py_str m, low_vram = False\<rparr>"
proof -
  assume m: "m \<in> set mode_choices" and p: "plain path"
  from m have pm: "plain m" by (rule plain_choice)
  from p have n1: "path \<noteq> str ''--''" by (auto simp: plain_def str_simps)
  from pm have n2: "m \<noteq> str ''--''" by (auto simp: plain_def str_simps)
  have ps: "classify (negative_number ip) [str ''--image'', path, str ''--mode'', m] =
      Inr [Opt (Some Image_action, str ''--image'', None, None), Arg,
           Opt (Some Mode_action, str ''--mode'', None, None), Arg]"
    using n1 n2 by (simp add: parse_optional_exact parse_optional_plain[OF p]
        parse_optional_plain[OF pm])
  show ?thesis
    unfolding parse_args_def ps using m n1 n2
    by (simp add: default_namespace_def take_action_Image take_action_Mode)
qed

section \<open>Pieces of the program\<close>

lemma then_do_events:
  "snd (then_do m f) = snd m @ (case fst m of Return x \<Rightarrow> snd (f x) | Raise e \<Rightarrow> [] | Exit n \<Rightarrow> [])"
  by (auto simp: then_do_def split: prod.splits result.splits)

lemma then_do_result:
  "fst (then_do m f) = (case fst m of Return x \<Rightarrow> fst (f x) | Raise e \<Rightarrow> Raise e | Exit n \<Rightarrow> Exit n)"
  by (auto simp: then_do_def split: prod.splits result.splits)

lemma then_do_mem:
  "ev \<in> set (snd (then_do m f)) \<longleftrightarrow>
     ev \<in> set (snd m) \<or> (\<exists>x. fst m = Return x \<and> ev \<in> set (snd (f x)))"
  by (auto simp: then_do_events split: result.splits)

lemma then_do_Return:
  "fst (then_do m f) = Return y \<longleftrightarrow> (\<exists>x. fst m = Return x \<and> fst (f x) = Return y)"
  by (auto simp: then_do_result split: result.splits)

lemma then_do_Return_events:
  "fst m = Return x \<Longrightarrow> snd (then_do m f) = snd m @ snd (f x)"
  by (simp add: then_do_events)

lemma lib_mem:
  "ev \<in> set (snd (lib c ans)) \<longleftrightarrow> ev = Call c \<or> (\<exists>e. ans = Inl e \<and> ev = Raised e)"
  by (auto simp: lib_def split: sum.splits)

lemma lib_Return: "fst (lib c ans) = Return x \<longleftrightarrow> ans = Inr x"
  by (auto simp: lib_def split: sum.splits)

lemma lib_Return_events: "ans = Inr x \<Longrightarrow> snd (lib c ans) = [Call c]"
  by (simp add: lib_def)

lemma ret_simps: "fst (ret x) = Return x" "snd (ret x) = []"
  by (simp_all add: ret_def)

lemma raise_simps: "fst (raise e) = Raise e" "snd (raise e) = [Raised e]"
  by (simp_all add: raise_def)

lemma print_simps: "fst (print s t) = Return ()" "snd (print s t) = [Print s t]"
  by (simp_all add: print_def)

lemma python_mem: "ev \<in> set (snd (python ans)) \<longleftrightarrow> (\<exists>e. ans = Inl e \<and> ev = Raised e)"
  by (auto simp: python_def ret_def raise_def split: sum.splits)

lemma python_Return: "fst (python ans) = Return x \<longleftrightarrow> ans = Inr x"
  by (auto simp: python_def ret_def raise_def split: sum.splits)

text \<open>The handlers of the script all print one message and exit with status 1.\<close>

lemma handled_mem:
  "ev \<in> set (snd (try_except m catches
       (\<lambda>e. then_do (print Stderr (label @ exn_text e)) (\<lambda>_. sys_exit 1)))) \<longleftrightarrow>
   ev \<in> set (snd m) \<or>
   (\<exists>e. fst m = Raise e \<and> catches e \<and> ev = Print Stderr (label @ exn_text e))"
  by (cases m; cases "fst m")
     (auto simp: try_except_def then_do_def print_def sys_exit_def)

lemma handled_Return:
  "fst (try_except m catches
       (\<lambda>e. then_do (print Stderr (label @ exn_text e)) (\<lambda>_. sys_exit 1))) = Return x \<longleftrightarrow>
   fst m = Return x"
  by (cases m; cases "fst m")
     (auto simp: try_except_def then_do_def print_def sys_exit_def)

lemma handled_Return_events:
  "fst m = Return x \<Longrightarrow>
   snd (try_except m catches
       (\<lambda>e. then_do (print Stderr (label @ exn_text e)) (\<lambda>_. sys_exit 1))) = snd m"
  by (cases m) (auto simp: try_except_def)

lemma template_case_mem:
  "ev \<in> set (snd (case r of Template_str s \<Rightarrow> f s | Template_other x \<Rightarrow> g x)) \<longleftrightarrow>
     (\<exists>s. r = Template_str s \<and> ev \<in> set (snd (f s))) \<or>
     (\<exists>x. r = Template_other x \<and> ev \<in> set (snd (g x)))"
  by (cases r) auto

lemma template_case_Return:
  "fst (case r of Template_str s \<Rightarrow> f s | Template_other x \<Rightarrow> g x) = Return y \<longleftrightarrow>
     (\<exists>s. r = Template_str s \<and> fst (f s) = Return y) \<or>
     (\<exists>x. r = Template_other x \<and> fst (g x) = Return y)"
  by (cases r) auto

lemma value_case_mem:
  "ev \<in> set (snd (case v of Tens t \<Rightarrow> f t | Plain x \<Rightarrow> g x)) \<longleftrightarrow>
     (\<exists>t. v = Tens t \<and> ev \<in> set (snd (f t))) \<or>
     (\<exists>x. v = Plain x \<and> ev \<in> set (snd (g x)))"
  by (cases v) auto

lemma value_case_Return:
  "fst (case v of Tens t \<Rightarrow> f t | Plain x \<Rightarrow> g x) = Return y \<longleftrightarrow>
     (\<exists>t. v = Tens t \<and> fst (f t) = Return y) \<or>
     (\<exists>x. v = Plain x \<and> fst (g x) = Return y)"
  by (cases v) auto

lemma list_case_mem:
  "ev \<in> set (snd (case xs of [] \<Rightarrow> a | x # r \<Rightarrow> g x r)) \<longleftrightarrow>
     (xs = [] \<and> ev \<in> set (snd a)) \<or> (\<exists>x r. xs = x # r \<and> ev \<in> set (snd (g x r)))"
  by (cases xs) auto

lemma list_case_Return:
  "fst (case xs of [] \<Rightarrow> a | x # r \<Rightarrow> g x r) = Return y \<longleftrightarrow>
     (xs = [] \<and> fst a = Return y) \<or> (\<exists>x r. xs = x # r \<and> fst (g x r) = Return y)"
  by (cases xs) auto

lemmas prog_mem = template_case_mem value_case_mem list_case_mem then_do_mem lib_mem python_mem handled_mem ret_simps raise_simps print_simps
lemmas prog_Return = template_case_Return value_case_Return list_case_Return then_do_Return lib_Return python_Return handled_Return ret_simps raise_simps
  print_simps

section \<open>The library calls of each step, and what a step returns\<close>

lemma select_prompt_call [simp]: "Call c \<notin> set (snd (select_prompt args))"
  by (auto simp: select_prompt_def python_mem)

lemma select_prompt_stdout [simp]: "Print s t \<notin> set (snd (select_prompt args))"
  by (auto simp: select_prompt_def python_mem)

lemma select_prompt_Return:
  "fst (select_prompt args) = Return p \<longleftrightarrow>
     (\<exists>m. mode args = Py_str m \<and> p = dict_get MODE_PROMPTS m DEFAULT_PROMPT)"
  by (auto simp: select_prompt_def python_Return dict_get_value_def split: pyval.splits)

lemma select_prompt_Return_events:
  "fst (select_prompt args) = Return p \<Longrightarrow> snd (select_prompt args) = []"
  by (auto simp: select_prompt_def python_def ret_def raise_def split: sum.splits)

lemma select_prompt_list:
  "mode args = Py_list l \<Longrightarrow>
   select_prompt args = raise (Exn TypeError (str ''unhashable type: '' @ [39] @ str ''list'' @ [39]))"
  by (simp add: select_prompt_def python_def dict_get_value_def)

lemma import_dependencies_call:
  "Call c \<in> set (snd (import_dependencies env)) \<Longrightarrow> c = Import_deps"
  by (auto simp: import_dependencies_def prog_mem)

lemma select_device_call:
  "Call c \<in> set (snd (select_device env)) \<Longrightarrow> c = Cuda_is_available"
  by (auto simp: select_device_def prog_mem Let_def split: if_splits)

lemma select_device_Return:
  "fst (select_device env) = Return d \<Longrightarrow>
     (cuda_is_available env = Inr True \<and> d = str ''cuda'') \<or>
     (cuda_is_available env = Inr False \<and> d = str ''cpu'')"
  by (auto simp: select_device_def prog_Return Let_def split: if_splits)

lemma load_image_call:
  "Call c \<in> set (snd (load_image env args)) \<Longrightarrow>
     c = Image_open (image args) \<or>
     (\<exists>opened. image_open env (image args) = Inr opened \<and> c = Image_convert opened (str ''RGB''))"
  by (auto simp: load_image_def prog_mem prog_Return)

lemma load_image_Return:
  "fst (load_image env args) = Return img \<Longrightarrow>
     \<exists>opened. image_open env (image args) = Inr opened
       \<and> image_convert env opened (str ''RGB'') = Inr img
       \<and> snd (load_image env args) =
           [Call (Image_open (image args)), Call (Image_convert opened (str ''RGB''))]"
  by (auto simp: load_image_def prog_Return handled_Return_events then_do_Return_events
        lib_Return_events)

lemma load_processor_call:
  "Call c \<in> set (snd (load_processor env)) \<Longrightarrow> c = Processor_from_pretrained model_id"
  by (auto simp: load_processor_def prog_mem)

lemma load_processor_Return:
  "fst (load_processor env) = Return p \<Longrightarrow>
     processor_from_pretrained env model_id = Inr p
     \<and> snd (load_processor env) = [Call (Processor_from_pretrained model_id)]"
  by (auto simp: load_processor_def prog_Return handled_Return_events lib_Return_events)

lemma nf4_in_model_id: "substring_in (str ''nf4'') model_id"
  by (simp add: model_id_def str_simps)

lemma make_bnb_config_call:
  "Call c \<in> set (snd (make_bnb_config env args d)) \<Longrightarrow>
     d = str ''cuda'' \<and> c = BitsAndBytesConfig_call quantization_kwargs"
  by (auto simp: make_bnb_config_def prog_mem split: if_splits)

lemma make_bnb_config_Return:
  "fst (make_bnb_config env args d) = Return q \<Longrightarrow>
     (d = str ''cuda'' \<and> (\<exists>c. BitsAndBytesConfig env quantization_kwargs = Inr c \<and> q = Some c
        \<and> snd (make_bnb_config env args d) = [Call (BitsAndBytesConfig_call quantization_kwargs)]))
     \<or> (d \<noteq> str ''cuda'' \<and> q = None \<and> snd (make_bnb_config env args d) = [])"
  by (auto simp: make_bnb_config_def prog_Return nf4_in_model_id then_do_Return_events
        lib_Return_events split: if_splits)

lemma load_model_call:
  "Call c \<in> set (snd (load_model env q)) \<Longrightarrow>
     c = Model_from_pretrained model_id (load_kwargs_for q) \<or>
     (\<exists>m. model_from_pretrained env model_id (load_kwargs_for q) = Inr m \<and> c = Model_eval m)"
  by (auto simp: load_model_def prog_mem prog_Return)

lemma load_model_Return:
  "fst (load_model env q) = Return m \<Longrightarrow>
     model_from_pretrained env model_id (load_kwargs_for q) = Inr m \<and> model_eval env m = Inr ()
     \<and> snd (load_model env q) =
         [Call (Model_from_pretrained model_id (load_kwargs_for q)), Call (Model_eval m)]"
  by (auto simp: load_model_def prog_Return handled_Return_events then_do_Return_events
        lib_Return_events)

lemma build_prompt_call:
  "Call c \<in> set (snd (build_prompt env p prompt)) \<Longrightarrow>
     c = Apply_chat_template p (convo prompt) False True"
  by (auto simp: build_prompt_def prog_mem)

lemma build_prompt_Return:
  "fst (build_prompt env p prompt) = Return cs \<Longrightarrow>
     apply_chat_template env p (convo prompt) False True = Inr (Template_str cs)
     \<and> snd (build_prompt env p prompt) = [Call (Apply_chat_template p (convo prompt) False True)]"
  by (auto simp: build_prompt_def prog_Return then_do_Return_events lib_Return_events)

lemma move_inputs_call:
  "Call c \<in> set (snd (move_inputs env d items acc)) \<Longrightarrow> \<exists>t. c = Tensor_to t (To_device d)"
  by (induction env d items acc rule: move_inputs.induct) (auto simp: prog_mem)

lemma prepare_inputs_call:
  "Call c \<in> set (snd (prepare_inputs env p m cs img)) \<Longrightarrow>
     c = Processor_call p [cs] [img] (str ''pt'') \<or> (\<exists>t target. c = Tensor_to t target)"
  by (auto simp: prepare_inputs_def prog_mem split: if_splits dest: move_inputs_call)

lemma prepare_inputs_Return:
  "fst (prepare_inputs env p m cs img) = Return inputs \<Longrightarrow>
     Call (Processor_call p [cs] [img] (str ''pt'')) \<in> set (snd (prepare_inputs env p m cs img))"
  by (auto simp: prepare_inputs_def prog_mem)

lemma run_generation_call:
  "Call c \<in> set (snd (run_generation env m inputs)) \<Longrightarrow> c = Generate m inputs generation_kwargs"
  by (auto simp: run_generation_def prog_mem)

lemma run_generation_Return:
  "fst (run_generation env m inputs) = Return ids \<Longrightarrow>
     \<exists>others. generate env m inputs generation_kwargs = Inr (ids # others)
       \<and> snd (run_generation env m inputs) = [Call (Generate m inputs generation_kwargs)]"
  by (auto simp: run_generation_def prog_Return then_do_Return_events lib_Return_events)

lemma input_length_call: "Call c \<notin> set (snd (input_length inputs))"
  by (auto simp: input_length_def prog_mem)

lemma input_length_Return:
  "fst (input_length inputs) = Return n \<Longrightarrow>
     \<exists>t. map_of inputs (str ''input_ids'') = Some (Tens t) \<and> 1 < length (shape t)
       \<and> n = shape t ! 1 \<and> snd (input_length inputs) = []"
  by (auto simp: input_length_def prog_Return dict_index_def then_do_Return_events python_def
        split: option.splits if_splits)

lemma decode_output_call:
  "Call c \<in> set (snd (decode_output env p inputs ids)) \<Longrightarrow>
     \<exists>t. map_of inputs (str ''input_ids'') = Some (Tens t) \<and> 1 < length (shape t) \<and>
         c = Decode p (drop (shape t ! 1) ids) True False"
  by (auto simp: decode_output_def prog_mem Let_def input_length_call dest!: input_length_Return)

lemma decode_output_Return:
  assumes "fst (decode_output env p inputs ids) = Return caption"
  shows "\<exists>t raw. map_of inputs (str ''input_ids'') = Some (Tens t) \<and> 1 < length (shape t) \<and>
       decode env p (drop (shape t ! 1) ids) True False = Inr raw \<and> caption = strip raw \<and>
       snd (decode_output env p inputs ids) = [Call (Decode p (drop (shape t ! 1) ids) True False)]"
proof -
  from assms obtain n raw where n: "fst (input_length inputs) = Return n"
    and raw: "decode env p (drop n ids) True False = Inr raw" and c: "caption = strip raw"
    by (auto simp: decode_output_def prog_Return Let_def)
  from input_length_Return[OF n] obtain t where
    t: "map_of inputs (str ''input_ids'') = Some (Tens t)" "1 < length (shape t)" "n = shape t ! 1"
    and e: "snd (input_length inputs) = []" by auto
  from n raw e have "snd (decode_output env p inputs ids) = [Call (Decode p (drop n ids) True False)]"
    by (simp add: decode_output_def Let_def then_do_Return_events lib_Return_events lib_Return
          ret_simps)
  with t raw c show ?thesis by auto
qed

lemmas step_calls = import_dependencies_call select_device_call load_image_call load_processor_call
  make_bnb_config_call load_model_call build_prompt_call prepare_inputs_call run_generation_call
  decode_output_call

section \<open>Exceptions are reported\<close>

lemma reports_Return: "reports m \<Longrightarrow> fst m = Return x \<Longrightarrow> Raised e \<notin> set (snd m)"
  by (auto simp: reports_def reported_def)

lemma reports_then_do:
  assumes m: "reports m" and f: "\<And>x. reports (f x)"
  shows "reports (then_do m f)"
proof (cases "fst m")
  case (Return x)
  have 1: "reported e (then_do m f)" if "Raised e \<in> set (snd (then_do m f))" for e
  proof -
    from that Return have "Raised e \<in> set (snd m) \<or> Raised e \<in> set (snd (f x))"
      by (simp add: then_do_events)
    with reports_Return[OF m Return] have "reported e (f x)"
      using f by (auto simp: reports_def)
    then obtain pre where
      "(fst (f x) = Raise e \<and> snd (f x) = pre @ [Raised e]) \<or>
       (fst (f x) = Exit 1 \<and> (\<exists>label \<in> set error_labels.
            snd (f x) = pre @ [Raised e, Print Stderr (label @ exn_text e)]))"
      by (auto simp: reported_def)
    then have
      "(fst (then_do m f) = Raise e \<and> snd (then_do m f) = (snd m @ pre) @ [Raised e]) \<or>
       (fst (then_do m f) = Exit 1 \<and> (\<exists>label \<in> set error_labels.
            snd (then_do m f) = (snd m @ pre) @ [Raised e, Print Stderr (label @ exn_text e)]))"
      using Return by (auto simp: then_do_events then_do_result)
    then show ?thesis unfolding reported_def by blast
  qed
  have 2: "\<exists>e. Raised e \<in> set (snd (then_do m f))" if "\<forall>y. fst (then_do m f) \<noteq> Return y"
  proof -
    from that Return have "\<forall>y. fst (f x) \<noteq> Return y" by (simp add: then_do_result)
    with f[of x] obtain e where "Raised e \<in> set (snd (f x))" by (auto simp: reports_def)
    with Return show ?thesis by (auto simp: then_do_events)
  qed
  from 1 2 show ?thesis unfolding reports_def by blast
next
  case (Raise e)
  with m show ?thesis
    by (auto simp: reports_def reported_def then_do_events then_do_result)
next
  case (Exit n)
  with m show ?thesis
    by (auto simp: reports_def reported_def then_do_events then_do_result)
qed

lemma reports_lib: "reports (lib c ans)"
  by (cases ans) (auto simp: reports_def reported_def lib_def)

lemma reports_ret: "reports (ret x)"
  by (simp add: reports_def ret_def)

lemma reports_raise: "reports (raise e)"
  by (simp add: reports_def reported_def raise_def)

lemma reports_print: "reports (print s t)"
  by (simp add: reports_def print_def)

lemma reports_python: "reports (python ans)"
  by (cases ans) (simp_all add: python_def reports_ret reports_raise)

lemma reports_handled:
  assumes m: "reports m" and label: "label \<in> set error_labels"
  shows "reports (try_except m catches
           (\<lambda>e. then_do (print Stderr (label @ exn_text e)) (\<lambda>_. sys_exit 1)))"
proof (cases "\<exists>e. fst m = Raise e \<and> catches e")
  case False
  let ?p = "try_except m catches
      (\<lambda>e. then_do (print Stderr (label @ exn_text e)) (\<lambda>_. sys_exit 1))"
  from False have "?p = m"
    by (cases m; cases "fst m") (auto simp: try_except_def)
  with m show ?thesis by simp
next
  case True
  then obtain e where e: "fst m = Raise e" "catches e" by auto
  let ?p = "try_except m catches
      (\<lambda>e. then_do (print Stderr (label @ exn_text e)) (\<lambda>_. sys_exit 1))"
  from e have p: "fst ?p = Exit 1" "snd ?p = snd m @ [Print Stderr (label @ exn_text e)]"
    by (cases m; auto simp: try_except_def then_do_def print_def sys_exit_def)+
  have 1: "reported e' ?p" if "Raised e' \<in> set (snd ?p)" for e'
  proof -
    from that p have "Raised e' \<in> set (snd m)" by simp
    with m have "reported e' m" by (simp add: reports_def)
    with e obtain pre where "e' = e" "snd m = pre @ [Raised e]"
      by (auto simp: reported_def)
    with p label show ?thesis unfolding reported_def by auto
  qed
  from m e obtain e0 where "Raised e0 \<in> set (snd m)" by (auto simp: reports_def)
  with p have 2: "\<exists>e. Raised e \<in> set (snd ?p)" by auto
  from 1 2 show ?thesis unfolding reports_def by blast
qed

lemma error_labels_mem:
  "str ''Error: Missing dependency: '' \<in> set error_labels"
  "str ''Error opening image: '' \<in> set error_labels"
  "str ''Error loading processor: '' \<in> set error_labels"
  "str ''Error loading model: '' \<in> set error_labels"
  by (simp_all add: error_labels_def)

lemmas reports_intros = reports_then_do reports_lib reports_ret reports_raise reports_print
  reports_python

lemma reports_move_inputs: "reports (move_inputs env d items acc)"
  by (induction env d items acc rule: move_inputs.induct) (auto intro!: reports_intros)

lemma reports_steps:
  "reports (import_dependencies env)"
  "reports (select_device env)"
  "reports (load_image env args)"
  "reports (load_processor env)"
  "reports (make_bnb_config env args d)"
  "reports (load_model env q)"
  "reports (build_prompt env p prompt)"
  "reports (prepare_inputs env p m cs img)"
  "reports (run_generation env m inputs)"
  "reports (decode_output env p inputs ids)"
  unfolding import_dependencies_def select_device_def load_image_def load_processor_def
    make_bnb_config_def load_model_def build_prompt_def prepare_inputs_def run_generation_def
    decode_output_def input_length_def Let_def
  by (auto intro!: reports_intros reports_handled error_labels_mem reports_move_inputs
           split: template_result.split batch_value.split list.split)

lemma reports_select_prompt: "reports (select_prompt args)"
  by (simp add: select_prompt_def reports_python)

lemma reports_main_body: "reports (main_body env args)"
  unfolding main_body_def Let_def
  by (intro reports_then_do reports_select_prompt reports_steps reports_print)

section \<open>An exception of the environment is raised\<close>

lemma answers_then_do:
  "answers_raised env m \<Longrightarrow> (\<And>x. answers_raised env (f x)) \<Longrightarrow> answers_raised env (then_do m f)"
  unfolding answers_raised_def then_do_mem by blast

lemma answers_lib: "answer env c = failure ans \<Longrightarrow> answers_raised env (lib c ans)"
  by (cases ans) (auto simp: answers_raised_def lib_def failure_def)

lemma answers_nocall: "\<forall>c. Call c \<notin> set (snd p) \<Longrightarrow> answers_raised env p"
  by (simp add: answers_raised_def)

lemma answers_handled:
  "answers_raised env m \<Longrightarrow>
   answers_raised env (try_except m catches
           (\<lambda>e. then_do (print Stderr (label @ exn_text e)) (\<lambda>_. sys_exit 1)))"
  unfolding answers_raised_def handled_mem by blast

lemma answers_simple:
  "answers_raised env (ret x)" "answers_raised env (raise e)" "answers_raised env (print s t)"
  "answers_raised env (python a)"
  by (rule answers_nocall; simp add: ret_def raise_def print_def python_mem)+

lemmas answers_intros = answers_then_do answers_handled answers_simple

lemma answers_move_inputs: "answers_raised env (move_inputs env d items acc)"
  by (induction env d items acc rule: move_inputs.induct)
     (auto intro!: answers_intros answers_lib)

lemma answers_steps:
  "answers_raised env (import_dependencies env)"
  "answers_raised env (select_device env)"
  "answers_raised env (load_image env args)"
  "answers_raised env (load_processor env)"
  "answers_raised env (make_bnb_config env args d)"
  "answers_raised env (load_model env q)"
  "answers_raised env (build_prompt env p prompt)"
  "answers_raised env (prepare_inputs env p m cs img)"
  "answers_raised env (run_generation env m inputs)"
  "answers_raised env (decode_output env p inputs ids)"
  unfolding import_dependencies_def select_device_def load_image_def load_processor_def
    make_bnb_config_def load_model_def build_prompt_def prepare_inputs_def run_generation_def
    decode_output_def input_length_def Let_def
  by (auto intro!: answers_intros answers_lib answers_move_inputs
           split: template_result.split batch_value.split list.split)

lemma answers_select_prompt: "answers_raised env (select_prompt args)"
  by (simp add: select_prompt_def answers_simple)

lemma answers_main_body: "answers_raised env (main_body env args)"
  unfolding main_body_def Let_def
  by (intro answers_then_do answers_select_prompt answers_steps answers_simple)

section \<open>Standard output\<close>

lemma quiet_iff: "quiet p \<longleftrightarrow> (\<forall>ev \<in> set (snd p). stream_of ev \<noteq> Some Stdout)"
  by (auto simp: quiet_def written_def filter_empty_conv)

lemma quiet_then_do: "quiet m \<Longrightarrow> (\<And>x. quiet (f x)) \<Longrightarrow> quiet (then_do m f)"
  by (auto simp: quiet_iff then_do_mem)

lemma quiet_handled:
  "quiet m \<Longrightarrow> quiet (try_except m catches
           (\<lambda>e. then_do (print Stderr (label @ exn_text e)) (\<lambda>_. sys_exit 1)))"
  by (auto simp: quiet_iff handled_mem)

lemma quiet_simple:
  "quiet (lib c ans)" "quiet (ret x)" "quiet (raise e)" "quiet (print Stderr t)" "quiet (python a)"
  unfolding quiet_iff by (auto simp: prog_mem)

lemmas quiet_intros = quiet_then_do quiet_handled quiet_simple

lemma quiet_move_inputs: "quiet (move_inputs env d items acc)"
  by (induction env d items acc rule: move_inputs.induct) (auto intro!: quiet_intros)

lemma quiet_steps:
  "quiet (import_dependencies env)"
  "quiet (select_device env)"
  "quiet (load_image env args)"
  "quiet (load_processor env)"
  "quiet (make_bnb_config env args d)"
  "quiet (load_model env q)"
  "quiet (build_prompt env p prompt)"
  "quiet (prepare_inputs env p m cs img)"
  "quiet (run_generation env m inputs)"
  "quiet (decode_output env p inputs ids)"
  unfolding import_dependencies_def select_device_def load_image_def load_processor_def
    make_bnb_config_def load_model_def build_prompt_def prepare_inputs_def run_generation_def
    decode_output_def input_length_def Let_def
  by (auto intro!: quiet_intros quiet_move_inputs
           split: template_result.split batch_value.split list.split)

lemma quiet_unless_then_do:
  assumes "quiet m" and "\<And>x. (\<forall>y. fst (f x) \<noteq> Return y) \<longrightarrow> quiet (f x)"
  shows "(\<forall>y. fst (then_do m f) \<noteq> Return y) \<longrightarrow> quiet (then_do m f)"
  using assms by (auto simp: quiet_iff then_do_mem then_do_Return)

lemma quiet_select_prompt: "quiet (select_prompt args)"
  by (simp add: select_prompt_def quiet_simple)

lemma main_body_quiet_unless:
  "(\<forall>y. fst (main_body env args) \<noteq> Return y) \<longrightarrow> quiet (main_body env args)"
  unfolding main_body_def Let_def
  by (intro quiet_unless_then_do quiet_select_prompt quiet_steps) (simp add: print_simps)

section \<open>The order of the library calls\<close>

lemma set_calls: "set (calls evs) = {c. Call c \<in> set evs}"
proof -
  have "\<And>ev c. call_of ev = Some c \<longleftrightarrow> ev = Call c"
    by (case_tac ev) auto
  then show ?thesis by (auto simp: calls_def List.map_filter_def image_iff) force
qed

lemma calls_append: "calls (xs @ ys) = calls xs @ calls ys"
  by (simp add: calls_def List.map_filter_def)

lemma calls_simps: "calls [] = []" "calls (Call c # evs) = c # calls evs"
  "calls (Raised e # evs) = calls evs" "calls (Print s t # evs) = calls evs"
  by (simp_all add: calls_def List.map_filter_def)

lemma sorted_map_const: "\<forall>x \<in> set xs. f x = (k::nat) \<Longrightarrow> sorted (map f xs)"
  by (induction xs) auto

lemma in_steps_const:
  "(\<And>c. Call c \<in> set (snd p) \<Longrightarrow> step_index (step_of c) = k) \<Longrightarrow> in_steps k k p"
  unfolding in_steps_def by (auto simp: set_calls intro: sorted_map_const)

lemma in_steps_then_do:
  assumes m: "in_steps k k m" and lo: "lo \<le> k" and hi: "k \<le> hi"
    and f: "\<And>x. in_steps k hi (f x)"
  shows "in_steps lo hi (then_do m f)"
proof (cases "fst m")
  case (Return x)
  then have c: "calls (snd (then_do m f)) = calls (snd m) @ calls (snd (f x))"
    by (simp add: then_do_events calls_append)
  from m f[of x] lo hi show ?thesis
    unfolding in_steps_def c by (fastforce simp: sorted_append)
next
  case (Raise e)
  then have "snd (then_do m f) = snd m" by (simp add: then_do_events)
  with m lo hi show ?thesis unfolding in_steps_def by fastforce
next
  case (Exit n)
  then have "snd (then_do m f) = snd m" by (simp add: then_do_events)
  with m lo hi show ?thesis unfolding in_steps_def by fastforce
qed

lemma in_steps_steps:
  "in_steps 0 0 (import_dependencies env)"
  "in_steps 0 0 (select_device env)"
  "in_steps 1 1 (load_image env args)"
  "in_steps 2 2 (load_processor env)"
  "in_steps 3 3 (make_bnb_config env args d)"
  "in_steps 3 3 (load_model env q)"
  "in_steps 4 4 (build_prompt env p prompt)"
  "in_steps 5 5 (prepare_inputs env p m cs img)"
  "in_steps 5 5 (run_generation env m inputs)"
  "in_steps 6 6 (decode_output env p inputs ids)"
  "in_steps 6 6 (print s t)"
  "in_steps 0 0 (select_prompt args)"
  by (rule in_steps_const; auto dest!: step_calls simp: print_simps)+

lemma in_steps_main_body: "in_steps 0 6 (main_body env args)"
  unfolding main_body_def Let_def
  apply (rule in_steps_then_do[of 0], rule in_steps_steps, simp, simp)
  apply (rule in_steps_then_do[of 0], rule in_steps_steps, simp, simp)
  apply (rule in_steps_then_do[of 0], rule in_steps_steps, simp, simp)
  apply (rule in_steps_then_do[of 1], rule in_steps_steps, simp, simp)
  apply (rule in_steps_then_do[of 2], rule in_steps_steps, simp, simp)
  apply (rule in_steps_then_do[of 3], rule in_steps_steps, simp, simp)
  apply (rule in_steps_then_do[of 3], rule in_steps_steps, simp, simp)
  apply (rule in_steps_then_do[of 4], rule in_steps_steps, simp, simp)
  apply (rule in_steps_then_do[of 5], rule in_steps_steps, simp, simp)
  apply (rule in_steps_then_do[of 5], rule in_steps_steps, simp, simp)
  apply (rule in_steps_then_do[of 6], rule in_steps_steps, simp, simp)
  apply (rule in_steps_steps)
  done

section \<open>A run to the end\<close>

lemma main_body_Return:
  assumes "fst (main_body env args) = Return u"
  shows "\<exists>prompt d img p q m cs inputs ids caption.
     fst (select_prompt args) = Return prompt \<and>
     fst (import_dependencies env) = Return () \<and>
     fst (select_device env) = Return d \<and>
     fst (load_image env args) = Return img \<and>
     fst (load_processor env) = Return p \<and>
     fst (make_bnb_config env args d) = Return q \<and>
     fst (load_model env q) = Return m \<and>
     fst (build_prompt env p prompt) = Return cs \<and>
     fst (prepare_inputs env p m cs img) = Return inputs \<and>
     fst (run_generation env m inputs) = Return ids \<and>
     fst (decode_output env p inputs ids) = Return caption \<and>
     snd (main_body env args) =
       snd (import_dependencies env) @ snd (select_device env) @ snd (load_image env args) @
       snd (load_processor env) @ snd (make_bnb_config env args d) @ snd (load_model env q) @
       snd (build_prompt env p prompt) @
       snd (prepare_inputs env p m cs img) @ snd (run_generation env m inputs) @
       snd (decode_output env p inputs ids) @ [Print Stdout caption]"
proof -
  from assms obtain prompt d img p q m cs inputs ids caption where r:
     "fst (select_prompt args) = Return prompt"
     "fst (import_dependencies env) = Return ()"
     "fst (select_device env) = Return d"
     "fst (load_image env args) = Return img"
     "fst (load_processor env) = Return p"
     "fst (make_bnb_config env args d) = Return q"
     "fst (load_model env q) = Return m"
     "fst (build_prompt env p prompt) = Return cs"
     "fst (prepare_inputs env p m cs img) = Return inputs"
     "fst (run_generation env m inputs) = Return ids"
     "fst (decode_output env p inputs ids) = Return caption"
    unfolding main_body_def Let_def then_do_Return by auto
  then have "snd (main_body env args) =
       snd (import_dependencies env) @ snd (select_device env) @ snd (load_image env args) @
       snd (load_processor env) @ snd (make_bnb_config env args d) @ snd (load_model env q) @
       snd (build_prompt env p prompt) @
       snd (prepare_inputs env p m cs img) @ snd (run_generation env m inputs) @
       snd (decode_output env p inputs ids) @ [Print Stdout caption]"
    unfolding main_body_def Let_def
    by (simp add: then_do_events print_simps select_prompt_Return_events)
  with r show ?thesis by blast
qed

text \<open>When the mode is a list, the run ends at the lookup of the prompt.\<close>

lemma main_body_list:
  "mode args = Py_list l \<Longrightarrow>
   main_body env args =
     (Raise (Exn TypeError (str ''unhashable type: '' @ [39] @ str ''list'' @ [39])),
      [Raised (Exn TypeError (str ''unhashable type: '' @ [39] @ str ''list'' @ [39]))])"
  by (simp add: main_body_def select_prompt_list then_do_def raise_def)

lemma main_body_Call_str:
  "Call c \<in> set (snd (main_body env args)) \<Longrightarrow> \<exists>m. mode args = Py_str m"
  by (cases "mode args") (auto simp: main_body_list)

section \<open>Whole runs\<close>

lemma main_rejected:
  "parse_args (interp env) argv = Inl x \<Longrightarrow>
     main env argv =
       (case x of Help_exit \<Rightarrow> \<lparr>events = [Print_help], status = 0\<rparr>
        | Error_exit e \<Rightarrow> \<lparr>events = [Print_usage_error e], status = 2\<rparr>)"
  by (simp add: main_def split: parse_exit.splits)

lemma main_accepted:
  "parse_args (interp env) argv = Inr args \<Longrightarrow>
     events (main env argv) =
       snd (main_body env args) @
       (case fst (main_body env args) of Return u \<Rightarrow> [] | Raise e \<Rightarrow> [Traceback e] | Exit n \<Rightarrow> [])
     \<and> status (main env argv) =
       (case fst (main_body env args) of Return u \<Rightarrow> 0 | Raise e \<Rightarrow> 1 | Exit n \<Rightarrow> n)"
  by (cases "main_body env args"; cases "fst (main_body env args)") (auto simp: main_def)

lemma main_Call:
  "Call c \<in> set (events (main env argv)) \<longleftrightarrow>
     (\<exists>args. parse_args (interp env) argv = Inr args \<and> Call c \<in> set (snd (main_body env args)))"
proof (cases "parse_args (interp env) argv")
  case (Inl x)
  then show ?thesis by (cases x) (simp_all add: main_rejected)
next
  case (Inr args)
  then show ?thesis by (auto simp: main_accepted split: result.splits)
qed

lemma main_Raised:
  "Raised e \<in> set (events (main env argv)) \<longleftrightarrow>
     (\<exists>args. parse_args (interp env) argv = Inr args \<and> Raised e \<in> set (snd (main_body env args)))"
proof (cases "parse_args (interp env) argv")
  case (Inl x)
  then show ?thesis by (cases x) (simp_all add: main_rejected)
next
  case (Inr args)
  then show ?thesis by (auto simp: main_accepted split: result.splits)
qed

lemma main_body_Exit: "fst (main_body env args) = Exit n \<Longrightarrow> n = 1"
proof -
  assume n: "fst (main_body env args) = Exit n"
  with reports_main_body[of env args] obtain e where "Raised e \<in> set (snd (main_body env args))"
    by (auto simp: reports_def)
  with reports_main_body[of env args] have "reported e (main_body env args)"
    by (simp add: reports_def)
  with n show ?thesis by (auto simp: reported_def)
qed

lemma successful_iff:
  "successful env argv \<longleftrightarrow>
     (\<exists>args u. parse_args (interp env) argv = Inr args \<and> fst (main_body env args) = Return u)"
proof (cases "parse_args (interp env) argv")
  case (Inl x)
  then show ?thesis by (simp add: successful_def)
next
  case (Inr args)
  then show ?thesis
    by (cases "fst (main_body env args)")
       (auto simp: successful_def main_accepted dest: main_body_Exit)
qed

section \<open>The mode that the parser leaves\<close>

text \<open>The mode of the namespace is one of the four names, or, on an interpreter that strips
  the values of options, the empty list.\<close>

lemma take_action_keeps_mode:
  "take_action ip a vs ns = Inr ns' \<Longrightarrow> a \<noteq> Mode_action \<Longrightarrow> ns_mode ns' = ns_mode ns"
  by (cases a) (auto simp: take_action_def split: sum.splits)

lemma consume_keeps_mode:
  "consume ip ns extras r = Inr (ns', extras') \<Longrightarrow>
   \<forall>s os sep e. (s, Opt (Some Mode_action, os, sep, e)) \<notin> set r \<Longrightarrow> ns_mode ns' = ns_mode ns"
proof (induction ip ns extras r arbitrary: ns' extras' rule: consume.induct)
  case (5 ip ns extras s a option_string sep e r)
  from 5(3) have a: "a \<noteq> Mode_action" by auto
  from 5(2) obtain ns1 where t: "takes_argument a" "take_action ip a [e] ns = Inr ns1"
    and c: "consume ip ns1 extras r = Inr (ns', extras')"
    by (auto split: if_splits sum.splits)
  from take_action_keeps_mode[OF t(2) a] have "ns_mode ns1 = ns_mode ns" .
  with 5(1)[OF t c] 5(3) show ?case by simp
next
  case (6 ip ns extras s a option_string sep r)
  from 6(4) have a: "a \<noteq> Mode_action" by auto
  show ?case
  proof (cases "takes_argument a")
    case True
    with 6(3) obtain v r' ns1 where r: "r = (v, Arg) # r'" and t: "take_action ip a [v] ns = Inr ns1"
      and c: "consume ip ns1 extras r' = Inr (ns', extras')"
      by (auto split: list.splits pattern.splits sum.splits prod.splits)
    from take_action_keeps_mode[OF t a] have "ns_mode ns1 = ns_mode ns" .
    with 6(1)[OF True r refl refl t c] 6(4) r show ?thesis by simp
  next
    case False
    with 6(3) obtain ns1 where t: "take_action ip a [] ns = Inr ns1"
      and c: "consume ip ns1 extras r = Inr (ns', extras')"
      by (auto split: sum.splits)
    from take_action_keeps_mode[OF t a] have "ns_mode ns1 = ns_mode ns" .
    with 6(2)[OF False t c] 6(4) show ?thesis by simp
  qed
qed auto

lemma take_action_mode:
  assumes "take_action ip a [v] ns = Inr ns'"
    and "ns_mode ns \<in> Py_str ` set mode_choices \<or> strips_option_values ip \<and> ns_mode ns = Py_list []"
  shows "ns_mode ns' \<in> Py_str ` set mode_choices \<or> strips_option_values ip \<and> ns_mode ns' = Py_list []"
proof (cases "a = Mode_action")
  case False
  from take_action_keeps_mode[OF assms(1) False] assms(2) show ?thesis by simp
next
  case True
  with assms(1) show ?thesis
    by (auto simp: take_action_Mode split: if_splits)
qed

lemma consume_mode:
  "consume ip ns extras r = Inr (ns', extras') \<Longrightarrow>
   ns_mode ns \<in> Py_str ` set mode_choices \<or> strips_option_values ip \<and> ns_mode ns = Py_list [] \<Longrightarrow>
   ns_mode ns' \<in> Py_str ` set mode_choices \<or> strips_option_values ip \<and> ns_mode ns' = Py_list []"
proof (induction ip ns extras r rule: consume.induct)
  case (5 ip ns extras s a option_string sep e r)
  from 5(2) obtain ns1 where t: "takes_argument a" "take_action ip a [e] ns = Inr ns1"
    and c: "consume ip ns1 extras r = Inr (ns', extras')"
    by (auto split: if_splits sum.splits)
  from take_action_mode[OF t(2) 5(3)] 5(1)[OF t c] show ?case by simp
next
  case (6 ip ns extras s a option_string sep r)
  show ?case
  proof (cases "takes_argument a")
    case True
    with 6(3) obtain v r' ns1 where r: "r = (v, Arg) # r'" and t: "take_action ip a [v] ns = Inr ns1"
      and c: "consume ip ns1 extras r' = Inr (ns', extras')"
      by (auto split: list.splits pattern.splits sum.splits prod.splits)
    from take_action_mode[OF t 6(4)] 6(1)[OF True r refl refl t c] show ?thesis by simp
  next
    case False
    then have a: "a \<noteq> Mode_action" by auto
    from False 6(3) obtain ns1 where t: "take_action ip a [] ns = Inr ns1"
      and c: "consume ip ns1 extras r = Inr (ns', extras')"
      by (auto split: sum.splits)
    from take_action_keeps_mode[OF t a] 6(4) 6(2)[OF False t c] show ?thesis by simp
  qed
qed auto

lemma parse_args_mode:
  assumes "parse_args ip argv = Inr args"
  shows "mode args \<in> Py_str ` set mode_choices
       \<or> strips_option_values ip \<and> mode args = Py_list []"
proof -
  from assms obtain ps ns extras where
    c: "consume ip default_namespace [] (zip argv ps) = Inr (ns, extras)"
    and m: "mode args = ns_mode ns"
    by (auto simp: parse_args_def split: sum.splits prod.splits option.splits if_splits)
  have "ns_mode default_namespace \<in> Py_str ` set mode_choices"
    by (simp add: default_namespace_def mode_choices_eq)
  with consume_mode[OF c] m show ?thesis by simp
qed

lemma parse_args_default_mode:
  assumes p: "parse_args ip argv = Inr args"
    and no: "\<forall>s \<in> set argv. \<not> startswith s (str ''--m'')"
  shows "mode args = Py_str (str ''descriptive'')"
proof -
  from p obtain ps ns extras where ps: "classify (negative_number ip) argv = Inr ps"
    and c: "consume ip default_namespace [] (zip argv ps) = Inr (ns, extras)"
    and m: "mode args = ns_mode ns"
    by (auto simp: parse_args_def split: sum.splits prod.splits option.splits if_splits)
  have "\<forall>s os sep e. (s, Opt (Some Mode_action, os, sep, e)) \<notin> set (zip argv ps)"
  proof (intro allI notI)
    fix s os sep e assume i: "(s, Opt (Some Mode_action, os, sep, e)) \<in> set (zip argv ps)"
    with classify_classified[OF ps]
    have "parse_optional (negative_number ip) s = Inr (Some (Some Mode_action, os, sep, e))" by auto
    from parse_optional_tuple[OF this] have "startswith s (str ''--m'')" by simp
    moreover from i have "s \<in> set argv" by (rule set_zip_leftD)
    ultimately show False using no by simp
  qed
  from consume_keeps_mode[OF c this] m show ?thesis by (simp add: default_namespace_def)
qed

text \<open>When the mode is a string, the lookup finds its prompt and does not use the default.\<close>

lemma default_prompt_unused:
  assumes "parse_args ip argv = Inr args" and "mode args = Py_str m"
  shows "m \<in> set mode_choices \<and>
         (\<exists>p. map_of MODE_PROMPTS m = Some p
            \<and> dict_index MODE_PROMPTS m = Inr p
            \<and> dict_get MODE_PROMPTS m DEFAULT_PROMPT = p
            \<and> fst (select_prompt args) = Return p)"
proof -
  from parse_args_mode[OF assms(1)] assms(2) have k: "m \<in> set mode_choices" by auto
  then have "m \<in> set (dict_keys MODE_PROMPTS)" by (simp add: mode_choices_def)
  from map_of_MODE_PROMPTS[OF this] obtain p where "map_of MODE_PROMPTS m = Some p" ..
  with k assms(2) show ?thesis
    by (simp add: dict_index_def dict_get_def select_prompt_Return)
qed

text \<open>A run that makes a library call has a mode that is a string.\<close>

lemma main_Call_mode:
  assumes "Call c \<in> set (events (main env argv))"
  shows "\<exists>args m p. parse_args (interp env) argv = Inr args
           \<and> Call c \<in> set (snd (main_body env args))
           \<and> mode args = Py_str m \<and> m \<in> set mode_choices
           \<and> map_of MODE_PROMPTS m = Some p
           \<and> dict_index MODE_PROMPTS m = Inr p
           \<and> dict_get MODE_PROMPTS m DEFAULT_PROMPT = p
           \<and> fst (select_prompt args) = Return p"
proof -
  from assms obtain args where p: "parse_args (interp env) argv = Inr args"
    and c: "Call c \<in> set (snd (main_body env args))" by (auto simp: main_Call)
  from main_body_Call_str[OF c] obtain m where m: "mode args = Py_str m" ..
  from default_prompt_unused[OF p m] p c m show ?thesis by blast
qed

lemma main_answers:
  assumes "Call c \<in> set (events (main env argv))" and a: "answer env c = Some e"
  shows "Raised e \<in> set (events (main env argv))"
proof -
  from assms(1) obtain args where p: "parse_args (interp env) argv = Inr args"
    and c: "Call c \<in> set (snd (main_body env args))" by (auto simp: main_Call)
  from answers_main_body[of env args] c a have "Raised e \<in> set (snd (main_body env args))"
    by (auto simp: answers_raised_def)
  with p show ?thesis by (auto simp: main_Raised)
qed

lemma main_reported:
  assumes "Raised e \<in> set (events (main env argv))"
  shows "status (main env argv) = 1
        \<and> (\<exists>pre. events (main env argv) = pre @ [Raised e, Traceback e]
                 \<or> (\<exists>label \<in> set error_labels.
                       events (main env argv) = pre @ [Raised e, Print Stderr (label @ exn_text e)]))"
proof -
  from assms obtain args where p: "parse_args (interp env) argv = Inr args"
    and r: "Raised e \<in> set (snd (main_body env args))" by (auto simp: main_Raised)
  from reports_main_body[of env args] r have "reported e (main_body env args)"
    by (simp add: reports_def)
  then obtain pre where
    "(fst (main_body env args) = Raise e \<and> snd (main_body env args) = pre @ [Raised e]) \<or>
     (fst (main_body env args) = Exit 1 \<and>
      (\<exists>label \<in> set error_labels.
         snd (main_body env args) = pre @ [Raised e, Print Stderr (label @ exn_text e)]))"
    by (auto simp: reported_def)
  with main_accepted[OF p] show ?thesis by auto
qed

section \<open>Where a list as mode comes from\<close>

lemma partition_eq_join:
  "61 \<in> set s \<Longrightarrow> s = takeWhile (\<lambda>c. c \<noteq> 61) s @ [61] @ drop 1 (dropWhile (\<lambda>c. c \<noteq> 61) s)"
proof -
  assume "61 \<in> set s"
  then have "dropWhile (\<lambda>c. c \<noteq> 61) s \<noteq> []" by (simp add: dropWhile_eq_Nil_conv)
  then obtain r where r: "dropWhile (\<lambda>c. c \<noteq> 61) s = 61 # r"
    using hd_dropWhile[of "\<lambda>c. c \<noteq> 61" s] by (cases "dropWhile (\<lambda>c. c \<noteq> 61) s") auto
  have "s = takeWhile (\<lambda>c. c \<noteq> 61) s @ dropWhile (\<lambda>c. c \<noteq> 61) s" by simp
  with r show ?thesis by simp
qed

lemma mode_prefixes:
  assumes "startswith (str ''--mode'') p" and "startswith p (str ''--m'')"
  shows "p \<in> set [str ''--m'', str ''--mo'', str ''--mod'', str ''--mode'']"
  using assms by (auto simp: str_simps startswith_Cons2)

lemma get_option_tuples_mode:
  assumes "get_option_tuples s = Inr [(Some Mode_action, os, sep, Some e)]"
    and "2 \<le> length s" and "hd s = 45"
  shows "s = takeWhile (\<lambda>c. c \<noteq> 61) s @ [61] @ e
       \<and> startswith (str ''--mode'') (takeWhile (\<lambda>c. c \<noteq> 61) s)"
proof -
  from assms(2) obtain c d r where s: "s = c # d # r"
    by (cases s; cases "tl s") auto
  with assms(3) have c: "c = 45" by simp
  show ?thesis
  proof (cases "d = 45")
    case False
    with assms(1) s c show ?thesis
      by (auto simp: get_option_tuples_def option_string_actions_def str_simps
               split: if_splits)
  next
    case True
    let ?p = "takeWhile (\<lambda>c. c \<noteq> 61) s"
    from assms(1) s c True have f: "61 \<in> set s" and e: "e = drop 1 (dropWhile (\<lambda>c. c \<noteq> 61) s)"
      and m: "startswith (str ''--mode'') ?p"
      by (auto simp: get_option_tuples_def option_string_actions_def partition_eq_def
               split: if_splits)
    from partition_eq_join[OF f] e m show ?thesis by simp
  qed
qed

lemma parse_optional_mode_explicit:
  assumes "parse_optional neg s = Inr (Some (Some Mode_action, os, sep, Some e))"
  shows "\<exists>p \<in> set [str ''--m'', str ''--mo'', str ''--mod'', str ''--mode'']. s = p @ [61] @ e"
proof -
  let ?p = "takeWhile (\<lambda>c. c \<noteq> 61) s"
  from parse_optional_tuple[OF assms] have sw: "startswith s (str ''--m'')" by simp
  from assms have ne: "s \<noteq> []" and hd: "hd s = 45"
    by (auto simp: parse_optional_def split: if_splits)
  have j: "s = ?p @ [61] @ e \<and> startswith (str ''--mode'') ?p"
  proof (cases "map_of option_string_actions s")
    case (Some a')
    with assms ne hd show ?thesis by (auto simp: parse_optional_def)
  next
    case None
    with assms ne hd have len: "2 \<le> length s"
      by (cases s; cases "tl s") (auto simp: parse_optional_def split: if_splits)
    show ?thesis
    proof (cases "61 \<in> set s \<and> map_of option_string_actions ?p \<noteq> None")
      case True
      then obtain a' where a': "map_of option_string_actions ?p = Some a'" by auto
      with True assms ne hd None len have "a' = Mode_action"
        and e: "e = drop 1 (dropWhile (\<lambda>c. c \<noteq> 61) s)"
        by (auto simp: parse_optional_def partition_eq_def)
      with a' have "?p = str ''--mode''"
        by (auto simp: option_string_actions_def split: if_splits)
      with partition_eq_join[of s] True e show ?thesis by (simp add: startswith_def)
    next
      case False
      with assms ne hd None len
      have "get_option_tuples s = Inr [(Some Mode_action, os, sep, Some e)]"
        by (auto simp: parse_optional_def partition_eq_def
                 split: if_splits sum.splits list.splits)
      from get_option_tuples_mode[OF this len hd] show ?thesis .
    qed
  qed
  from sw have "?p \<noteq> [] \<and> startswith ?p (str ''--m'')"
  proof -
    from j have s: "s = ?p @ 61 # e" by simp
    from j have "length ?p \<le> 6" by (auto simp: startswith_def str_def dest: arg_cong[where f = length])
    obtain a b c r where "s = a # b # c # r" using sw by (auto simp: str_simps startswith_Cons2)
    with sw have abc: "s = 45 # 45 # 109 # r" by (auto simp: str_simps startswith_Cons2)
    then have "?p = 45 # 45 # 109 # takeWhile (\<lambda>c. c \<noteq> 61) r" by simp
    then show ?thesis by (simp add: str_simps)
  qed
  with j mode_prefixes[of ?p] have "?p \<in> set [str ''--m'', str ''--mo'', str ''--mod'', str ''--mode'']"
    by blast
  with j show ?thesis by blast
qed

text \<open>A command line with the string \<^verbatim>\<open>--\<close> is not accepted: the string goes to the
  unrecognized arguments, or an error comes first.\<close>

lemma consume_extras:
  "consume ip ns extras r = Inr (ns', ex) \<Longrightarrow> extras \<noteq> [] \<or> (\<exists>s. (s, Dashes) \<in> set r) \<Longrightarrow> ex \<noteq> []"
proof (induction ip ns extras r rule: consume.induct)
  case (5 ip ns extras s a option_string sep e r)
  from 5(2) obtain ns1 where t: "takes_argument a" "take_action ip a [e] ns = Inr ns1"
    and c: "consume ip ns1 extras r = Inr (ns', ex)"
    by (auto split: if_splits sum.splits)
  from 5(1)[OF t c] 5(3) show ?case by auto
next
  case (6 ip ns extras s a option_string sep r)
  show ?case
  proof (cases "takes_argument a")
    case True
    with 6(3) obtain v r' ns1 where r: "r = (v, Arg) # r'" and t: "take_action ip a [v] ns = Inr ns1"
      and c: "consume ip ns1 extras r' = Inr (ns', ex)"
      by (auto split: list.splits pattern.splits sum.splits prod.splits)
    from 6(1)[OF True r refl refl t c] 6(4) r show ?thesis by auto
  next
    case False
    with 6(3) obtain ns1 where t: "take_action ip a [] ns = Inr ns1"
      and c: "consume ip ns1 extras r = Inr (ns', ex)"
      by (auto split: sum.splits)
    from 6(2)[OF False t c] 6(4) show ?thesis by auto
  qed
qed auto

lemma classify_dashes:
  "classify neg argv = Inr ps \<Longrightarrow> str ''--'' \<in> set argv \<Longrightarrow> \<exists>s. (s, Dashes) \<in> set (zip argv ps)"
proof (induction argv arbitrary: ps)
  case Nil
  then show ?case by simp
next
  case (Cons s ss)
  show ?case
  proof (cases "s = str ''--''")
    case True
    with Cons.prems show ?thesis by auto
  next
    case False
    with Cons.prems obtain q qs where ps: "ps = q # qs" and qs: "classify neg ss = Inr qs"
      by (auto split: sum.splits option.splits)
    from False Cons.prems have "str ''--'' \<in> set ss" by simp
    from Cons.IH[OF qs this] ps show ?thesis by auto
  qed
qed

lemma accepted_no_dashes:
  assumes "parse_args ip argv = Inr args"
  shows "str ''--'' \<notin> set argv"
proof
  assume d: "str ''--'' \<in> set argv"
  from assms obtain ps ns where ps: "classify (negative_number ip) argv = Inr ps"
    and c: "consume ip default_namespace [] (zip argv ps) = Inr (ns, [])"
    by (auto simp: parse_args_def split: sum.splits prod.splits option.splits if_splits)
  from classify_dashes[OF ps d] consume_extras[OF c] show False by auto
qed

lemma consume_list_mode:
  "consume ip ns extras r = Inr (ns', ex) \<Longrightarrow> ns_mode ns' = Py_list l \<Longrightarrow>
   (\<forall>l'. ns_mode ns \<noteq> Py_list l') \<Longrightarrow> \<forall>sp \<in> set r. fst sp \<noteq> str ''--'' \<Longrightarrow>
   \<exists>s os sep. (s, Opt (Some Mode_action, os, sep, Some (str ''--''))) \<in> set r"
proof (induction ip ns extras r rule: consume.induct)
  case (5 ip ns extras s a option_string sep e r)
  from 5(2) obtain ns1 where t: "takes_argument a" "take_action ip a [e] ns = Inr ns1"
    and c: "consume ip ns1 extras r = Inr (ns', ex)"
    by (auto split: if_splits sum.splits)
  show ?case
  proof (cases "a = Mode_action \<and> e = str ''--''")
    case True
    then show ?thesis by auto
  next
    case False
    have "\<forall>l'. ns_mode ns1 \<noteq> Py_list l'"
    proof (cases "a = Mode_action")
      case True
      with False t show ?thesis by (auto simp: take_action_Mode split: if_splits)
    next
      case False
      from take_action_keeps_mode[OF t(2) False] 5(4) show ?thesis by simp
    qed
    from 5(1)[OF t c 5(3) this] 5(5) show ?thesis by auto
  qed
next
  case (6 ip ns extras s a option_string sep r)
  show ?case
  proof (cases "takes_argument a")
    case True
    with 6(3) obtain v r' ns1 where r: "r = (v, Arg) # r'" and t: "take_action ip a [v] ns = Inr ns1"
      and c: "consume ip ns1 extras r' = Inr (ns', ex)"
      by (auto split: list.splits pattern.splits sum.splits prod.splits)
    from 6(6) r have v: "v \<noteq> str ''--''" by simp
    have "\<forall>l'. ns_mode ns1 \<noteq> Py_list l'"
    proof (cases "a = Mode_action")
      case True
      with t v show ?thesis by (auto simp: take_action_Mode split: if_splits)
    next
      case False
      from take_action_keeps_mode[OF t False] 6(5) show ?thesis by simp
    qed
    from 6(1)[OF True r refl refl t c 6(4) this] 6(6) r show ?thesis by auto
  next
    case False
    then have a: "a \<noteq> Mode_action" by auto
    from False 6(3) obtain ns1 where t: "take_action ip a [] ns = Inr ns1"
      and c: "consume ip ns1 extras r = Inr (ns', ex)"
      by (auto split: sum.splits)
    from take_action_keeps_mode[OF t a] 6(5) have "\<forall>l'. ns_mode ns1 \<noteq> Py_list l'" by simp
    from 6(2)[OF False t c 6(4) this] 6(6) show ?thesis by auto
  qed
qed auto

text \<open>The mode of an accepted command line is a list only when a string of the command
  line gives \<^verbatim>\<open>--mode\<close>, or an abbreviation of it, an explicit value.\<close>

lemma parse_args_list_mode:
  assumes "parse_args ip argv = Inr args" and "mode args = Py_list l"
  shows "strips_option_values ip \<and> l = []
       \<and> (\<exists>s \<in> set argv. s \<in> set [str ''--m=--'', str ''--mo=--'', str ''--mod=--'',
                                     str ''--mode=--''])"
proof -
  from parse_args_mode[OF assms(1)] assms(2) have sl: "strips_option_values ip" "l = []" by auto
  from assms(1) obtain ps ns extras where ps: "classify (negative_number ip) argv = Inr ps"
    and c: "consume ip default_namespace [] (zip argv ps) = Inr (ns, extras)"
    and m: "mode args = ns_mode ns"
    by (auto simp: parse_args_def split: sum.splits prod.splits option.splits if_splits)
  from accepted_no_dashes[OF assms(1)]
  have nd: "\<forall>sp \<in> set (zip argv ps). fst sp \<noteq> str ''--''"
    by (auto dest: set_zip_leftD)
  have "\<forall>l'. ns_mode default_namespace \<noteq> Py_list l'" by (simp add: default_namespace_def)
  moreover from m assms(2) have "ns_mode ns = Py_list l" by simp
  ultimately obtain s os sep
    where i: "(s, Opt (Some Mode_action, os, sep, Some (str ''--''))) \<in> set (zip argv ps)"
    using consume_list_mode[OF c _ _ nd] by blast
  from i classify_classified[OF ps]
  have "parse_optional (negative_number ip) s =
          Inr (Some (Some Mode_action, os, sep, Some (str ''--'')))" by auto
  from parse_optional_mode_explicit[OF this]
  have "s \<in> set [str ''--m=--'', str ''--mo=--'', str ''--mod=--'', str ''--mode=--'']"
    by (auto simp: str_simps)
  moreover from i have "s \<in> set argv" by (rule set_zip_leftD)
  ultimately show ?thesis using sl by blast
qed

section \<open>The examples\<close>

lemma parse_optional_image:
  "parse_optional neg (str ''cat.png'') = Inr None"
  by (rule parse_optional_plain) (simp add: plain_def str_simps)

lemma parse_sample_argv:
  "parse_args ip sample_argv =
     Inr \<lparr>image = Py_str (str ''cat.png''), mode = Py_str (str ''booru''), low_vram = False\<rparr>"
  unfolding sample_argv_def
  by (rule parse_args_accepts) (simp_all add: mode_choices_eq plain_def str_simps)

lemma parse_without_mode:
  "parse_args ip [str ''--image'', str ''cat.png''] =
     Inr \<lparr>image = Py_str (str ''cat.png''), mode = Py_str (str ''descriptive''),
         low_vram = False\<rparr>"
  by (simp add: parse_args_def parse_optional_exact parse_optional_image default_namespace_def
        take_action_Image)

text \<open>On an interpreter that strips the values of options, \<^verbatim>\<open>--mode=--\<close> leaves the empty list
  as mode, and the run ends at the lookup of the prompt.\<close>

lemma parse_mode_dashes:
  "strips_option_values ip \<Longrightarrow>
   parse_args ip [str ''--image'', str ''cat.png'', str ''--mode=--''] =
     Inr \<lparr>image = Py_str (str ''cat.png''), mode = Py_list [], low_vram = False\<rparr>"
proof -
  assume s: "strips_option_values ip"
  have m: "parse_optional (negative_number ip) (str ''--mode=--'') =
      Inr (Some (Some Mode_action, str ''--mode'', Some [61], Some (str ''--'')))"
    using parse_optional_mode_eq[of "negative_number ip" "str ''--''"] by (simp add: str_simps)
  have n: "str ''--mode=--'' \<noteq> str ''--''" "str ''cat.png'' \<noteq> str ''--''" by simp_all
  from s n show ?thesis
    by (simp add: parse_args_def parse_optional_exact parse_optional_image m default_namespace_def
          take_action_Image take_action_Mode)
qed

section \<open>The example runs\<close>

lemmas step_defs = import_dependencies_def select_device_def load_image_def load_processor_def
  make_bnb_config_def load_model_def build_prompt_def prepare_inputs_def run_generation_def
  decode_output_def input_length_def

lemmas prim_defs = then_do_def try_except_def lib_def ret_def raise_def sys_exit_def print_def
  python_def Exception_def

lemmas run_simps = main_body_def select_prompt_def dict_get_value_def step_defs prim_defs
  nf4_in_model_id dict_contains_def dict_keys_def dict_index_def generation_kwarg_names_def

lemma strip_sample: "strip (str '' a cat on a mat '') = str ''a cat on a mat''"
  by (simp add: strip_def isspace_def str_simps)

lemma main_body_sample:
  "main_body sample_env \<lparr>image = Py_str (str ''cat.png''), mode = Py_str (str ''booru''), low_vram = False\<rparr> =
    (Return (),
     [Call Import_deps, Call Cuda_is_available, Call (Image_open (Py_str (str ''cat.png''))),
      Call (Image_convert (Image_object 0) (str ''RGB'')),
      Call (Processor_from_pretrained model_id),
      Call (BitsAndBytesConfig_call quantization_kwargs),
      Call (Model_from_pretrained model_id (load_kwargs_for (Some (Quant_config_object 0)))),
      Call (Model_eval (Model_object 0)),
      Call (Apply_chat_template (Processor_object 0)
              (convo (dict_get MODE_PROMPTS (str ''booru'') DEFAULT_PROMPT)) False True),
      Call (Processor_call (Processor_object 0) [str ''<chat>''] [Image_object 1] (str ''pt'')),
      Call (Tensor_to (Tensor [1, 3] 0) (To_device (str ''cuda:0''))),
      Call (Tensor_to (Tensor [1, 3] 1) (To_device (str ''cuda:0''))),
      Call (Tensor_to (Tensor [1, 3, 384, 384] 2) (To_device (str ''cuda:0''))),
      Call (Tensor_to (Tensor [1, 3, 384, 384] 2) (To_dtype float16)),
      Call (Generate (Model_object 0) sample_inputs generation_kwargs),
      Call (Decode (Processor_object 0) [21, 22, 23] True False),
      Print Stdout (str ''a cat on a mat'')])"
  by (simp add: run_simps sample_env_def sample_inputs_def strip_sample)

lemma main_sample:
  "main sample_env sample_argv =
    \<lparr>events = snd (main_body sample_env
                 \<lparr>image = Py_str (str ''cat.png''), mode = Py_str (str ''booru''), low_vram = False\<rparr>),
     status = 0\<rparr>"
  by (simp add: main_def parse_sample_argv main_body_sample)

lemma successful_sample: "successful sample_env sample_argv"
  by (simp add: successful_def parse_sample_argv main_sample)

lemma main_body_cpu:
  "main_body cpu_env \<lparr>image = Py_str (str ''cat.png''), mode = Py_str (str ''booru''), low_vram = False\<rparr> =
    (Return (),
     [Call Import_deps, Call Cuda_is_available,
      Print Stderr (str ''Warning: No GPU. Running on CPU (slow).''),
      Call (Image_open (Py_str (str ''cat.png''))),
      Call (Image_convert (Image_object 0) (str ''RGB'')),
      Call (Processor_from_pretrained model_id),
      Call (Model_from_pretrained model_id (load_kwargs_for None)),
      Call (Model_eval (Model_object 0)),
      Call (Apply_chat_template (Processor_object 0)
              (convo (dict_get MODE_PROMPTS (str ''booru'') DEFAULT_PROMPT)) False True),
      Call (Processor_call (Processor_object 0) [str ''<chat>''] [Image_object 1] (str ''pt'')),
      Call (Tensor_to (Tensor [1, 3] 0) (To_device (str ''cpu''))),
      Call (Tensor_to (Tensor [1, 3] 1) (To_device (str ''cpu''))),
      Call (Tensor_to (Tensor [1, 3, 384, 384] 2) (To_device (str ''cpu''))),
      Call (Tensor_to (Tensor [1, 3, 384, 384] 2) (To_dtype float16)),
      Call (Generate (Model_object 0) sample_inputs generation_kwargs),
      Call (Decode (Processor_object 0) [21, 22, 23] True False),
      Print Stdout (str ''a cat on a mat'')])"
  by (simp add: run_simps cpu_env_def sample_env_def sample_inputs_def strip_sample)

lemma main_cpu:
  "main cpu_env sample_argv =
    \<lparr>events = snd (main_body cpu_env
                 \<lparr>image = Py_str (str ''cat.png''), mode = Py_str (str ''booru''), low_vram = False\<rparr>),
     status = 0\<rparr>"
  by (simp add: main_def parse_sample_argv main_body_cpu)

lemma main_broken_image:
  "main broken_image_env sample_argv =
    \<lparr>events =
       [Call Import_deps, Call Cuda_is_available, Call (Image_open (Py_str (str ''cat.png''))),
        Raised (Exn OtherError (str ''cannot identify image file'')),
        Print Stderr (str ''Error opening image: '' @ str ''cannot identify image file'')],
     status = 1\<rparr>"
  by (simp add: main_def parse_sample_argv run_simps broken_image_env_def sample_env_def)

lemma main_out_of_memory:
  "main out_of_memory_env sample_argv =
    \<lparr>events =
       [Call Import_deps, Call Cuda_is_available, Call (Image_open (Py_str (str ''cat.png''))),
        Call (Image_convert (Image_object 0) (str ''RGB'')),
        Call (Processor_from_pretrained model_id),
        Call (BitsAndBytesConfig_call quantization_kwargs),
        Call (Model_from_pretrained model_id (load_kwargs_for (Some (Quant_config_object 0)))),
        Call (Model_eval (Model_object 0)),
        Call (Apply_chat_template (Processor_object 0)
                (convo (dict_get MODE_PROMPTS (str ''booru'') DEFAULT_PROMPT)) False True),
        Call (Processor_call (Processor_object 0) [str ''<chat>''] [Image_object 1] (str ''pt'')),
        Call (Tensor_to (Tensor [1, 3] 0) (To_device (str ''cuda:0''))),
        Call (Tensor_to (Tensor [1, 3] 1) (To_device (str ''cuda:0''))),
        Call (Tensor_to (Tensor [1, 3, 384, 384] 2) (To_device (str ''cuda:0''))),
        Call (Tensor_to (Tensor [1, 3, 384, 384] 2) (To_dtype float16)),
        Call (Generate (Model_object 0) sample_inputs generation_kwargs),
        Raised (Exn OtherError (str ''CUDA out of memory'')),
        Traceback (Exn OtherError (str ''CUDA out of memory''))],
     status = 1\<rparr>"
  by (simp add: main_def parse_sample_argv run_simps out_of_memory_env_def sample_env_def
        sample_inputs_def)

lemma parse_help_first:
  "parse_args ip [str ''-h'', str ''--mode'', str ''bogus''] = Inl Help_exit"
proof -
  have "parse_optional (negative_number ip) (str ''bogus'') = Inr None"
    by (rule parse_optional_plain) (simp add: plain_def str_simps)
  then show ?thesis
    by (simp add: parse_args_def parse_optional_exact default_namespace_def take_action_none)
qed

lemma main_help_first:
  "main env [str ''-h'', str ''--mode'', str ''bogus''] = \<lparr>events = [Print_help], status = 0\<rparr>"
  by (simp add: main_def parse_help_first)

lemma main_mode_dashes:
  "main older_env [str ''--image'', str ''cat.png'', str ''--mode=--''] =
    \<lparr>events =
       [Raised (Exn TypeError (str ''unhashable type: '' @ [39] @ str ''list'' @ [39])),
        Traceback (Exn TypeError (str ''unhashable type: '' @ [39] @ str ''list'' @ [39]))],
     status = 1\<rparr>"
proof -
  have "strips_option_values (interp older_env)" by (simp add: older_env_def)
  from parse_mode_dashes[OF this] show ?thesis
    by (simp add: main_def main_body_list)
qed

section \<open>Properties of the script\<close>

text \<open>
  C2.  In every run in which a step fails, the program prints an error message and exits
  with a non-zero status.  A step fails when an exception is raised: by a library call that
  the environment answers with an exception (the imports, opening or converting the image,
  loading the processor or the model, the chat template, the processor, moving a tensor, the
  generation, the decoding), or by the script's own assertion and subscripts.  The exception
  is raised in the run; the run then ends with status 1, and the last thing it does is to
  print the message of the handler with the text of the exception, or, where no handler
  stands, the traceback, both on standard error.
\<close>

theorem failure_is_reported:
  "(Call c \<in> set (events (main env argv)) \<longrightarrow> answer env c = Some e \<longrightarrow>
      Raised e \<in> set (events (main env argv)))
   \<and> (Raised e \<in> set (events (main env argv)) \<longrightarrow>
        status (main env argv) = 1
        \<and> (\<exists>pre. events (main env argv) = pre @ [Raised e, Traceback e]
                 \<or> (\<exists>label \<in> set error_labels.
                       events (main env argv) = pre @ [Raised e, Print Stderr (label @ exn_text e)])))"
  using main_answers[of c env argv e] main_reported[of e env argv] by blast

theorem failure_is_reported_witness:
  "Call (Image_open (Py_str (str ''cat.png''))) \<in> set (events (main broken_image_env sample_argv))
   \<and> answer broken_image_env (Image_open (Py_str (str ''cat.png'')))
       = Some (Exn OtherError (str ''cannot identify image file''))
   \<and> Raised (Exn OtherError (str ''cannot identify image file''))
       \<in> set (events (main broken_image_env sample_argv))
   \<and> status (main broken_image_env sample_argv) = 1
   \<and> (\<exists>pre. events (main broken_image_env sample_argv) =
        pre @ [Raised (Exn OtherError (str ''cannot identify image file'')),
               Traceback (Exn OtherError (str ''cannot identify image file''))]
      \<or> (\<exists>label \<in> set error_labels.
           events (main broken_image_env sample_argv) =
             pre @ [Raised (Exn OtherError (str ''cannot identify image file'')),
                    Print Stderr (label @ exn_text (Exn OtherError (str ''cannot identify image file'')))]))"
proof -
  have c: "Call (Image_open (Py_str (str ''cat.png''))) \<in> set (events (main broken_image_env sample_argv))"
    by (simp add: main_broken_image)
  have a: "answer broken_image_env (Image_open (Py_str (str ''cat.png'')))
       = Some (Exn OtherError (str ''cannot identify image file''))"
    by (simp add: broken_image_env_def sample_env_def failure_def)
  from failure_is_reported[of "Image_open (Py_str (str ''cat.png''))" broken_image_env sample_argv
      "Exn OtherError (str ''cannot identify image file'')"] c a
  show ?thesis by blast
qed

text \<open>
  C7.  In every run, the conversation given to the chat template has two messages: the
  system message \<^verbatim>\<open>You are a helpful image captioner.\<close>, then a user message whose content
  is the prompt of the selected mode, \<^verbatim>\<open>MODE_PROMPTS[args.mode]\<close>; the template is asked for
  text with the generation prompt added; and the generation of a run comes after this call.
\<close>

theorem chat_prompt_is_two_messages:
  "(Call (Apply_chat_template proc c tok gen) \<in> set (events (main env argv)) \<longrightarrow>
      (\<exists>args mo prompt. parse_args (interp env) argv = Inr args
         \<and> mode args = Py_str mo
         \<and> dict_index MODE_PROMPTS mo = Inr prompt
         \<and> c = [[(str ''role'', str ''system''),
                  (str ''content'', str ''You are a helpful image captioner.'')],
                 [(str ''role'', str ''user''), (str ''content'', prompt)]]
         \<and> tok = False \<and> gen = True))
   \<and> (Call (Generate m i k) \<in> set (events (main env argv)) \<longrightarrow>
      (\<exists>args mo prompt proc. parse_args (interp env) argv = Inr args
         \<and> mode args = Py_str mo
         \<and> dict_index MODE_PROMPTS mo = Inr prompt
         \<and> Call (Apply_chat_template proc (convo prompt) False True) \<in> set (events (main env argv))))"
proof (rule conjI; intro impI)
  assume "Call (Apply_chat_template proc c tok gen) \<in> set (events (main env argv))"
  from main_Call_mode[OF this] obtain args mo prompt where
    p: "parse_args (interp env) argv = Inr args"
    and b: "Call (Apply_chat_template proc c tok gen) \<in> set (snd (main_body env args))"
    and mo: "mode args = Py_str mo"
    and pr: "dict_index MODE_PROMPTS mo = Inr prompt"
    and sp: "fst (select_prompt args) = Return prompt"
    by blast
  from b have "c = convo prompt \<and> tok = False \<and> gen = True"
    unfolding main_body_def Let_def
    by (auto simp: then_do_mem print_simps sp dest!: step_calls)
  with p pr mo show "\<exists>args mo prompt. parse_args (interp env) argv = Inr args
         \<and> mode args = Py_str mo
         \<and> dict_index MODE_PROMPTS mo = Inr prompt
         \<and> c = [[(str ''role'', str ''system''),
                  (str ''content'', str ''You are a helpful image captioner.'')],
                 [(str ''role'', str ''user''), (str ''content'', prompt)]]
         \<and> tok = False \<and> gen = True"
    by (auto simp: convo_def)
next
  assume "Call (Generate m i k) \<in> set (events (main env argv))"
  from main_Call_mode[OF this] obtain args mo prompt where
    p: "parse_args (interp env) argv = Inr args"
    and b: "Call (Generate m i k) \<in> set (snd (main_body env args))"
    and mo: "mode args = Py_str mo"
    and pr: "dict_index MODE_PROMPTS mo = Inr prompt"
    and sp: "fst (select_prompt args) = Return prompt"
    by blast
  from b obtain d img proc q cs where r:
      "fst (import_dependencies env) = Return ()" "fst (select_device env) = Return d"
      "fst (load_image env args) = Return img" "fst (load_processor env) = Return proc"
      "fst (make_bnb_config env args d) = Return q" "fst (load_model env q) = Return m"
      "fst (build_prompt env proc prompt) = Return cs"
    unfolding main_body_def Let_def
    by (auto simp: then_do_mem print_simps sp dest!: step_calls)
  from build_prompt_Return[OF r(7)]
  have "Call (Apply_chat_template proc (convo prompt) False True)
          \<in> set (snd (build_prompt env proc prompt))" by simp
  with r sp have "Call (Apply_chat_template proc (convo prompt) False True)
                  \<in> set (snd (main_body env args))"
    unfolding main_body_def Let_def by (simp add: then_do_mem)
  with p pr mo show "\<exists>args mo prompt proc. parse_args (interp env) argv = Inr args
         \<and> mode args = Py_str mo
         \<and> dict_index MODE_PROMPTS mo = Inr prompt
         \<and> Call (Apply_chat_template proc (convo prompt) False True) \<in> set (events (main env argv))"
    by (auto simp: main_Call)
qed


theorem chat_prompt_is_two_messages_witness:
  "Call (Apply_chat_template (Processor_object 0)
           (convo (dict_get MODE_PROMPTS (str ''booru'') DEFAULT_PROMPT)) False True)
     \<in> set (events (main sample_env sample_argv))
   \<and> Call (Generate (Model_object 0) sample_inputs generation_kwargs)
     \<in> set (events (main sample_env sample_argv))
   \<and> (\<exists>args mo prompt. parse_args (interp sample_env) sample_argv = Inr args
         \<and> mode args = Py_str mo
         \<and> dict_index MODE_PROMPTS mo = Inr prompt
         \<and> convo (dict_get MODE_PROMPTS (str ''booru'') DEFAULT_PROMPT) =
             [[(str ''role'', str ''system''),
               (str ''content'', str ''You are a helpful image captioner.'')],
              [(str ''role'', str ''user''), (str ''content'', prompt)]])
   \<and> (\<exists>args mo prompt proc. parse_args (interp sample_env) sample_argv = Inr args
         \<and> mode args = Py_str mo
         \<and> dict_index MODE_PROMPTS mo = Inr prompt
         \<and> Call (Apply_chat_template proc (convo prompt) False True)
              \<in> set (events (main sample_env sample_argv)))"
proof -
  have h1: "Call (Apply_chat_template (Processor_object 0)
           (convo (dict_get MODE_PROMPTS (str ''booru'') DEFAULT_PROMPT)) False True)
     \<in> set (events (main sample_env sample_argv))"
    by (simp add: main_sample main_body_sample)
  have h2: "Call (Generate (Model_object 0) sample_inputs generation_kwargs)
     \<in> set (events (main sample_env sample_argv))"
    by (simp add: main_sample main_body_sample)
  from chat_prompt_is_two_messages[where env = sample_env and argv = sample_argv
      and proc = "Processor_object 0"
      and c = "convo (dict_get MODE_PROMPTS (str ''booru'') DEFAULT_PROMPT)"
      and tok = False and gen = True
      and m = "Model_object 0" and i = sample_inputs and k = generation_kwargs] h1 h2
  show ?thesis by blast
qed


lemma booru_prompt:
  "map_of MODE_PROMPTS (str ''booru'') = Some (dict_get MODE_PROMPTS (str ''booru'') DEFAULT_PROMPT)"
  by (simp add: MODE_PROMPTS_def dict_get_def)


text \<open>
  C4.  In every run on a CUDA device, the model is loaded with the options object that the
  quantization library builds from \<^verbatim>\<open>load_in_4bit=True\<close>, compute type float16 and
  quantization type \<^verbatim>\<open>nf4\<close>, and with no \<^verbatim>\<open>torch_dtype\<close>; in every run on the CPU no options
  object is built, and the model is loaded with \<^verbatim>\<open>torch_dtype=bfloat16\<close> and no quantization
  options.
\<close>

theorem quantization_follows_device:
  "(cuda_is_available env = Inr True \<longrightarrow>
      Call (Model_from_pretrained name kw) \<in> set (events (main env argv)) \<longrightarrow>
      (\<exists>c. BitsAndBytesConfig env
              \<lparr>load_in_4bit = True, bnb_4bit_compute_dtype = float16,
               bnb_4bit_quant_type = str ''nf4''\<rparr> = Inr c
          \<and> Call (BitsAndBytesConfig_call
                   \<lparr>load_in_4bit = True, bnb_4bit_compute_dtype = float16,
                    bnb_4bit_quant_type = str ''nf4''\<rparr>) \<in> set (events (main env argv))
          \<and> kw = \<lparr>quantization_config = Some c, torch_dtype = None, device_map = str ''auto''\<rparr>))
   \<and> (cuda_is_available env = Inr False \<longrightarrow>
        (\<forall>k. Call (BitsAndBytesConfig_call k) \<notin> set (events (main env argv)))
        \<and> (Call (Model_from_pretrained name kw) \<in> set (events (main env argv)) \<longrightarrow>
             kw = \<lparr>quantization_config = None, torch_dtype = Some bfloat16,
                   device_map = str ''auto''\<rparr>))"
proof (rule conjI; intro impI)
  assume cuda: "cuda_is_available env = Inr True"
    and "Call (Model_from_pretrained name kw) \<in> set (events (main env argv))"
  then obtain args where p: "parse_args (interp env) argv = Inr args"
    and b: "Call (Model_from_pretrained name kw) \<in> set (snd (main_body env args))"
    by (auto simp: main_Call)
  from b obtain prompt d img proc q where d: "fst (select_device env) = Return d"
      and sp: "fst (select_prompt args) = Return prompt"
      and r0: "fst (import_dependencies env) = Return ()"
      "fst (load_image env args) = Return img" "fst (load_processor env) = Return proc"
      "fst (make_bnb_config env args d) = Return q"
      and kw: "kw = load_kwargs_for q"
    unfolding main_body_def Let_def
    by (auto simp: then_do_mem print_simps dest!: step_calls)
  from select_device_Return[OF d] cuda have dc: "d = str ''cuda''" by auto
  from r0 d dc have r:
      "fst (import_dependencies env) = Return ()" "fst (select_device env) = Return (str ''cuda'')"
      "fst (load_image env args) = Return img" "fst (load_processor env) = Return proc"
      "fst (make_bnb_config env args (str ''cuda'')) = Return q"
    by simp_all
  from make_bnb_config_Return[OF r(5)] obtain c where
    c: "BitsAndBytesConfig env quantization_kwargs = Inr c" "q = Some c"
       "snd (make_bnb_config env args (str ''cuda'')) = [Call (BitsAndBytesConfig_call quantization_kwargs)]"
    by auto
  from r c sp have "Call (BitsAndBytesConfig_call quantization_kwargs) \<in> set (snd (main_body env args))"
    unfolding main_body_def Let_def by (simp add: then_do_mem)
  with p have "Call (BitsAndBytesConfig_call quantization_kwargs) \<in> set (events (main env argv))"
    by (auto simp: main_Call)
  with c kw show "\<exists>c. BitsAndBytesConfig env
              \<lparr>load_in_4bit = True, bnb_4bit_compute_dtype = float16,
               bnb_4bit_quant_type = str ''nf4''\<rparr> = Inr c
          \<and> Call (BitsAndBytesConfig_call
                   \<lparr>load_in_4bit = True, bnb_4bit_compute_dtype = float16,
                    bnb_4bit_quant_type = str ''nf4''\<rparr>) \<in> set (events (main env argv))
          \<and> kw = \<lparr>quantization_config = Some c, torch_dtype = None, device_map = str ''auto''\<rparr>"
    by (auto simp: quantization_kwargs_def load_kwargs_for_def)
next
  assume cpu: "cuda_is_available env = Inr False"
  have 1: "Call (BitsAndBytesConfig_call k) \<notin> set (events (main env argv))" for k
  proof
    assume "Call (BitsAndBytesConfig_call k) \<in> set (events (main env argv))"
    then obtain args where "Call (BitsAndBytesConfig_call k) \<in> set (snd (main_body env args))"
      by (auto simp: main_Call)
    with cpu show False
      unfolding main_body_def Let_def
      by (auto simp: then_do_mem print_simps dest!: step_calls dest: select_device_Return)
  qed
  have 2: "kw = \<lparr>quantization_config = None, torch_dtype = Some bfloat16, device_map = str ''auto''\<rparr>"
    if "Call (Model_from_pretrained name kw) \<in> set (events (main env argv))"
  proof -
    from that obtain args where "Call (Model_from_pretrained name kw) \<in> set (snd (main_body env args))"
      by (auto simp: main_Call)
    with cpu obtain d q where d: "fst (select_device env) = Return d"
      and q: "fst (make_bnb_config env args d) = Return q" and kw: "kw = load_kwargs_for q"
      unfolding main_body_def Let_def
      by (auto simp: then_do_mem print_simps dest!: step_calls)
    from select_device_Return[OF d] cpu have "d = str ''cpu''" by auto
    with make_bnb_config_Return[OF q] have "q = None" by auto
    with kw show ?thesis by (simp add: load_kwargs_for_def)
  qed
  from 1 2 show "(\<forall>k. Call (BitsAndBytesConfig_call k) \<notin> set (events (main env argv)))
        \<and> (Call (Model_from_pretrained name kw) \<in> set (events (main env argv)) \<longrightarrow>
             kw = \<lparr>quantization_config = None, torch_dtype = Some bfloat16,
                   device_map = str ''auto''\<rparr>)"
    by blast
qed


theorem quantization_follows_device_witness:
  "cuda_is_available sample_env = Inr True
   \<and> Call (Model_from_pretrained model_id (load_kwargs_for (Some (Quant_config_object 0))))
       \<in> set (events (main sample_env sample_argv))
   \<and> (\<exists>c. BitsAndBytesConfig sample_env
              \<lparr>load_in_4bit = True, bnb_4bit_compute_dtype = float16,
               bnb_4bit_quant_type = str ''nf4''\<rparr> = Inr c
          \<and> load_kwargs_for (Some (Quant_config_object 0)) =
              \<lparr>quantization_config = Some c, torch_dtype = None, device_map = str ''auto''\<rparr>)
   \<and> cuda_is_available cpu_env = Inr False
   \<and> Call (Model_from_pretrained model_id (load_kwargs_for None))
       \<in> set (events (main cpu_env sample_argv))
   \<and> load_kwargs_for None =
       \<lparr>quantization_config = None, torch_dtype = Some bfloat16, device_map = str ''auto''\<rparr>
   \<and> Call (BitsAndBytesConfig_call quantization_kwargs) \<notin> set (events (main cpu_env sample_argv))"
proof -
  have g: "cuda_is_available sample_env = Inr True" by (simp add: sample_env_def)
  have gc: "Call (Model_from_pretrained model_id (load_kwargs_for (Some (Quant_config_object 0))))
       \<in> set (events (main sample_env sample_argv))"
    by (simp add: main_sample main_body_sample)
  have n: "cuda_is_available cpu_env = Inr False" by (simp add: cpu_env_def sample_env_def)
  have nc: "Call (Model_from_pretrained model_id (load_kwargs_for None))
       \<in> set (events (main cpu_env sample_argv))"
    by (simp add: main_cpu main_body_cpu)
  from quantization_follows_device[of sample_env model_id
      "load_kwargs_for (Some (Quant_config_object 0))" sample_argv] g gc
  have 1: "\<exists>c. BitsAndBytesConfig sample_env
              \<lparr>load_in_4bit = True, bnb_4bit_compute_dtype = float16,
               bnb_4bit_quant_type = str ''nf4''\<rparr> = Inr c
          \<and> load_kwargs_for (Some (Quant_config_object 0)) =
              \<lparr>quantization_config = Some c, torch_dtype = None, device_map = str ''auto''\<rparr>"
    by blast
  from quantization_follows_device[of cpu_env model_id "load_kwargs_for None" sample_argv] n nc
  have 2: "load_kwargs_for None =
       \<lparr>quantization_config = None, torch_dtype = Some bfloat16, device_map = str ''auto''\<rparr>
     \<and> Call (BitsAndBytesConfig_call quantization_kwargs) \<notin> set (events (main cpu_env sample_argv))"
    by blast
  from g gc n nc 1 2 show ?thesis by blast
qed

lemma quiet_no_stdout: "quiet p \<Longrightarrow> Print Stdout t \<notin> set (snd p)"
  by (auto simp: quiet_iff)

lemmas steps_no_stdout = quiet_steps[THEN quiet_no_stdout]

lemmas calls_before_decoding = import_dependencies_call select_device_call load_image_call
  load_processor_call make_bnb_config_call load_model_call build_prompt_call prepare_inputs_call
  run_generation_call

text \<open>
  C9.  In every run, the tokens given to the decoder are the first generated sequence
  without its first \<^verbatim>\<open>inputs["input_ids"].shape[1]\<close> tokens, the length of the prompt: the
  tokens of the prompt, which the generation echoes, are dropped before decoding, with
  \<^verbatim>\<open>skip_special_tokens=True\<close> and \<^verbatim>\<open>clean_up_tokenization_spaces=False\<close>.  The caption that
  is printed is the stripped text that the decoder gave for these tokens.
\<close>

theorem caption_from_new_tokens:
  "(Call (Decode proc toks skip clean) \<in> set (events (main env argv)) \<longrightarrow>
      (\<exists>m inputs ids others t.
          Call (Generate m inputs generation_kwargs) \<in> set (events (main env argv))
        \<and> generate env m inputs generation_kwargs = Inr (ids # others)
        \<and> map_of inputs (str ''input_ids'') = Some (Tens t) \<and> 1 < length (shape t)
        \<and> toks = drop (shape t ! 1) ids
        \<and> ids = take (shape t ! 1) ids @ toks
        \<and> skip = True \<and> clean = False))
   \<and> (Print Stdout caption \<in> set (events (main env argv)) \<longrightarrow>
      (\<exists>proc toks raw.
          Call (Decode proc toks True False) \<in> set (events (main env argv))
        \<and> decode env proc toks True False = Inr raw
        \<and> caption = strip raw))"
proof (rule conjI; intro impI)
  assume "Call (Decode proc toks skip clean) \<in> set (events (main env argv))"
  then obtain args where p: "parse_args (interp env) argv = Inr args"
    and b: "Call (Decode proc toks skip clean) \<in> set (snd (main_body env args))"
    by (auto simp: main_Call)
  from b obtain prompt d img pr q m cs inputs ids where r:
      "fst (import_dependencies env) = Return ()" "fst (select_device env) = Return d"
      "fst (load_image env args) = Return img" "fst (load_processor env) = Return pr"
      "fst (make_bnb_config env args d) = Return q" "fst (load_model env q) = Return m"
      "fst (build_prompt env pr prompt) = Return cs"
      "fst (prepare_inputs env pr m cs img) = Return inputs"
      "fst (run_generation env m inputs) = Return ids"
      "fst (select_prompt args) = Return prompt"
    and c: "Call (Decode proc toks skip clean) \<in> set (snd (decode_output env pr inputs ids))"
    unfolding main_body_def Let_def
    by (auto simp: then_do_mem print_simps dest!: calls_before_decoding)
  from decode_output_call[OF c] obtain t where
    t: "map_of inputs (str ''input_ids'') = Some (Tens t)" "1 < length (shape t)"
       "toks = drop (shape t ! 1) ids" "skip = True" "clean = False" by auto
  from run_generation_Return[OF r(9)] obtain others where
    g: "generate env m inputs generation_kwargs = Inr (ids # others)"
       "snd (run_generation env m inputs) = [Call (Generate m inputs generation_kwargs)]" by auto
  from r g have "Call (Generate m inputs generation_kwargs) \<in> set (snd (main_body env args))"
    unfolding main_body_def Let_def by (simp add: then_do_mem)
  with p have "Call (Generate m inputs generation_kwargs) \<in> set (events (main env argv))"
    by (auto simp: main_Call)
  with t g show "\<exists>m inputs ids others t.
          Call (Generate m inputs generation_kwargs) \<in> set (events (main env argv))
        \<and> generate env m inputs generation_kwargs = Inr (ids # others)
        \<and> map_of inputs (str ''input_ids'') = Some (Tens t) \<and> 1 < length (shape t)
        \<and> toks = drop (shape t ! 1) ids
        \<and> ids = take (shape t ! 1) ids @ toks
        \<and> skip = True \<and> clean = False"
    by (intro exI[of _ m] exI[of _ inputs] exI[of _ ids] exI[of _ others] exI[of _ t]) simp
next
  assume a: "Print Stdout caption \<in> set (events (main env argv))"
  show "\<exists>proc toks raw.
          Call (Decode proc toks True False) \<in> set (events (main env argv))
        \<and> decode env proc toks True False = Inr raw
        \<and> caption = strip raw"
  proof (cases "parse_args (interp env) argv")
    case (Inl x)
    with a show ?thesis by (cases x) (simp_all add: main_rejected)
  next
    case (Inr args)
    with a have b: "Print Stdout caption \<in> set (snd (main_body env args))"
      by (auto simp: main_accepted split: result.splits)
    from b obtain prompt d img pr q m cs inputs ids where r:
      "fst (import_dependencies env) = Return ()" "fst (select_device env) = Return d"
      "fst (load_image env args) = Return img" "fst (load_processor env) = Return pr"
      "fst (make_bnb_config env args d) = Return q" "fst (load_model env q) = Return m"
      "fst (build_prompt env pr prompt) = Return cs"
      "fst (prepare_inputs env pr m cs img) = Return inputs"
      "fst (run_generation env m inputs) = Return ids"
      "fst (decode_output env pr inputs ids) = Return caption"
      "fst (select_prompt args) = Return prompt"
      unfolding main_body_def Let_def
      by (auto simp: then_do_mem print_simps steps_no_stdout)
    from decode_output_Return[OF r(10)] obtain t raw where
      d: "decode env pr (drop (shape t ! 1) ids) True False = Inr raw" "caption = strip raw"
         "snd (decode_output env pr inputs ids) =
            [Call (Decode pr (drop (shape t ! 1) ids) True False)]" by auto
    from r d have "Call (Decode pr (drop (shape t ! 1) ids) True False)
                     \<in> set (snd (main_body env args))"
      unfolding main_body_def Let_def by (simp add: then_do_mem)
    with Inr have "Call (Decode pr (drop (shape t ! 1) ids) True False)
                     \<in> set (events (main env argv))"
      by (auto simp: main_Call)
    with d show ?thesis by blast
  qed
qed

theorem caption_from_new_tokens_witness:
  "Call (Decode (Processor_object 0) [21, 22, 23] True False)
     \<in> set (events (main sample_env sample_argv))
   \<and> Print Stdout (str ''a cat on a mat'') \<in> set (events (main sample_env sample_argv))
   \<and> (\<exists>m inputs ids others t.
          Call (Generate m inputs generation_kwargs) \<in> set (events (main sample_env sample_argv))
        \<and> generate sample_env m inputs generation_kwargs = Inr (ids # others)
        \<and> map_of inputs (str ''input_ids'') = Some (Tens t) \<and> 1 < length (shape t)
        \<and> [21, 22, 23] = drop (shape t ! 1) ids)
   \<and> (\<exists>proc toks raw.
          Call (Decode proc toks True False) \<in> set (events (main sample_env sample_argv))
        \<and> decode sample_env proc toks True False = Inr raw
        \<and> str ''a cat on a mat'' = strip raw)"
proof -
  have h1: "Call (Decode (Processor_object 0) [21, 22, 23] True False)
     \<in> set (events (main sample_env sample_argv))"
    by (simp add: main_sample main_body_sample)
  have h2: "Print Stdout (str ''a cat on a mat'') \<in> set (events (main sample_env sample_argv))"
    by (simp add: main_sample main_body_sample)
  from caption_from_new_tokens[where env = sample_env and argv = sample_argv
      and proc = "Processor_object 0" and toks = "[21, 22, 23]" and skip = True and clean = False
      and caption = "str ''a cat on a mat''"] h1 h2
  show ?thesis by blast
qed

lemma load_image_convert:
  assumes "Call (Image_convert img md) \<in> set (snd (load_image env args))"
  shows "image_open env (image args) = Inr img \<and> md = str ''RGB''
       \<and> calls (snd (load_image env args)) =
           [Image_open (image args), Image_convert img (str ''RGB'')]"
proof -
  from load_image_call[OF assms] have o: "image_open env (image args) = Inr img" "md = str ''RGB''"
    by auto
  then have "calls (snd (load_image env args)) =
           [Image_open (image args), Image_convert img (str ''RGB'')]"
    by (cases "image_convert env img (str ''RGB'')")
       (simp_all add: load_image_def prim_defs calls_simps)
  with o show ?thesis by simp
qed

lemma calls_main:
  "parse_args (interp env) argv = Inr args \<Longrightarrow>
     calls (events (main env argv)) = calls (snd (main_body env args))"
  by (cases "fst (main_body env args)")
     (simp_all add: main_accepted calls_append calls_def List.map_filter_def)

text \<open>
  C10.  In every run, the image handed to the processor is the result of converting the
  opened image to RGB, whatever the opened image is; the conversion is the library call
  right after the opening.  When opening or converting raises, the run ends with status 1
  and neither the processor nor the model is loaded.
\<close>

theorem image_is_converted_to_RGB:
  "(Call (Processor_call proc texts imgs rt) \<in> set (events (main env argv)) \<longrightarrow>
      (\<exists>args opened rgb. parse_args (interp env) argv = Inr args
         \<and> image_open env (image args) = Inr opened
         \<and> image_convert env opened (str ''RGB'') = Inr rgb
         \<and> imgs = [rgb]))
   \<and> (Call (Image_convert img md) \<in> set (events (main env argv)) \<longrightarrow>
      (\<exists>args pre post. parse_args (interp env) argv = Inr args
         \<and> image_open env (image args) = Inr img \<and> md = str ''RGB''
         \<and> calls (events (main env argv)) =
             pre @ [Image_open (image args), Image_convert img (str ''RGB'')] @ post))
   \<and> (parse_args (interp env) argv = Inr args \<longrightarrow>
      (\<exists>e. image_open env (image args) = Inl e
           \<or> (\<exists>opened. image_open env (image args) = Inr opened
                 \<and> image_convert env opened (str ''RGB'') = Inl e)) \<longrightarrow>
      status (main env argv) = 1
      \<and> (\<forall>name. Call (Processor_from_pretrained name) \<notin> set (events (main env argv)))
      \<and> (\<forall>name kw. Call (Model_from_pretrained name kw) \<notin> set (events (main env argv))))"
proof (intro conjI; intro impI)
  assume "Call (Processor_call proc texts imgs rt) \<in> set (events (main env argv))"
  then obtain args where p: "parse_args (interp env) argv = Inr args"
    and b: "Call (Processor_call proc texts imgs rt) \<in> set (snd (main_body env args))"
    by (auto simp: main_Call)
  from b obtain rgb where "fst (load_image env args) = Return rgb" "imgs = [rgb]"
    unfolding main_body_def Let_def
    by (auto simp: then_do_mem print_simps dest!: step_calls)
  with load_image_Return[of env args rgb] p
  show "\<exists>args opened rgb. parse_args (interp env) argv = Inr args
         \<and> image_open env (image args) = Inr opened
         \<and> image_convert env opened (str ''RGB'') = Inr rgb
         \<and> imgs = [rgb]"
    by auto
next
  assume "Call (Image_convert img md) \<in> set (events (main env argv))"
  then obtain args where p: "parse_args (interp env) argv = Inr args"
    and b: "Call (Image_convert img md) \<in> set (snd (main_body env args))"
    by (auto simp: main_Call)
  from b obtain prompt d where r: "fst (import_dependencies env) = Return ()"
      "fst (select_device env) = Return d" "fst (select_prompt args) = Return prompt"
    and c: "Call (Image_convert img md) \<in> set (snd (load_image env args))"
    unfolding main_body_def Let_def
    by (auto simp: then_do_mem print_simps
        dest!: import_dependencies_call select_device_call load_processor_call
          make_bnb_config_call load_model_call build_prompt_call prepare_inputs_call
          run_generation_call decode_output_call)
  from load_image_convert[OF c] have o: "image_open env (image args) = Inr img" "md = str ''RGB''"
    and l: "calls (snd (load_image env args)) =
           [Image_open (image args), Image_convert img (str ''RGB'')]" by auto
  from r obtain rest where "snd (main_body env args) =
      snd (import_dependencies env) @ snd (select_device env) @ snd (load_image env args) @ rest"
    unfolding main_body_def Let_def by (simp add: then_do_events select_prompt_Return_events)
  then have "calls (snd (main_body env args)) =
      (calls (snd (import_dependencies env)) @ calls (snd (select_device env))) @
      [Image_open (image args), Image_convert img (str ''RGB'')] @ calls rest"
    by (simp add: calls_append l)
  with p o show "\<exists>args pre post. parse_args (interp env) argv = Inr args
         \<and> image_open env (image args) = Inr img \<and> md = str ''RGB''
         \<and> calls (events (main env argv)) =
             pre @ [Image_open (image args), Image_convert img (str ''RGB'')] @ post"
    using calls_main[OF p] by metis
next
  assume p: "parse_args (interp env) argv = Inr args"
    and f: "\<exists>e. image_open env (image args) = Inl e
           \<or> (\<exists>opened. image_open env (image args) = Inr opened
                 \<and> image_convert env opened (str ''RGB'') = Inl e)"
  have n: "fst (load_image env args) \<noteq> Return rgb" for rgb
    using f load_image_Return[of env args rgb] by auto
  have 1: "Call (Processor_from_pretrained name) \<notin> set (events (main env argv))" for name
  proof
    assume "Call (Processor_from_pretrained name) \<in> set (events (main env argv))"
    with p have "Call (Processor_from_pretrained name) \<in> set (snd (main_body env args))"
      by (simp add: main_Call)
    with n show False
      unfolding main_body_def Let_def
      by (auto simp: then_do_mem print_simps dest!: step_calls)
  qed
  have 2: "Call (Model_from_pretrained name kw) \<notin> set (events (main env argv))" for name kw
  proof
    assume "Call (Model_from_pretrained name kw) \<in> set (events (main env argv))"
    with p have "Call (Model_from_pretrained name kw) \<in> set (snd (main_body env args))"
      by (simp add: main_Call)
    with n show False
      unfolding main_body_def Let_def
      by (auto simp: then_do_mem print_simps dest!: step_calls)
  qed
  have "fst (main_body env args) \<noteq> Return u" for u
    using n main_body_Return[of env args u] by auto
  then have 3: "status (main env argv) = 1"
    using main_accepted[OF p] main_body_Exit[of env args]
    by (cases "fst (main_body env args)") auto
  from 1 2 3 show "status (main env argv) = 1
      \<and> (\<forall>name. Call (Processor_from_pretrained name) \<notin> set (events (main env argv)))
      \<and> (\<forall>name kw. Call (Model_from_pretrained name kw) \<notin> set (events (main env argv)))"
    by blast
qed

theorem image_is_converted_to_RGB_witness:
  "Call (Processor_call (Processor_object 0) [str ''<chat>''] [Image_object 1] (str ''pt''))
     \<in> set (events (main sample_env sample_argv))
   \<and> Call (Image_convert (Image_object 0) (str ''RGB'')) \<in> set (events (main sample_env sample_argv))
   \<and> parse_args (interp broken_image_env) sample_argv =
       Inr \<lparr>image = Py_str (str ''cat.png''), mode = Py_str (str ''booru''), low_vram = False\<rparr>
   \<and> image_open broken_image_env (Py_str (str ''cat.png'')) =
       Inl (Exn OtherError (str ''cannot identify image file''))
   \<and> (\<exists>args opened rgb. parse_args (interp sample_env) sample_argv = Inr args
         \<and> image_open sample_env (image args) = Inr opened
         \<and> image_convert sample_env opened (str ''RGB'') = Inr rgb
         \<and> [Image_object 1] = [rgb])
   \<and> (\<exists>args pre post. parse_args (interp sample_env) sample_argv = Inr args
         \<and> calls (events (main sample_env sample_argv)) =
             pre @ [Image_open (image args), Image_convert (Image_object 0) (str ''RGB'')] @ post)
   \<and> status (main broken_image_env sample_argv) = 1
   \<and> Call (Processor_from_pretrained model_id) \<notin> set (events (main broken_image_env sample_argv))"
proof -
  have h1: "Call (Processor_call (Processor_object 0) [str ''<chat>''] [Image_object 1] (str ''pt''))
     \<in> set (events (main sample_env sample_argv))"
    by (simp add: main_sample main_body_sample)
  have h2: "Call (Image_convert (Image_object 0) (str ''RGB''))
     \<in> set (events (main sample_env sample_argv))"
    by (simp add: main_sample main_body_sample)
  have h3: "parse_args (interp broken_image_env) sample_argv =
       Inr \<lparr>image = Py_str (str ''cat.png''), mode = Py_str (str ''booru''), low_vram = False\<rparr>"
    by (rule parse_sample_argv)
  have h4: "image_open broken_image_env (Py_str (str ''cat.png'')) =
       Inl (Exn OtherError (str ''cannot identify image file''))"
    by (simp add: broken_image_env_def sample_env_def)
  note a = image_is_converted_to_RGB[where env = sample_env and argv = sample_argv
      and proc = "Processor_object 0" and texts = "[str ''<chat>'']" and imgs = "[Image_object 1]"
      and rt = "str ''pt''" and img = "Image_object 0" and md = "str ''RGB''"]
  note b = image_is_converted_to_RGB[where env = broken_image_env and argv = sample_argv
      and args = "\<lparr>image = Py_str (str ''cat.png''), mode = Py_str (str ''booru''), low_vram = False\<rparr>"]
  from a h1 h2 have 1: "\<exists>args opened rgb. parse_args (interp sample_env) sample_argv = Inr args
         \<and> image_open sample_env (image args) = Inr opened
         \<and> image_convert sample_env opened (str ''RGB'') = Inr rgb
         \<and> [Image_object 1] = [rgb]"
    and 2: "\<exists>args pre post. parse_args (interp sample_env) sample_argv = Inr args
         \<and> calls (events (main sample_env sample_argv)) =
             pre @ [Image_open (image args), Image_convert (Image_object 0) (str ''RGB'')] @ post"
    by blast+
  from b h3 h4 have 3: "status (main broken_image_env sample_argv) = 1
     \<and> Call (Processor_from_pretrained model_id) \<notin> set (events (main broken_image_env sample_argv))"
    by auto
  from h1 h2 h3 h4 1 2 3 show ?thesis by blast
qed

lemma calls_Traceback: "calls [Traceback e] = []" "calls [Print s t] = []" "calls [Print_help] = []"
  "calls [Print_usage_error x] = []"
  by (simp_all add: calls_def List.map_filter_def)


lemma homogeneous:
  "(\<And>c. Call c \<in> set evs \<Longrightarrow> step_of c = k) \<Longrightarrow> \<forall>c \<in> set (calls evs). step_of c = k"
  by (simp add: set_calls)

text \<open>
  C5.  A successful run makes its library calls in the fixed sequence: after the imports and
  the GPU query come the calls that load the image, then those that load the processor, then
  those that load the model, then the chat template, then the calls of the generation, then
  the decoding, each of the six with at least one call.  In every run the calls follow this
  order, and a call that raises is the last library call of the run: no later step is reached
  before an earlier one has completed.
\<close>

theorem calls_in_fixed_sequence:
  "(successful env argv \<longrightarrow>
      (\<exists>pre s1 s2 s3 s4 s5 s6.
          calls (events (main env argv)) = pre @ s1 @ s2 @ s3 @ s4 @ s5 @ s6
        \<and> (\<forall>c \<in> set pre. step_of c = None)
        \<and> s1 \<noteq> [] \<and> (\<forall>c \<in> set s1. step_of c = Some Load_image)
        \<and> s2 \<noteq> [] \<and> (\<forall>c \<in> set s2. step_of c = Some Load_processor)
        \<and> s3 \<noteq> [] \<and> (\<forall>c \<in> set s3. step_of c = Some Load_model)
        \<and> s4 \<noteq> [] \<and> (\<forall>c \<in> set s4. step_of c = Some Build_prompt)
        \<and> s5 \<noteq> [] \<and> (\<forall>c \<in> set s5. step_of c = Some Run_generation)
        \<and> s6 \<noteq> [] \<and> (\<forall>c \<in> set s6. step_of c = Some Decode_output)))
   \<and> sorted (map (\<lambda>c. step_index (step_of c)) (calls (events (main env argv))))
   \<and> (Raised e \<in> set (events (main env argv)) \<longrightarrow>
        (\<exists>pre post. events (main env argv) = pre @ Raised e # post \<and> calls post = []))"
proof (intro conjI)
  show "successful env argv \<longrightarrow>
      (\<exists>pre s1 s2 s3 s4 s5 s6.
          calls (events (main env argv)) = pre @ s1 @ s2 @ s3 @ s4 @ s5 @ s6
        \<and> (\<forall>c \<in> set pre. step_of c = None)
        \<and> s1 \<noteq> [] \<and> (\<forall>c \<in> set s1. step_of c = Some Load_image)
        \<and> s2 \<noteq> [] \<and> (\<forall>c \<in> set s2. step_of c = Some Load_processor)
        \<and> s3 \<noteq> [] \<and> (\<forall>c \<in> set s3. step_of c = Some Load_model)
        \<and> s4 \<noteq> [] \<and> (\<forall>c \<in> set s4. step_of c = Some Build_prompt)
        \<and> s5 \<noteq> [] \<and> (\<forall>c \<in> set s5. step_of c = Some Run_generation)
        \<and> s6 \<noteq> [] \<and> (\<forall>c \<in> set s6. step_of c = Some Decode_output))"
  proof
    assume "successful env argv"
    then obtain args u where p: "parse_args (interp env) argv = Inr args"
      and u: "fst (main_body env args) = Return u" by (auto simp: successful_iff)
    from main_body_Return[OF u] obtain prompt d img pr q m cs inputs ids caption where r:
      "fst (load_image env args) = Return img" "fst (load_processor env) = Return pr"
      "fst (load_model env q) = Return m" "fst (build_prompt env pr prompt) = Return cs"
      "fst (run_generation env m inputs) = Return ids"
      "fst (decode_output env pr inputs ids) = Return caption"
      and ev: "snd (main_body env args) =
       snd (import_dependencies env) @ snd (select_device env) @ snd (load_image env args) @
       snd (load_processor env) @ snd (make_bnb_config env args d) @ snd (load_model env q) @
       snd (build_prompt env pr prompt) @
       snd (prepare_inputs env pr m cs img) @ snd (run_generation env m inputs) @
       snd (decode_output env pr inputs ids) @ [Print Stdout caption]"
      by blast
    let ?pre = "calls (snd (import_dependencies env)) @ calls (snd (select_device env))"
    let ?s1 = "calls (snd (load_image env args))"
    let ?s2 = "calls (snd (load_processor env))"
    let ?s3 = "calls (snd (make_bnb_config env args d)) @ calls (snd (load_model env q))"
    let ?s4 = "calls (snd (build_prompt env pr prompt))"
    let ?s5 = "calls (snd (prepare_inputs env pr m cs img)) @ calls (snd (run_generation env m inputs))"
    let ?s6 = "calls (snd (decode_output env pr inputs ids))"
    have c: "calls (events (main env argv)) = ?pre @ ?s1 @ ?s2 @ ?s3 @ ?s4 @ ?s5 @ ?s6"
      by (simp add: calls_main[OF p] ev calls_append calls_Traceback)
    have h0: "\<forall>c \<in> set ?pre. step_of c = None"
      by (auto simp: set_calls dest!: step_calls)
    have h1: "\<forall>c \<in> set ?s1. step_of c = Some Load_image"
      by (auto simp: set_calls dest!: step_calls)
    have h2: "\<forall>c \<in> set ?s2. step_of c = Some Load_processor"
      by (auto simp: set_calls dest!: step_calls)
    have h3: "\<forall>c \<in> set ?s3. step_of c = Some Load_model"
      by (auto simp: set_calls dest!: step_calls)
    have h4: "\<forall>c \<in> set ?s4. step_of c = Some Build_prompt"
      by (auto simp: set_calls dest!: step_calls)
    have h5: "\<forall>c \<in> set ?s5. step_of c = Some Run_generation"
      by (auto simp: set_calls dest!: step_calls)
    have h6: "\<forall>c \<in> set ?s6. step_of c = Some Decode_output"
      by (auto simp: set_calls dest!: step_calls)
    have n1: "?s1 \<noteq> []" using load_image_Return[OF r(1)] by (auto simp: calls_simps)
    have n2: "?s2 \<noteq> []" using load_processor_Return[OF r(2)] by (auto simp: calls_simps)
    have n3: "?s3 \<noteq> []" using load_model_Return[OF r(3)] by (auto simp: calls_simps)
    have n4: "?s4 \<noteq> []" using build_prompt_Return[OF r(4)] by (auto simp: calls_simps)
    have n5: "?s5 \<noteq> []" using run_generation_Return[OF r(5)] by (auto simp: calls_simps)
    have n6: "?s6 \<noteq> []" using decode_output_Return[OF r(6)] by (auto simp: calls_simps)
    from c h0 h1 h2 h3 h4 h5 h6 n1 n2 n3 n4 n5 n6
    show "\<exists>pre s1 s2 s3 s4 s5 s6.
          calls (events (main env argv)) = pre @ s1 @ s2 @ s3 @ s4 @ s5 @ s6
        \<and> (\<forall>c \<in> set pre. step_of c = None)
        \<and> s1 \<noteq> [] \<and> (\<forall>c \<in> set s1. step_of c = Some Load_image)
        \<and> s2 \<noteq> [] \<and> (\<forall>c \<in> set s2. step_of c = Some Load_processor)
        \<and> s3 \<noteq> [] \<and> (\<forall>c \<in> set s3. step_of c = Some Load_model)
        \<and> s4 \<noteq> [] \<and> (\<forall>c \<in> set s4. step_of c = Some Build_prompt)
        \<and> s5 \<noteq> [] \<and> (\<forall>c \<in> set s5. step_of c = Some Run_generation)
        \<and> s6 \<noteq> [] \<and> (\<forall>c \<in> set s6. step_of c = Some Decode_output)"
      by blast
  qed
next
  show "sorted (map (\<lambda>c. step_index (step_of c)) (calls (events (main env argv))))"
  proof (cases "parse_args (interp env) argv")
    case (Inl x)
    then show ?thesis by (cases x) (simp_all add: main_rejected calls_Traceback)
  next
    case (Inr args)
    with in_steps_main_body[of env args] show ?thesis
      by (simp add: calls_main in_steps_def)
  qed
next
  show "Raised e \<in> set (events (main env argv)) \<longrightarrow>
        (\<exists>pre post. events (main env argv) = pre @ Raised e # post \<and> calls post = [])"
  proof
    assume "Raised e \<in> set (events (main env argv))"
    from main_reported[OF this] obtain pre where
      "events (main env argv) = pre @ [Raised e, Traceback e]
       \<or> (\<exists>label \<in> set error_labels.
            events (main env argv) = pre @ [Raised e, Print Stderr (label @ exn_text e)])"
      by blast
    then show "\<exists>pre post. events (main env argv) = pre @ Raised e # post \<and> calls post = []"
    proof
      assume "events (main env argv) = pre @ [Raised e, Traceback e]"
      then show ?thesis
        by (intro exI[of _ pre] exI[of _ "[Traceback e]"]) (simp add: calls_Traceback)
    next
      assume "\<exists>label \<in> set error_labels.
            events (main env argv) = pre @ [Raised e, Print Stderr (label @ exn_text e)]"
      then obtain label where
        "events (main env argv) = pre @ [Raised e, Print Stderr (label @ exn_text e)]" by blast
      then show ?thesis
        by (intro exI[of _ pre] exI[of _ "[Print Stderr (label @ exn_text e)]"])
           (simp add: calls_Traceback)
    qed
  qed
qed


theorem calls_in_fixed_sequence_witness:
  "successful sample_env sample_argv
   \<and> Raised (Exn OtherError (str ''CUDA out of memory''))
       \<in> set (events (main out_of_memory_env sample_argv))
   \<and> (\<exists>pre s1 s2 s3 s4 s5 s6.
          calls (events (main sample_env sample_argv)) = pre @ s1 @ s2 @ s3 @ s4 @ s5 @ s6
        \<and> (\<forall>c \<in> set pre. step_of c = None)
        \<and> s1 \<noteq> [] \<and> (\<forall>c \<in> set s1. step_of c = Some Load_image)
        \<and> s2 \<noteq> [] \<and> (\<forall>c \<in> set s2. step_of c = Some Load_processor)
        \<and> s3 \<noteq> [] \<and> (\<forall>c \<in> set s3. step_of c = Some Load_model)
        \<and> s4 \<noteq> [] \<and> (\<forall>c \<in> set s4. step_of c = Some Build_prompt)
        \<and> s5 \<noteq> [] \<and> (\<forall>c \<in> set s5. step_of c = Some Run_generation)
        \<and> s6 \<noteq> [] \<and> (\<forall>c \<in> set s6. step_of c = Some Decode_output))
   \<and> (\<exists>pre post. events (main out_of_memory_env sample_argv) =
          pre @ Raised (Exn OtherError (str ''CUDA out of memory'')) # post \<and> calls post = [])"
proof -
  have r: "Raised (Exn OtherError (str ''CUDA out of memory''))
       \<in> set (events (main out_of_memory_env sample_argv))"
    by (simp add: main_out_of_memory)
  from calls_in_fixed_sequence[of sample_env sample_argv] successful_sample
  have 1: "\<exists>pre s1 s2 s3 s4 s5 s6.
          calls (events (main sample_env sample_argv)) = pre @ s1 @ s2 @ s3 @ s4 @ s5 @ s6
        \<and> (\<forall>c \<in> set pre. step_of c = None)
        \<and> s1 \<noteq> [] \<and> (\<forall>c \<in> set s1. step_of c = Some Load_image)
        \<and> s2 \<noteq> [] \<and> (\<forall>c \<in> set s2. step_of c = Some Load_processor)
        \<and> s3 \<noteq> [] \<and> (\<forall>c \<in> set s3. step_of c = Some Load_model)
        \<and> s4 \<noteq> [] \<and> (\<forall>c \<in> set s4. step_of c = Some Build_prompt)
        \<and> s5 \<noteq> [] \<and> (\<forall>c \<in> set s5. step_of c = Some Run_generation)
        \<and> s6 \<noteq> [] \<and> (\<forall>c \<in> set s6. step_of c = Some Decode_output)"
    by blast
  from calls_in_fixed_sequence[of out_of_memory_env sample_argv
      "Exn OtherError (str ''CUDA out of memory'')"] r
  have 2: "\<exists>pre post. events (main out_of_memory_env sample_argv) =
          pre @ Raised (Exn OtherError (str ''CUDA out of memory'')) # post \<and> calls post = []"
    by blast
  from successful_sample r 1 2 show ?thesis by blast
qed

lemma rev_split: "xs = rev (dropWhile P (rev xs)) @ rev (takeWhile P (rev xs))"
proof -
  have "rev (takeWhile P (rev xs) @ dropWhile P (rev xs)) = rev (rev xs)"
    by (simp only: takeWhile_dropWhile_id)
  then show ?thesis by (simp only: rev_append rev_rev_ident)
qed

lemma strip_spec:
  "\<exists>a b. raw = a @ strip raw @ b \<and> list_all isspace a \<and> list_all isspace b"
proof -
  let ?d = "dropWhile isspace raw"
  have 1: "raw = takeWhile isspace raw @ ?d" by simp
  have 2: "?d = strip raw @ rev (takeWhile isspace (rev ?d))"
    unfolding strip_def by (rule rev_split)
  have 3: "list_all isspace (takeWhile isspace raw)"
    by (auto simp: list_all_iff dest: set_takeWhileD)
  have 4: "list_all isspace (rev (takeWhile isspace (rev ?d)))"
    by (auto simp: list_all_iff dest: set_takeWhileD)
  from 1 2 have "raw = takeWhile isspace raw @ strip raw @ rev (takeWhile isspace (rev ?d))"
    by metis
  with 3 4 show ?thesis by blast
qed

lemma strip_ends:
  assumes "strip raw \<noteq> []"
  shows "\<not> isspace (hd (strip raw)) \<and> \<not> isspace (last (strip raw))"
proof -
  let ?d = "dropWhile isspace raw"
  let ?r = "dropWhile isspace (rev ?d)"
  from assms have r: "?r \<noteq> []" by (simp add: strip_def)
  then have l: "\<not> isspace (hd ?r)" by (rule hd_dropWhile)
  from r have "last (strip raw) = hd ?r" by (simp add: strip_def last_rev)
  with l have a: "\<not> isspace (last (strip raw))" by simp
  have d: "?d = strip raw @ rev (takeWhile isspace (rev ?d))"
    unfolding strip_def by (rule rev_split)
  with assms have dn: "?d \<noteq> []" by (metis append_is_Nil_conv)
  from d assms have "hd ?d = hd (strip raw)" by (metis hd_append2)
  moreover from dn have "\<not> isspace (hd ?d)" by (rule hd_dropWhile)
  ultimately show ?thesis using a by simp
qed

lemma written_append: "written s (xs @ ys) = written s xs @ written s ys"
  by (simp add: written_def)

text \<open>
  C6.  In a successful run, the only thing the script writes to standard output is one
  caption: the
  text that the decoder returned, with its leading and trailing whitespace stripped.  A run
  that ends with a non-zero status writes nothing to standard output, and nothing is printed
  to standard output in a run that is not successful: every error message and every warning
  goes to standard error.
\<close>

theorem stdout_is_the_caption:
  "(successful env argv \<longrightarrow>
      (\<exists>proc toks raw.
          Call (Decode proc toks True False) \<in> set (events (main env argv))
        \<and> decode env proc toks True False = Inr raw
        \<and> written Stdout (events (main env argv)) = [Print Stdout (strip raw)]))
   \<and> (status (main env argv) \<noteq> 0 \<longrightarrow> written Stdout (events (main env argv)) = [])
   \<and> (Print Stdout msg \<in> set (events (main env argv)) \<longrightarrow> successful env argv)
   \<and> (\<exists>a b. raw = a @ strip raw @ b \<and> list_all isspace a \<and> list_all isspace b)
   \<and> (strip raw \<noteq> [] \<longrightarrow> \<not> isspace (hd (strip raw)) \<and> \<not> isspace (last (strip raw)))"
proof (intro conjI)
  show "successful env argv \<longrightarrow>
      (\<exists>proc toks raw.
          Call (Decode proc toks True False) \<in> set (events (main env argv))
        \<and> decode env proc toks True False = Inr raw
        \<and> written Stdout (events (main env argv)) = [Print Stdout (strip raw)])"
  proof
    assume "successful env argv"
    then obtain args u where p: "parse_args (interp env) argv = Inr args"
      and u: "fst (main_body env args) = Return u" by (auto simp: successful_iff)
    from main_body_Return[OF u] obtain prompt d img pr q m cs inputs ids caption where
      r: "fst (decode_output env pr inputs ids) = Return caption"
      and ev: "snd (main_body env args) =
       snd (import_dependencies env) @ snd (select_device env) @ snd (load_image env args) @
       snd (load_processor env) @ snd (make_bnb_config env args d) @ snd (load_model env q) @
       snd (build_prompt env pr prompt) @
       snd (prepare_inputs env pr m cs img) @ snd (run_generation env m inputs) @
       snd (decode_output env pr inputs ids) @ [Print Stdout caption]"
      by blast
    from decode_output_Return[OF r] obtain t raw where
      d: "decode env pr (drop (shape t ! 1) ids) True False = Inr raw" "caption = strip raw"
         "snd (decode_output env pr inputs ids) =
            [Call (Decode pr (drop (shape t ! 1) ids) True False)]" by auto
    have w: "written Stdout (snd (main_body env args)) = [Print Stdout caption]"
      unfolding ev written_append using quiet_steps[unfolded quiet_def]
      by (simp add: written_def)
    from ev d have "Call (Decode pr (drop (shape t ! 1) ids) True False)
                      \<in> set (snd (main_body env args))" by simp
    with p have c: "Call (Decode pr (drop (shape t ! 1) ids) True False)
                      \<in> set (events (main env argv))" by (auto simp: main_Call)
    from main_accepted[OF p] u w have "written Stdout (events (main env argv)) = [Print Stdout caption]"
      by simp
    with c d show "\<exists>proc toks raw.
          Call (Decode proc toks True False) \<in> set (events (main env argv))
        \<and> decode env proc toks True False = Inr raw
        \<and> written Stdout (events (main env argv)) = [Print Stdout (strip raw)]"
      by blast
  qed
next
  show "status (main env argv) \<noteq> 0 \<longrightarrow> written Stdout (events (main env argv)) = []"
  proof
    assume s: "status (main env argv) \<noteq> 0"
    show "written Stdout (events (main env argv)) = []"
    proof (cases "parse_args (interp env) argv")
      case (Inl x)
      with s show ?thesis by (cases x) (simp_all add: main_rejected written_def)
    next
      case (Inr args)
      from s main_accepted[OF Inr] have "\<forall>y. fst (main_body env args) \<noteq> Return y" by auto
      with main_body_quiet_unless[of env args] have "written Stdout (snd (main_body env args)) = []"
        by (simp add: quiet_def)
      with main_accepted[OF Inr] show ?thesis
        by (cases "fst (main_body env args)") (simp_all add: written_append, simp_all add: written_def)
    qed
  qed
next
  show "Print Stdout msg \<in> set (events (main env argv)) \<longrightarrow> successful env argv"
  proof
    assume a: "Print Stdout msg \<in> set (events (main env argv))"
    show "successful env argv"
    proof (cases "parse_args (interp env) argv")
      case (Inl x)
      with a show ?thesis by (cases x) (simp_all add: main_rejected)
    next
      case (Inr args)
      with a have "Print Stdout msg \<in> set (snd (main_body env args))"
        by (auto simp: main_accepted split: result.splits)
      then have "\<exists>ev \<in> set (snd (main_body env args)). stream_of ev = Some Stdout"
        by (intro bexI[of _ "Print Stdout msg"]) simp_all
      then have "\<not> quiet (main_body env args)" by (simp add: quiet_iff)
      with main_body_quiet_unless[of env args] obtain y where "fst (main_body env args) = Return y"
        by auto
      with Inr show ?thesis by (auto simp: successful_iff)
    qed
  qed
next
  show "\<exists>a b. raw = a @ strip raw @ b \<and> list_all isspace a \<and> list_all isspace b"
    by (rule strip_spec)
next
  show "strip raw \<noteq> [] \<longrightarrow> \<not> isspace (hd (strip raw)) \<and> \<not> isspace (last (strip raw))"
    using strip_ends by blast
qed

lemma status_broken_image: "status (main broken_image_env sample_argv) \<noteq> 0"
  by (simp add: main_broken_image)

theorem stdout_is_the_caption_witness:
  "successful sample_env sample_argv
   \<and> status (main broken_image_env sample_argv) \<noteq> 0
   \<and> Print Stdout (str ''a cat on a mat'') \<in> set (events (main sample_env sample_argv))
   \<and> strip (str '' a cat on a mat '') \<noteq> []
   \<and> (\<exists>proc toks raw.
          Call (Decode proc toks True False) \<in> set (events (main sample_env sample_argv))
        \<and> decode sample_env proc toks True False = Inr raw
        \<and> written Stdout (events (main sample_env sample_argv)) = [Print Stdout (strip raw)])
   \<and> written Stdout (events (main broken_image_env sample_argv)) = []
   \<and> \<not> isspace (hd (strip (str '' a cat on a mat '')))
   \<and> \<not> isspace (last (strip (str '' a cat on a mat '')))"
proof -
  have h3: "Print Stdout (str ''a cat on a mat'') \<in> set (events (main sample_env sample_argv))"
    by (simp add: main_sample main_body_sample)
  have h4: "strip (str '' a cat on a mat '') \<noteq> []"
    unfolding strip_sample by (simp add: str_simps)
  note a = stdout_is_the_caption[where env = sample_env and argv = sample_argv
      and raw = "str '' a cat on a mat ''" and msg = "str ''a cat on a mat''"]
  note b = stdout_is_the_caption[where env = broken_image_env and argv = sample_argv]
  from a successful_sample have 1: "\<exists>proc toks raw.
          Call (Decode proc toks True False) \<in> set (events (main sample_env sample_argv))
        \<and> decode sample_env proc toks True False = Inr raw
        \<and> written Stdout (events (main sample_env sample_argv)) = [Print Stdout (strip raw)]"
    by blast
  from b status_broken_image
  have 2: "written Stdout (events (main broken_image_env sample_argv)) = []" by blast
  from a h4 have 3: "\<not> isspace (hd (strip (str '' a cat on a mat '')))
     \<and> \<not> isspace (last (strip (str '' a cat on a mat '')))" by blast
  from successful_sample status_broken_image h3 h4 1 2 3 show ?thesis by blast
qed

lemma bogus_not_a_choice: "str ''bogus'' \<notin> set mode_choices"
  by (simp add: mode_choices_eq str_simps)

lemma not_help_like_sample:
  "\<not> help_like (str ''--image'')" "\<not> help_like (str ''cat.png'')"
  by (simp_all add: help_like_def str_simps)

lemma main_list_mode:
  assumes "parse_args (interp env) argv = Inr args" and "mode args = Py_list l"
  shows "calls (events (main env argv)) = [] \<and> status (main env argv) = 1"
  using main_accepted[OF assms(1)] main_body_list[OF assms(2), of env]
  by (simp add: calls_def List.map_filter_def)

text \<open>
  C3, counterexample.  A \<^verbatim>\<open>--mode\<close> value outside the four names does not always end the
  run with a non-zero status: argparse handles the options from left to right, and
  the help option leaves with status 0 before the value of a later \<^verbatim>\<open>--mode\<close> is checked.
  With \<^verbatim>\<open>-h --mode bogus\<close> the run prints the help and ends with status 0.
\<close>

theorem help_precedes_mode_check:
  "str ''bogus'' \<notin> set mode_choices
   \<and> main sample_env [str ''-h'', str ''--mode'', str ''bogus''] =
       \<lparr>events = [Print_help], status = 0\<rparr>"
  by (simp add: main_help_first bogus_not_a_choice)

text \<open>
  C3, as the code has it.  The choices of \<^verbatim>\<open>--mode\<close> are the four names \<^verbatim>\<open>descriptive\<close>,
  \<^verbatim>\<open>straightforward\<close>, \<^verbatim>\<open>booru\<close>, \<^verbatim>\<open>training\<close>.  Each of them is accepted, and the mode of an
  accepted command line is one of them; the one exception is the empty list that an
  interpreter which strips the values of options stores for \<^verbatim>\<open>--mode=--\<close> (or an
  abbreviation of \<^verbatim>\<open>--mode\<close>, with the same value), and then the run ends at the lookup of
  the prompt, with status 1 and without any library call.  A
  command line that gives \<^verbatim>\<open>--mode\<close> any other value, as \<^verbatim>\<open>--mode v\<close> or as \<^verbatim>\<open>--mode=v\<close>, is
  not accepted: the run ends during argument parsing, without any library call; its status
  is not 0, unless the run has printed the help and ended with status 0, which takes a
  string that can stand for the help option earlier on the command line.
\<close>

theorem mode_is_one_of_four:
  "mode_choices =
     [str ''descriptive'', str ''straightforward'', str ''booru'', str ''training'']
   \<and> (m \<in> set mode_choices \<longrightarrow> plain path \<longrightarrow>
        parse_args (interp env) [str ''--image'', path, str ''--mode'', m] =
          Inr \<lparr>image = Py_str path, mode = Py_str m, low_vram = False\<rparr>)
   \<and> (parse_args (interp env) argv = Inr args \<longrightarrow>
        (\<exists>m' \<in> set mode_choices. mode args = Py_str m')
        \<or> (strips_option_values (interp env) \<and> mode args = Py_list []
           \<and> (\<exists>s \<in> set argv. s \<in> set [str ''--m=--'', str ''--mo=--'', str ''--mod=--'',
                                         str ''--mode=--''])
           \<and> calls (events (main env argv)) = [] \<and> status (main env argv) = 1))
   \<and> (v \<notin> set mode_choices \<longrightarrow>
        (bad = pre @ str ''--mode'' # v # post
         \<or> bad = pre @ (str ''--mode='' @ v) # post
           \<and> \<not> (strips_option_values (interp env) \<and> v = str ''--'')) \<longrightarrow>
        (\<exists>x. parse_args (interp env) bad = Inl x)
        \<and> calls (events (main env bad)) = []
        \<and> (status (main env bad) \<noteq> 0
            \<or> status (main env bad) = 0 \<and> events (main env bad) = [Print_help]
              \<and> (\<exists>s \<in> set pre. help_like s)))"
proof (intro conjI)
  show "mode_choices =
     [str ''descriptive'', str ''straightforward'', str ''booru'', str ''training'']"
    by (rule mode_choices_eq)
next
  show "m \<in> set mode_choices \<longrightarrow> plain path \<longrightarrow>
        parse_args (interp env) [str ''--image'', path, str ''--mode'', m] =
          Inr \<lparr>image = Py_str path, mode = Py_str m, low_vram = False\<rparr>"
    using parse_args_accepts[of m path "interp env"] by blast
next
  show "parse_args (interp env) argv = Inr args \<longrightarrow>
        (\<exists>m' \<in> set mode_choices. mode args = Py_str m')
        \<or> (strips_option_values (interp env) \<and> mode args = Py_list []
           \<and> (\<exists>s \<in> set argv. s \<in> set [str ''--m=--'', str ''--mo=--'', str ''--mod=--'',
                                         str ''--mode=--''])
           \<and> calls (events (main env argv)) = [] \<and> status (main env argv) = 1)"
  proof
    assume p: "parse_args (interp env) argv = Inr args"
    from parse_args_mode[OF p] main_list_mode[OF p, of "[]"] parse_args_list_mode[OF p, of "[]"]
    show "(\<exists>m' \<in> set mode_choices. mode args = Py_str m')
        \<or> (strips_option_values (interp env) \<and> mode args = Py_list []
           \<and> (\<exists>s \<in> set argv. s \<in> set [str ''--m=--'', str ''--mo=--'', str ''--mod=--'',
                                         str ''--mode=--''])
           \<and> calls (events (main env argv)) = [] \<and> status (main env argv) = 1)"
      by auto
  qed
next
  show "v \<notin> set mode_choices \<longrightarrow>
        (bad = pre @ str ''--mode'' # v # post
         \<or> bad = pre @ (str ''--mode='' @ v) # post
           \<and> \<not> (strips_option_values (interp env) \<and> v = str ''--'')) \<longrightarrow>
        (\<exists>x. parse_args (interp env) bad = Inl x)
        \<and> calls (events (main env bad)) = []
        \<and> (status (main env bad) \<noteq> 0
            \<or> status (main env bad) = 0 \<and> events (main env bad) = [Print_help]
              \<and> (\<exists>s \<in> set pre. help_like s))"
  proof (intro impI)
    assume v: "v \<notin> set mode_choices"
      and b: "bad = pre @ str ''--mode'' # v # post
         \<or> bad = pre @ (str ''--mode='' @ v) # post
           \<and> \<not> (strips_option_values (interp env) \<and> v = str ''--'')"
    from mode_value_rejected[OF v b] obtain x
      where x: "parse_args (interp env) bad = Inl x"
        and h: "x = Help_exit \<longrightarrow> (\<exists>s \<in> set pre. help_like s)" by blast
    show "(\<exists>x. parse_args (interp env) bad = Inl x)
        \<and> calls (events (main env bad)) = []
        \<and> (status (main env bad) \<noteq> 0
            \<or> status (main env bad) = 0 \<and> events (main env bad) = [Print_help]
              \<and> (\<exists>s \<in> set pre. help_like s))"
    proof (cases x)
      case Help_exit
      with main_rejected[OF x] have "main env bad = \<lparr>events = [Print_help], status = 0\<rparr>"
        by simp
      with x h Help_exit show ?thesis by (simp add: calls_def List.map_filter_def)
    next
      case (Error_exit e)
      with main_rejected[OF x]
      have "main env bad = \<lparr>events = [Print_usage_error e], status = 2\<rparr>" by simp
      with x show ?thesis by (simp add: calls_def List.map_filter_def)
    qed
  qed
qed

theorem mode_is_one_of_four_witness:
  "str ''booru'' \<in> set mode_choices \<and> plain (str ''cat.png'')
   \<and> str ''bogus'' \<notin> set mode_choices
   \<and> \<not> strips_option_values (interp sample_env)
   \<and> parse_args (interp sample_env)
        [str ''--image'', str ''cat.png'', str ''--mode'', str ''booru''] =
       Inr \<lparr>image = Py_str (str ''cat.png''), mode = Py_str (str ''booru''), low_vram = False\<rparr>
   \<and> mode \<lparr>image = Py_str (str ''cat.png''), mode = Py_str (str ''booru''), low_vram = False\<rparr>
       \<in> Py_str ` set mode_choices
   \<and> (\<exists>x. parse_args (interp sample_env)
          [str ''--image'', str ''cat.png'', str ''--mode'', str ''bogus''] = Inl x)
   \<and> calls (events (main sample_env
          [str ''--image'', str ''cat.png'', str ''--mode'', str ''bogus''])) = []
   \<and> status (main sample_env
          [str ''--image'', str ''cat.png'', str ''--mode'', str ''bogus'']) \<noteq> 0"
proof -
  have m: "str ''booru'' \<in> set mode_choices" by (simp add: mode_choices_eq)
  have p: "plain (str ''cat.png'')" by (simp add: plain_def str_simps)
  have s: "\<not> strips_option_values (interp sample_env)" by (simp add: sample_env_def)
  have a: "parse_args (interp sample_env) sample_argv =
       Inr \<lparr>image = Py_str (str ''cat.png''), mode = Py_str (str ''booru''), low_vram = False\<rparr>"
    by (rule parse_sample_argv)
  have b: "[str ''--image'', str ''cat.png'', str ''--mode'', str ''bogus''] =
      [str ''--image'', str ''cat.png''] @ str ''--mode'' # str ''bogus'' # []" by simp
  have n: "\<not> (\<exists>s \<in> set [str ''--image'', str ''cat.png'']. help_like s)"
    using not_help_like_sample by simp
  note t = mode_is_one_of_four[of "str ''booru''" "str ''cat.png''" sample_env sample_argv
      "\<lparr>image = Py_str (str ''cat.png''), mode = Py_str (str ''booru''), low_vram = False\<rparr>"
      "str ''bogus''"
      "[str ''--image'', str ''cat.png'', str ''--mode'', str ''bogus'']"
      "[str ''--image'', str ''cat.png'']" "[]"]
  from t m p have 1: "parse_args (interp sample_env)
        [str ''--image'', str ''cat.png'', str ''--mode'', str ''booru''] =
       Inr \<lparr>image = Py_str (str ''cat.png''), mode = Py_str (str ''booru''), low_vram = False\<rparr>"
    by blast
  from t a s have 2:
    "mode \<lparr>image = Py_str (str ''cat.png''), mode = Py_str (str ''booru''), low_vram = False\<rparr>
       \<in> Py_str ` set mode_choices" by blast
  from t bogus_not_a_choice b n have 3:
    "(\<exists>x. parse_args (interp sample_env)
          [str ''--image'', str ''cat.png'', str ''--mode'', str ''bogus''] = Inl x)
   \<and> calls (events (main sample_env
          [str ''--image'', str ''cat.png'', str ''--mode'', str ''bogus''])) = []
   \<and> status (main sample_env
          [str ''--image'', str ''cat.png'', str ''--mode'', str ''bogus'']) \<noteq> 0"
    by blast
  from m p bogus_not_a_choice s 1 2 3 show ?thesis by blast
qed

text \<open>
  C8, counterexample.  An accepted command line does not always leave a key of
  \<^verbatim>\<open>MODE_PROMPTS\<close> as \<^verbatim>\<open>args.mode\<close>: the argparse of CPython 3.11.2 strips the \<^verbatim>\<open>--\<close> of
  \<^verbatim>\<open>--mode=--\<close>, checks nothing and stores the empty list.  The lookup of the prompt then
  raises \<^verbatim>\<open>TypeError\<close>, and the run ends with the traceback and status 1.
\<close>

theorem mode_can_be_a_list:
  "parse_args (interp older_env) [str ''--image'', str ''cat.png'', str ''--mode=--''] =
     Inr \<lparr>image = Py_str (str ''cat.png''), mode = Py_list [], low_vram = False\<rparr>
   \<and> Py_list [] \<notin> Py_str ` set (dict_keys MODE_PROMPTS)
   \<and> main older_env [str ''--image'', str ''cat.png'', str ''--mode=--''] =
       \<lparr>events =
          [Raised (Exn TypeError (str ''unhashable type: '' @ [39] @ str ''list'' @ [39])),
           Traceback (Exn TypeError (str ''unhashable type: '' @ [39] @ str ''list'' @ [39]))],
        status = 1\<rparr>"
proof -
  have "strips_option_values (interp older_env)" by (simp add: older_env_def)
  from parse_mode_dashes[OF this] main_mode_dashes show ?thesis by auto
qed

text \<open>
  C8, as the code has it.  When the parser accepts the command line, the lookup
  \<^verbatim>\<open>MODE_PROMPTS.get(args.mode, DEFAULT_PROMPT)\<close> never gives its default.  Either
  \<^verbatim>\<open>args.mode\<close> is a key of \<^verbatim>\<open>MODE_PROMPTS\<close>, and the lookup gives \<^verbatim>\<open>MODE_PROMPTS[args.mode]\<close>
  whatever the default is; or, only on an interpreter that strips the values of options and
  only for \<^verbatim>\<open>--mode=--\<close> (or an abbreviation of \<^verbatim>\<open>--mode\<close>, with the same value),
  \<^verbatim>\<open>args.mode\<close> is the empty list, and the lookup raises.  On a command line with no string
  that can stand for \<^verbatim>\<open>--mode\<close>, the mode is \<^verbatim>\<open>"descriptive"\<close>.
\<close>

theorem default_prompt_never_used:
  assumes "parse_args ip argv = Inr args"
  shows "((\<exists>m p. mode args = Py_str m \<and> m \<in> set (dict_keys MODE_PROMPTS)
              \<and> dict_index MODE_PROMPTS m = Inr p
              \<and> dict_get_value MODE_PROMPTS (mode args) dflt = Inr p
              \<and> select_prompt args = ret p)
          \<or> (strips_option_values ip \<and> mode args = Py_list []
              \<and> (\<exists>s \<in> set argv. s \<in> set [str ''--m=--'', str ''--mo=--'', str ''--mod=--'',
                                            str ''--mode=--''])
              \<and> (\<exists>e. dict_get_value MODE_PROMPTS (mode args) dflt = Inl e
                     \<and> select_prompt args = raise e)))
       \<and> ((\<forall>s \<in> set argv. \<not> startswith s (str ''--m'')) \<longrightarrow>
            mode args = Py_str (str ''descriptive''))"
proof -
  have 1: "(\<exists>m p. mode args = Py_str m \<and> m \<in> set (dict_keys MODE_PROMPTS)
              \<and> dict_index MODE_PROMPTS m = Inr p
              \<and> dict_get_value MODE_PROMPTS (mode args) dflt = Inr p
              \<and> select_prompt args = ret p)
          \<or> (strips_option_values ip \<and> mode args = Py_list []
              \<and> (\<exists>s \<in> set argv. s \<in> set [str ''--m=--'', str ''--mo=--'', str ''--mod=--'',
                                            str ''--mode=--''])
              \<and> (\<exists>e. dict_get_value MODE_PROMPTS (mode args) dflt = Inl e
                     \<and> select_prompt args = raise e))"
  proof (cases "mode args")
    case (Py_str m)
    from default_prompt_unused[OF assms Py_str] obtain p where
      k: "m \<in> set mode_choices" and p: "map_of MODE_PROMPTS m = Some p"
      and i: "dict_index MODE_PROMPTS m = Inr p" by blast
    from p Py_str have "dict_get_value MODE_PROMPTS (mode args) dflt = Inr p"
      "select_prompt args = ret p"
      by (simp_all add: dict_get_value_def dict_get_def select_prompt_def python_def)
    with k i Py_str show ?thesis by (auto simp: mode_choices_def)
  next
    case (Py_list l)
    from parse_args_list_mode[OF assms Py_list] have "strips_option_values ip" "l = []"
      "\<exists>s \<in> set argv. s \<in> set [str ''--m=--'', str ''--mo=--'', str ''--mod=--'',
                                  str ''--mode=--'']" by auto
    with Py_list show ?thesis
      by (simp add: dict_get_value_def select_prompt_def python_def)
  qed
  from 1 parse_args_default_mode[OF assms] show ?thesis by blast
qed

theorem default_prompt_never_used_witness:
  "parse_args (interp sample_env) [str ''--image'', str ''cat.png''] =
     Inr \<lparr>image = Py_str (str ''cat.png''), mode = Py_str (str ''descriptive''),
         low_vram = False\<rparr>
   \<and> \<not> startswith (str ''--image'') (str ''--m'')
   \<and> \<not> startswith (str ''cat.png'') (str ''--m'')
   \<and> str ''descriptive'' \<in> set (dict_keys MODE_PROMPTS)
   \<and> (\<exists>p. dict_index MODE_PROMPTS (str ''descriptive'') = Inr p
          \<and> dict_get_value MODE_PROMPTS (Py_str (str ''descriptive'')) [] = Inr p
          \<and> select_prompt \<lparr>image = Py_str (str ''cat.png''), mode = Py_str (str ''descriptive''),
               low_vram = False\<rparr> = ret p)"
proof -
  have h: "parse_args (interp sample_env) [str ''--image'', str ''cat.png''] =
     Inr \<lparr>image = Py_str (str ''cat.png''), mode = Py_str (str ''descriptive''),
         low_vram = False\<rparr>"
    by (rule parse_without_mode)
  have n: "\<not> startswith (str ''--image'') (str ''--m'')"
    "\<not> startswith (str ''cat.png'') (str ''--m'')"
    by (simp_all add: str_simps startswith_Cons2)
  from default_prompt_never_used[OF h, of "[]"] h n show ?thesis by auto
qed

end
